(* ===== verification/Prelude.thy ===== *)
theory Prelude
  imports Main "HOL-Library.Word"
begin

section \<open>Shared vocabulary of the development\<close>

text \<open>
  The names every component uses: 64-bit integers, the outcome of a Go call that may
  panic, error-passing folds, decimal printing, and reachability for step relations
  with the invariant rules that the state machines of the library instantiate.
\<close>

named_theorems go_simps \<open>unfolding rules for small Go helpers\<close>
named_theorems codec_simps \<open>encoders and decoders of JSON structures\<close>
named_theorems step_intros \<open>introduction rules of the step relations\<close>

subsection \<open>Integers and outcomes\<close>

text \<open>Go's \<open>int\<close>, \<open>int64\<close> and \<open>time.Duration\<close>: two's complement, 64 bits.\<close>

type_synonym i64 = "64 word"

definition in_i64 :: "int \<Rightarrow> bool" where
  "in_i64 n \<longleftrightarrow> - (2 ^ 63) \<le> n \<and> n < 2 ^ 63"

lemma sint_in_i64 [simp]: "in_i64 (sint (w :: i64))"
  using sint_range_size [of w] by (simp add: in_i64_def word_size)

lemma word_of_int_sint [simp]: "(word_of_int (sint w) :: i64) = w"
  by simp

lemma sint_word_of_int_i64: "in_i64 n \<Longrightarrow> sint (word_of_int n :: i64) = n"
  by (simp add: in_i64_def signed_take_bit_int_eq_self sint_sbintrunc')

lemma sint_eq_0_i64 [simp]: "(sint (w :: i64) = 0) = (w = 0)"
  by (metis sint_0 word_of_int_sint of_int_0)

text \<open>
  A Go call returns, panics, or blocks as long as no other goroutine acts. A panic is not
  caught anywhere in the program, so a panic on any goroutine ends the whole process.
\<close>

datatype 'a go = Ret 'a | Panic string | Block

primrec bind_go :: "'a go \<Rightarrow> ('a \<Rightarrow> 'b go) \<Rightarrow> 'b go" where
  "bind_go (Ret x) f = f x"
| "bind_go (Panic m) f = Panic m"
| "bind_go Block f = Block"

primrec panics :: "'a go \<Rightarrow> bool" where
  "panics (Ret x) = False"
| "panics (Panic m) = True"
| "panics Block = False"

lemma bind_go_Ret_right [simp]: "bind_go m Ret = m"
  by (cases m) simp_all

lemma bind_go_assoc: "bind_go (bind_go m f) g = bind_go m (\<lambda>x. bind_go (f x) g)"
  by (cases m) simp_all

lemma bind_go_eq_Ret: "bind_go m f = Ret y \<longleftrightarrow> (\<exists>x. m = Ret x \<and> f x = Ret y)"
  by (cases m) simp_all

text \<open>Go's nil dereference, the panic the library can reach.\<close>

abbreviation nil_deref :: "'a go" where
  "nil_deref \<equiv> Panic ''runtime error: invalid memory address or nil pointer dereference''"

subsection \<open>Folding with errors\<close>

fun fold_res :: "('x \<Rightarrow> 'r \<Rightarrow> 'e + 'r) \<Rightarrow> 'x list \<Rightarrow> 'r \<Rightarrow> 'e + 'r" where
  "fold_res f [] r = Inr r"
| "fold_res f (x # xs) r = (case f x r of Inl e \<Rightarrow> Inl e | Inr r' \<Rightarrow> fold_res f xs r')"

lemma fold_res_append:
  "fold_res f (xs @ ys) r = (case fold_res f xs r of Inl e \<Rightarrow> Inl e | Inr r' \<Rightarrow> fold_res f ys r')"
  by (induction xs arbitrary: r) (auto split: sum.split)

lemma fold_res_preserves:
  assumes "\<And>x r r'. x \<in> set xs \<Longrightarrow> f x r = Inr r' \<Longrightarrow> P r \<Longrightarrow> P r'"
    and "fold_res f xs r = Inr r'" and "P r"
  shows "P r'"
  using assms
proof (induction xs arbitrary: r)
  case Nil
  then show ?case by simp
next
  case (Cons x xs)
  then show ?case by (auto split: sum.splits)
qed

text \<open>Errors mapped over a sum; the success side continues.\<close>

definition bind_res :: "'e + 'a \<Rightarrow> ('a \<Rightarrow> 'e + 'b) \<Rightarrow> 'e + 'b" where
  "bind_res m f = (case m of Inl e \<Rightarrow> Inl e | Inr x \<Rightarrow> f x)"

lemma bind_res_simps [simp]:
  "bind_res (Inl e) f = Inl e"
  "bind_res (Inr x) f = f x"
  by (simp_all add: bind_res_def)

lemma bind_res_eq_Inr: "bind_res m f = Inr y \<longleftrightarrow> (\<exists>x. m = Inr x \<and> f x = Inr y)"
  by (cases m) simp_all

lemma map_sum_eq_Inr [simp]:
  "map_sum id f m = Inr y \<longleftrightarrow> (\<exists>x. m = Inr x \<and> y = f x)"
  by (cases m) auto

subsection \<open>Decimal text\<close>

definition digit_char :: "nat \<Rightarrow> char" where
  "digit_char d = char_of (48 + d)"

fun show_nat :: "nat \<Rightarrow> string" where
  "show_nat n = (if n < 10 then [digit_char n] else show_nat (n div 10) @ [digit_char (n mod 10)])"

declare show_nat.simps [simp del]

definition show_int :: "int \<Rightarrow> string" where
  "show_int n = (if n < 0 then ''-'' @ show_nat (nat (- n)) else show_nat (nat n))"

lemma show_nat_nonempty [simp]: "show_nat n \<noteq> []"
  by (subst show_nat.simps) simp

lemma show_int_nonempty [simp]: "show_int n \<noteq> []"
  by (simp add: show_int_def)

subsection \<open>Reachability and invariants of step relations\<close>

inductive reach :: "('s \<Rightarrow> bool) \<Rightarrow> ('s \<Rightarrow> 's \<Rightarrow> bool) \<Rightarrow> 's \<Rightarrow> bool"
  for init step where
  reach_init: "init s \<Longrightarrow> reach init step s"
| reach_step: "reach init step s \<Longrightarrow> step s t \<Longrightarrow> reach init step t"

lemma reach_invariant:
  assumes "reach init step s"
    and "\<And>s. init s \<Longrightarrow> I s"
    and "\<And>s t. I s \<Longrightarrow> step s t \<Longrightarrow> I t"
  shows "I s"
  using assms(1) by (induction rule: reach.induct) (auto intro: assms(2,3))

lemma reach_rtranclp:
  assumes "reach init step s" and "step\<^sup>*\<^sup>* s t"
  shows "reach init step t"
  using assms(2,1) by (induction rule: rtranclp_induct) (auto intro: reach_step)

lemma rtranclp_invariant:
  assumes "step\<^sup>*\<^sup>* s t" and "I s" and "\<And>s t. I s \<Longrightarrow> step s t \<Longrightarrow> I t"
  shows "I t"
  using assms(1,2) by (induction rule: rtranclp_induct) (auto intro: assms(3))

text \<open>A step in front of a run; used to build concrete runs rule by rule.\<close>

lemma run_step: "step s t \<Longrightarrow> step\<^sup>*\<^sup>* t u \<Longrightarrow> step\<^sup>*\<^sup>* s u"
  by (rule converse_rtranclp_into_rtranclp)

end
