(* ===== verification/GoJson.thy ===== *)
theory GoJson
  imports Prelude Complex_Main
begin

section \<open>What the program uses of encoding/json\<close>

text \<open>
  JSON documents as trees, the generic decoding rules of \<open>json.Unmarshal\<close> into typed
  fields (null keeps the old value, keys match case-insensitively, the last of several
  matching keys wins, unknown keys are skipped) and the normal form a document takes
  once it has passed through a Go \<open>any\<close> (numbers as float64, object keys unique and
  sorted). A byte slice is represented by the document it denotes, or by its text when
  it is not JSON. Integer literals are exact; literals with a fraction carry their
  value, and the binary rounding of a fraction is not modelled (nothing under src/
  decodes one). Case folding is that of ASCII.
\<close>

datatype json =
    JNull
  | JBool bool
  | JInt int
  | JDec rat
  | JStr string
  | JArr "json list"
  | JObj "(string \<times> json) list"

datatype wire = JsonText json | OtherText string

datatype json_error = SyntaxError | UnmarshalTypeError string | UnsupportedValue string

subsection \<open>Numbers through float64\<close>

fun bits_of :: "nat \<Rightarrow> nat" where
  "bits_of n = (if n = 0 then 0 else Suc (bits_of (n div 2)))"

declare bits_of.simps [simp del]

text \<open>Round to 53 significant bits, ties to even, on a magnitude above \<open>2 ^ 53\<close>.\<close>

definition round53 :: "nat \<Rightarrow> nat" where
  "round53 m =
     (let u = 2 ^ (bits_of m - 53); q = m div u; r = m mod u
      in (if 2 * r > u \<or> (2 * r = u \<and> odd q) then q + 1 else q) * u)"

definition f64_mag :: "nat \<Rightarrow> nat" where
  "f64_mag m = (if m \<le> 2 ^ 53 then m else round53 m)"

text \<open>
  The shortest decimal that reads back as the same float64 (\<open>strconv.FormatFloat\<close> with
  precision -1): try 1, 2, \<dots>, 17 significant digits, below and above the value.
\<close>

fun shortest_from :: "nat list \<Rightarrow> nat \<Rightarrow> nat" where
  "shortest_from [] x = x"
| "shortest_from (u # us) x =
     (let lo = x div u * u; hi = lo + u;
          lo_ok = (f64_mag lo = x); hi_ok = (f64_mag hi = x)
      in if lo_ok \<and> (\<not> hi_ok \<or> x - lo \<le> hi - x) then lo
         else if hi_ok then hi else shortest_from us x)"

definition f64_text_mag :: "nat \<Rightarrow> nat" where
  "f64_text_mag m =
     (let x = f64_mag m; d = length (show_nat x)
      in if x \<le> 2 ^ 53 then x
         else shortest_from (map (\<lambda>k. 10 ^ (d - k)) [1..<18]) x)"

text \<open>The integer literal that is written for a literal read into an \<open>any\<close>.\<close>

definition f64_text :: "int \<Rightarrow> int" where
  "f64_text n = sgn n * int (f64_text_mag (nat \<bar>n\<bar>))"

lemma f64_text_exact: "\<bar>n\<bar> \<le> 2 ^ 53 \<Longrightarrow> f64_text n = n"
  by (simp add: f64_text_def f64_text_mag_def f64_mag_def Let_def nat_le_iff sgn_mult_abs)

subsection \<open>Objects as Go maps\<close>

text \<open>Byte order on strings, the order \<open>json.Marshal\<close> sorts map keys by.\<close>

fun str_less :: "string \<Rightarrow> string \<Rightarrow> bool" where
  "str_less [] [] = False"
| "str_less [] (d # t) = True"
| "str_less (c # s) [] = False"
| "str_less (c # s) (d # t) =
     ((of_char c :: nat) < of_char d \<or> (c = d \<and> str_less s t))"

text \<open>Assignment \<open>m[k] = v\<close> on a map kept as its sorted list of entries.\<close>

fun map_put :: "string \<Rightarrow> 'a \<Rightarrow> (string \<times> 'a) list \<Rightarrow> (string \<times> 'a) list" where
  "map_put k v [] = [(k, v)]"
| "map_put k v ((k', v') # m) =
     (if k = k' then (k, v) # m
      else if str_less k k' then (k, v) # (k', v') # m
      else (k', v') # map_put k v m)"

fun map_put_all :: "(string \<times> 'a) list \<Rightarrow> (string \<times> 'a) list \<Rightarrow> (string \<times> 'a) list" where
  "map_put_all [] m = m"
| "map_put_all ((k, v) # kvs) m = map_put_all kvs (map_put k v m)"

definition sorted_keys :: "(string \<times> 'a) list \<Rightarrow> bool" where
  "sorted_keys m = sorted_wrt (\<lambda>x y. str_less (fst x) (fst y)) m"

lemma str_less_irrefl [simp]: "\<not> str_less s s"
  by (induction s) simp_all

lemma str_less_trans: "str_less a b \<Longrightarrow> str_less b c \<Longrightarrow> str_less a c"
proof (induction a b arbitrary: c rule: str_less.induct)
  case (2 d t)
  then show ?case by (cases c) auto
next
  case (4 x s d t)
  then show ?case by (cases c) auto
qed simp_all

lemma str_less_linear: "a \<noteq> b \<Longrightarrow> \<not> str_less a b \<Longrightarrow> str_less b a"
proof (induction a b rule: str_less.induct)
  case (4 c s d t)
  show ?case
  proof (cases "c = d")
    case True
    with 4 show ?thesis by auto
  next
    case False
    then have "(of_char c :: nat) \<noteq> of_char d" by simp
    then consider "(of_char c :: nat) < of_char d" | "(of_char d :: nat) < of_char c"
      by linarith
    then show ?thesis using 4 by cases auto
  qed
qed simp_all

lemma map_of_map_put [simp]: "map_of (map_put k v m) = (map_of m)(k \<mapsto> v)"
  by (induction k v m rule: map_put.induct) (auto simp: fun_eq_iff)

lemma fst_set_map_put [simp]: "fst ` set (map_put k v m) = insert k (fst ` set m)"
  by (induction k v m rule: map_put.induct) auto

lemma sorted_keys_Nil [simp]: "sorted_keys []"
  by (simp add: sorted_keys_def)

lemma sorted_keys_Cons:
  "sorted_keys (x # m) \<longleftrightarrow> sorted_keys m \<and> (\<forall>y \<in> set m. str_less (fst x) (fst y))"
  by (auto simp: sorted_keys_def)

lemma sorted_keys_map_put [simp]: "sorted_keys m \<Longrightarrow> sorted_keys (map_put k v m)"
proof (induction k v m rule: map_put.induct)
  case (2 k v k' v' m)
  have keys: "\<forall>y \<in> set (map_put k v m). fst y = k \<or> fst y \<in> fst ` set m"
    by (metis fst_set_map_put imageI insertE)
  show ?case
  proof (cases "k = k' \<or> str_less k k'")
    case True
    with 2 show ?thesis by (auto simp: sorted_keys_Cons intro: str_less_trans [of k k'])
  next
    case False
    then have "str_less k' k" by (auto intro: str_less_linear)
    moreover from 2 have "\<forall>y \<in> set m. str_less k' (fst y)" by (simp add: sorted_keys_Cons)
    ultimately have "\<forall>y \<in> set (map_put k v m). str_less k' (fst y)"
      using keys by (metis imageE)
    with False 2 show ?thesis by (simp add: sorted_keys_Cons)
  qed
qed (simp add: sorted_keys_Cons)

lemma sorted_keys_map_put_all [simp]: "sorted_keys m \<Longrightarrow> sorted_keys (map_put_all kvs m)"
  by (induction kvs m rule: map_put_all.induct) simp_all

lemma map_put_above:
  "\<forall>y \<in> set m. str_less (fst y) k \<Longrightarrow> map_put k v m = m @ [(k, v)]"
proof (induction m)
  case Nil
  then show ?case by simp
next
  case (Cons y m)
  from Cons.prems have "k \<noteq> fst y" "\<not> str_less k (fst y)"
    by (auto dest: str_less_trans)
  with Cons show ?case by (cases y) simp
qed

lemma map_put_all_sorted:
  "sorted_keys (m @ kvs) \<Longrightarrow> map_put_all kvs m = m @ kvs"
proof (induction kvs arbitrary: m)
  case Nil
  then show ?case by simp
next
  case (Cons kv kvs)
  obtain k v where kv: "kv = (k, v)" by (cases kv)
  from Cons.prems have "\<forall>y \<in> set m. str_less (fst y) k"
    by (induction m) (auto simp: kv sorted_keys_Cons)
  then have "map_put k v m = m @ [(k, v)]" by (rule map_put_above)
  with Cons.IH [of "m @ [(k, v)]"] Cons.prems show ?case by (simp add: kv)
qed

lemma map_put_all_id: "sorted_keys kvs \<Longrightarrow> map_put_all kvs [] = kvs"
  using map_put_all_sorted [of "[]" kvs] by simp

lemma map_put_all_idem: "map_put_all (map_put_all kvs []) [] = map_put_all kvs []"
  by (simp add: map_put_all_id)

lemma map_of_map_put_all:
  "map_of (map_put_all kvs m) = map_of m ++ map_of (rev kvs)"
  by (induction kvs m rule: map_put_all.induct) (auto simp: fun_eq_iff map_add_def split: option.split)

subsection \<open>The value an any holds, written back\<close>

primrec any_json :: "json \<Rightarrow> json" where
  "any_json JNull = JNull"
| "any_json (JBool b) = JBool b"
| "any_json (JInt n) = JInt (f64_text n)"
| "any_json (JDec r) =
     (if snd (quotient_of r) = 1 then JInt (f64_text (fst (quotient_of r))) else JDec r)"
| "any_json (JStr s) = JStr s"
| "any_json (JArr xs) = JArr (map any_json xs)"
| "any_json (JObj kvs) = JObj (map_put_all (map (map_prod id any_json) kvs) [])"


text \<open>A document whose integers a float64 holds exactly.\<close>

primrec json_exact :: "json \<Rightarrow> bool" where
  "json_exact JNull = True"
| "json_exact (JBool b) = True"
| "json_exact (JInt n) = (\<bar>n\<bar> \<le> 2 ^ 53)"
| "json_exact (JDec r) = (snd (quotient_of r) \<noteq> 1)"
| "json_exact (JStr s) = True"
| "json_exact (JArr xs) = list_all id (map json_exact xs)"
| "json_exact (JObj kvs) = (sorted_keys kvs \<and> list_all id (map snd (map (map_prod id json_exact) kvs)))"

lemma any_json_exact: "json_exact j \<Longrightarrow> any_json j = j"
proof (induction j)
  case (JArr xs)
  then show ?case by (auto simp: list_all_iff intro: map_idI)
next
  case (JObj kvs)
  have "map (map_prod id any_json) kvs = kvs"
  proof (rule map_idI)
    fix p assume p: "p \<in> set kvs"
    with JObj.prems have "json_exact (snd p)" by (auto simp: list_all_iff)
    with JObj.IH p have "any_json (snd p) = snd p" by (cases p) auto
    then show "map_prod id any_json p = p" by (cases p) simp
  qed
  with JObj.prems show ?case by (simp add: map_put_all_id)
qed (simp_all add: f64_text_exact)

subsection \<open>Decoding into typed fields\<close>

text \<open>
  A decoder takes the document and the value the target held before, as
  \<open>json.Unmarshal\<close> does: JSON null leaves strings, integers and structs as they were
  and sets pointers, slices, maps and interfaces to nil. A slice or map that is nil is
  \<open>None\<close>; an \<open>any\<close> is the document it marshals to, nil being \<open>JNull\<close>.
\<close>

type_synonym 'a decoder = "json \<Rightarrow> 'a \<Rightarrow> json_error + 'a"

fun dec_string :: "string decoder" where
  "dec_string JNull old = Inr old"
| "dec_string (JStr s) old = Inr s"
| "dec_string _ old = Inl (UnmarshalTypeError ''string'')"

fun dec_i64 :: "i64 decoder" where
  "dec_i64 JNull old = Inr old"
| "dec_i64 (JInt n) old =
     (if in_i64 n then Inr (word_of_int n) else Inl (UnmarshalTypeError ''int64''))"
| "dec_i64 _ old = Inl (UnmarshalTypeError ''int64'')"

fun dec_int :: "int decoder" where
  "dec_int JNull old = Inr old"
| "dec_int (JInt n) old = (if in_i64 n then Inr n else Inl (UnmarshalTypeError ''int''))"
| "dec_int _ old = Inl (UnmarshalTypeError ''int'')"

definition dec_any :: "json decoder" where
  "dec_any j old = Inr (any_json j)"

fun dec_ptr :: "'a decoder \<Rightarrow> 'a \<Rightarrow> 'a option decoder" where
  "dec_ptr d zero JNull old = Inr None"
| "dec_ptr d zero j old = map_sum id Some (d j (case old of None \<Rightarrow> zero | Some x \<Rightarrow> x))"

fun dec_elems :: "'a decoder \<Rightarrow> 'a \<Rightarrow> json list \<Rightarrow> json_error + 'a list" where
  "dec_elems d zero [] = Inr []"
| "dec_elems d zero (j # js) =
     bind_res (d j zero) (\<lambda>x. map_sum id ((#) x) (dec_elems d zero js))"

fun dec_slice :: "'a decoder \<Rightarrow> 'a \<Rightarrow> 'a list option decoder" where
  "dec_slice d zero JNull old = Inr None"
| "dec_slice d zero (JArr js) old = map_sum id Some (dec_elems d zero js)"
| "dec_slice d zero _ old = Inl (UnmarshalTypeError ''slice'')"

fun dec_map :: "(string \<times> json) list option decoder" where
  "dec_map JNull old = Inr None"
| "dec_map (JObj kvs) old =
     Inr (Some (map_put_all (map (map_prod id any_json) kvs)
       (case old of None \<Rightarrow> [] | Some m \<Rightarrow> m)))"
| "dec_map _ old = Inl (UnmarshalTypeError ''map'')"

text \<open>Field names match exactly or up to case; the fields of one struct differ up to case.\<close>

fun lower_char :: "char \<Rightarrow> char" where
  "lower_char (Char b0 b1 b2 b3 b4 b5 b6 b7) =
     (let n = of_char (Char b0 b1 b2 b3 b4 b5 b6 b7) :: nat
      in if 65 \<le> n \<and> n \<le> 90 then Char b0 b1 b2 b3 b4 True b6 b7
         else Char b0 b1 b2 b3 b4 b5 b6 b7)"

definition key_match :: "string \<Rightarrow> string \<Rightarrow> bool" where
  "key_match f k \<longleftrightarrow> f = k \<or> map lower_char f = map lower_char k"

definition dec_field :: "'f decoder \<Rightarrow> ('r \<Rightarrow> 'f) \<Rightarrow> (('f \<Rightarrow> 'f) \<Rightarrow> 'r \<Rightarrow> 'r) \<Rightarrow> 'r decoder" where
  "dec_field d get upd v r = map_sum id (\<lambda>x. upd (\<lambda>_. x) r) (d v (get r))"

fun dec_struct :: "(string \<Rightarrow> 'r decoder) \<Rightarrow> 'r decoder" where
  "dec_struct set_field JNull r = Inr r"
| "dec_struct set_field (JObj kvs) r = fold_res (\<lambda>(k, v). set_field k v) kvs r"
| "dec_struct set_field _ r = Inl (UnmarshalTypeError ''struct'')"

lemma dec_slice_map:
  "(\<And>x. x \<in> set xs \<Longrightarrow> d (e x) zero = Inr x) \<Longrightarrow> dec_elems d zero (map e xs) = Inr xs"
  by (induction xs) simp_all

lemmas [codec_simps] = dec_any_def dec_field_def key_match_def map_put_all_id

subsection \<open>Text\<close>

text \<open>\<open>json.Marshal\<close> to bytes and the syntax phase of \<open>json.Unmarshal\<close>.\<close>

definition wire_of_json :: "json \<Rightarrow> wire" where
  "wire_of_json j = JsonText j"

fun json_of_wire :: "wire \<Rightarrow> json_error + json" where
  "json_of_wire (JsonText j) = Inr j"
| "json_of_wire (OtherText s) = Inl SyntaxError"

lemma json_of_wire_of_json [simp]: "json_of_wire (wire_of_json j) = Inr j"
  by (simp add: wire_of_json_def)

subsection \<open>The contract of a payload type\<close>

text \<open>
  Every payload of the protocol crosses the wire twice marshalled: the sender marshals
  the struct, the receiver decodes it into an \<open>any\<close>, marshals that and decodes it into
  the struct type of its handler. A payload type promises that this returns the value
  sent. \<open>ok\<close> is the set of values for which it does (integers a float64 holds).
\<close>

locale payload_codec =
  fixes enc :: "'a \<Rightarrow> json"
    and dec :: "'a decoder"
    and zero :: 'a
    and ok :: "'a \<Rightarrow> bool"
  assumes enc_not_null: "any_json (enc x) \<noteq> JNull"
    and two_hops: "ok x \<Longrightarrow> dec (any_json (enc x)) zero = Inr x"
begin

lemma ptr_two_hops: "ok x \<Longrightarrow> dec_ptr dec zero (any_json (enc x)) None = Inr (Some x)"
  using two_hops [of x] enc_not_null [of x] by (cases "any_json (enc x)") simp_all

lemma enc_inject: "ok x \<Longrightarrow> ok y \<Longrightarrow> enc x = enc y \<Longrightarrow> x = y"
  by (metis two_hops sum.inject(2))

end

end
