(* ===== verification/GoErrors.thy ===== *)
theory GoErrors
  imports GoJson
begin

section \<open>Error values and interface values\<close>

text \<open>
  The error values the program makes or tests for, with the wrapping tree that
  \<open>errors.Is\<close> and \<open>errors.As\<close> walk, their texts, and the values an \<open>any\<close> may hold.
  \<open>proto.ResponseError\<close> (proto/error.go) is one of the errors, so it is declared here;
  its operations are in \<open>Proto\<close>.
\<close>

text \<open>
  Sentinels are constructors of their own (Go compares them by address). \<open>Errorf\<close> is
  \<open>fmt.Errorf\<close> or \<open>errors.New\<close> without a wrapped error, \<open>Wrapf\<close> is \<open>"text: %w"\<close> and
  \<open>Wrap2\<close> is \<open>"%w: %w"\<close>. \<open>ErrQuote\<close> is a text that quotes raw bytes.
\<close>

datatype goerr =
    Errorf string
  | Wrapf string goerr
  | Wrap2 goerr goerr
  | ErrQuote string wire "goerr option"
  | ParseError wire goerr
  | ResponseErr ResponseError
  | JsonErr json_error
  | ErrRequestTimeout
  | ErrRequestFailed
  | ErrRequestValidationFailed
  | IoEOF
  | IoErrClosedPipe
  | NetErrClosed
  | WsErrCloseSent
  | WsCloseError int string
  | CtxCanceled
  | CtxDeadlineExceeded
and ResponseError = ResponseError
    (Code: i64) (Message: string) (Data: json) (cause: "goerr option")

text \<open>\<open>Error()\<close>. The texts of library errors that are only logged are kept short.\<close>

fun json_error_text :: "json_error \<Rightarrow> string" where
  "json_error_text SyntaxError = ''invalid character''"
| "json_error_text (UnmarshalTypeError t) = ''json: cannot unmarshal into Go value of type '' @ t"
| "json_error_text (UnsupportedValue t) = ''json: unsupported value: '' @ t"

fun err_text :: "goerr \<Rightarrow> string" where
  "err_text (Errorf s) = s"
| "err_text (Wrapf s e) = s @ '': '' @ err_text e"
| "err_text (Wrap2 a b) = err_text a @ '': '' @ err_text b"
| "err_text (ErrQuote s w None) = s"
| "err_text (ErrQuote s w (Some e)) = s @ '': '' @ err_text e"
| "err_text (ParseError w e) = ''failed to parse message: '' @ err_text e"
| "err_text (ResponseErr re) = show_int (sint (Code re)) @ '': '' @ Message re"
| "err_text (JsonErr e) = json_error_text e"
| "err_text ErrRequestTimeout = ''request: timeout''"
| "err_text ErrRequestFailed = ''request: failed''"
| "err_text ErrRequestValidationFailed = ''request: client validation failed''"
| "err_text IoEOF = ''EOF''"
| "err_text IoErrClosedPipe = ''io: read/write on closed pipe''"
| "err_text NetErrClosed = ''use of closed network connection''"
| "err_text WsErrCloseSent = ''websocket: close sent''"
| "err_text (WsCloseError c t) = ''websocket: close '' @ show_int c @ '' '' @ t"
| "err_text CtxCanceled = ''context canceled''"
| "err_text CtxDeadlineExceeded = ''context deadline exceeded''"

text \<open>\<open>Unwrap\<close>: the errors directly below an error.\<close>

fun unwrap :: "goerr \<Rightarrow> goerr list" where
  "unwrap (Wrapf s e) = [e]"
| "unwrap (Wrap2 a b) = [a, b]"
| "unwrap (ErrQuote s w (Some e)) = [e]"
| "unwrap (ParseError w e) = [e]"
| "unwrap (ResponseErr (ResponseError c m d (Some e))) = [e]"
| "unwrap _ = []"

lemma unwrap_size: "e' \<in> set (unwrap e) \<Longrightarrow> size e' < size e"
  by (induction e rule: unwrap.induct) auto

text \<open>\<open>errors.Is\<close> and \<open>errors.As\<close>: a depth-first walk, the error itself first.\<close>

function errors_Is :: "goerr \<Rightarrow> goerr \<Rightarrow> bool" where
  "errors_Is e target = (e = target \<or> list_ex (\<lambda>e'. errors_Is e' target) (unwrap e))"
  by pat_completeness auto
termination
  by (relation "measure (\<lambda>(e, _). size e)") (auto intro: unwrap_size)

declare errors_Is.simps [simp del]

fun first_Some :: "('a \<Rightarrow> 'b option) \<Rightarrow> 'a list \<Rightarrow> 'b option" where
  "first_Some f [] = None"
| "first_Some f (x # xs) = (case f x of Some y \<Rightarrow> Some y | None \<Rightarrow> first_Some f xs)"

lemma first_Some_cong [fundef_cong]:
  "xs = ys \<Longrightarrow> (\<And>x. x \<in> set ys \<Longrightarrow> f x = g x) \<Longrightarrow> first_Some f xs = first_Some g ys"
  by (induction xs arbitrary: ys) (auto split: option.split)

function errors_As :: "(goerr \<Rightarrow> 'a option) \<Rightarrow> goerr \<Rightarrow> 'a option" where
  "errors_As p e = (case p e of Some x \<Rightarrow> Some x | None \<Rightarrow> first_Some (errors_As p) (unwrap e))"
  by pat_completeness auto
termination
  by (relation "measure (\<lambda>(_, e). size e)") (auto intro: unwrap_size)

declare errors_As.simps [simp del]

fun as_ResponseError :: "goerr \<Rightarrow> ResponseError option" where
  "as_ResponseError (ResponseErr re) = Some re"
| "as_ResponseError _ = None"

fun as_ParseError :: "goerr \<Rightarrow> (wire \<times> goerr) option" where
  "as_ParseError (ParseError w e) = Some (w, e)"
| "as_ParseError _ = None"

fun as_CloseError :: "goerr \<Rightarrow> (int \<times> string) option" where
  "as_CloseError (WsCloseError c t) = Some (c, t)"
| "as_CloseError _ = None"

lemma errors_Is_refl [simp]: "errors_Is e e"
  by (subst errors_Is.simps) simp

lemma errors_Is_Wrapf [simp]:
  "errors_Is (Wrapf s e) t \<longleftrightarrow> Wrapf s e = t \<or> errors_Is e t"
  by (subst errors_Is.simps) simp

lemma errors_Is_Wrap2 [simp]:
  "errors_Is (Wrap2 a b) t \<longleftrightarrow> Wrap2 a b = t \<or> errors_Is a t \<or> errors_Is b t"
  by (subst errors_Is.simps) simp

lemma errors_Is_leaf [simp]:
  "unwrap e = [] \<Longrightarrow> errors_Is e t \<longleftrightarrow> e = t"
  by (subst errors_Is.simps) simp

lemma errors_As_ResponseErr [simp]:
  "errors_As as_ResponseError (ResponseErr re) = Some re"
  by (subst errors_As.simps) simp

lemma errors_As_Wrapf [simp]:
  "errors_As as_ResponseError (Wrapf s e) = errors_As as_ResponseError e"
  by (subst errors_As.simps) (simp split: option.split)

subsection \<open>Interface values\<close>

text \<open>
  An \<open>any\<close> holds nil, a value decoded from JSON, or a Go value of some payload type. Of
  the last kind the library observes two things: what \<open>json.Marshal\<close> makes of it and,
  when its type has a \<open>Validate\<close> method, what that returns (or that it panics).
\<close>

datatype verdict = NoValidate | Valid | Invalid goerr | ValidatePanics

datatype any = ANil | ADyn json | AVal "json_error + json" verdict

fun marshal_any :: "any \<Rightarrow> json_error + json" where
  "marshal_any ANil = Inr JNull"
| "marshal_any (ADyn j) = Inr j"
| "marshal_any (AVal r v) = r"

text \<open>The interface value \<open>json.Unmarshal\<close> stores for a document in normal form.\<close>

definition any_of_raw :: "json \<Rightarrow> any" where
  "any_of_raw j = (if j = JNull then ANil else ADyn j)"

text \<open>The check \<open>if v, ok := x.(validatable); ok { ... v.Validate() }\<close> on a non-nil value.\<close>

fun validate_any :: "any \<Rightarrow> goerr option go" where
  "validate_any (AVal r (Invalid e)) = Ret (Some e)"
| "validate_any (AVal r ValidatePanics) = nil_deref"
| "validate_any _ = Ret None"

lemma any_json_eq_JNull [simp]: "any_json j = JNull \<longleftrightarrow> j = JNull"
  by (cases j) auto

lemma marshal_any_of_raw [simp]: "marshal_any (any_of_raw j) = Inr j"
  by (simp add: any_of_raw_def)

lemma validate_any_of_raw [simp]: "validate_any (any_of_raw j) = Ret None"
  by (simp add: any_of_raw_def)

lemma any_of_raw_eq_ANil [simp]: "any_of_raw j = ANil \<longleftrightarrow> j = JNull"
  by (simp add: any_of_raw_def)

lemma any_of_raw_JNull [simp]: "any_of_raw JNull = ANil"
  by (simp add: any_of_raw_def)

text \<open>The value of a pointer to a struct with the given encoding and \<open>Validate\<close> result.\<close>

definition any_struct :: "json \<Rightarrow> verdict \<Rightarrow> any" where
  "any_struct j v = AVal (Inr j) v"

definition verdict_of :: "goerr option \<Rightarrow> verdict" where
  "verdict_of r = (case r of None \<Rightarrow> Valid | Some e \<Rightarrow> Invalid e)"

lemma validate_any_struct [simp]:
  "validate_any (any_struct j (verdict_of r)) = Ret r"
  "validate_any (any_struct j NoValidate) = Ret None"
  by (cases r) (simp_all add: any_struct_def verdict_of_def)

lemma marshal_any_struct [simp]: "marshal_any (any_struct j v) = Inr j"
  by (simp add: any_struct_def)

lemma any_struct_not_nil [simp]: "any_struct j v \<noteq> ANil" "ANil \<noteq> any_struct j v"
  by (simp_all add: any_struct_def)

end
