(* ===== verification/Proto.thy ===== *)
theory Proto
  imports GoErrors
begin

section \<open>Messages of the protocol (package proto)\<close>

text \<open>
  proto/message.go, request.go, response.go, event.go, error.go: the three message kinds
  over an embedded base, their validation, constructors, JSON form, and the parser that
  tells the kinds apart. An embedded struct is a record extension. Message IDs come from
  a third-party generator, so constructors take the ID as an argument.
\<close>

subsection \<open>Errors (error.go)\<close>

abbreviation ErrUnspecified :: i64 where "ErrUnspecified \<equiv> 0"
abbreviation ErrUnknown :: i64 where "ErrUnknown \<equiv> - 1"
abbreviation ErrStatusBadRequest :: i64 where "ErrStatusBadRequest \<equiv> 400"
abbreviation ErrInternalServerError :: i64 where "ErrInternalServerError \<equiv> 500"
abbreviation ErrNotImplemented :: i64 where "ErrNotImplemented \<equiv> 501"

definition ResponseError_Validate :: "ResponseError \<Rightarrow> goerr option" where
  "ResponseError_Validate e =
     (if Code e = ErrUnspecified then Some (Errorf ''error code is required'')
      else if Message e = [] then Some (Errorf ''error message is required'')
      else None)"

definition NewError :: "i64 \<Rightarrow> goerr \<Rightarrow> ResponseError" where
  "NewError code c = ResponseError code (err_text c) JNull (Some c)"

definition NotImplemented :: "string \<Rightarrow> ResponseError" where
  "NotImplemented msg = NewError ErrNotImplemented (Errorf msg)"

definition BadRequest :: "goerr \<Rightarrow> ResponseError" where
  "BadRequest c = NewError ErrStatusBadRequest c"

definition ToResponseError :: "goerr \<Rightarrow> ResponseError" where
  "ToResponseError err =
     (case errors_As as_ResponseError err of
        Some re \<Rightarrow> re
      | None \<Rightarrow> NewError ErrInternalServerError err)"

subsection \<open>The message base and the three kinds\<close>

definition Version :: string where
  "Version = ''1''"

record messageBase =
  base_Version :: string
  receivedAt :: i64

record Request = messageBase +
  req_ID :: string
  Method :: string
  Params :: any

record Event = messageBase +
  evt_ID :: string
  EventName :: string
  evt_Data :: any

record Response = messageBase +
  Response_ID :: string
  Result :: any
  Error :: "ResponseError option"

datatype message = MEvent Event | MRequest Request | MResponse Response

definition validateBase :: "'a messageBase_scheme \<Rightarrow> goerr option" where
  "validateBase r =
     (if base_Version r = [] then Some (Errorf ''version is required'')
      else if base_Version r \<noteq> Version
      then Some (Errorf (''unsupported version: '' @ base_Version r @ '' - only '' @ Version
                         @ '' is allowed''))
      else None)"

definition newBase :: "string \<Rightarrow> messageBase" where
  "newBase v = \<lparr>base_Version = v, receivedAt = 0\<rparr>"

definition wrap_verdict :: "string \<Rightarrow> any \<Rightarrow> goerr option go" where
  "wrap_verdict pfx x = bind_go (validate_any x) (\<lambda>v. Ret (map_option (Wrapf pfx) v))"

definition Request_Validate :: "Request \<Rightarrow> goerr option go" where
  "Request_Validate r =
     (case validateBase r of Some e \<Rightarrow> Ret (Some e)
      | None \<Rightarrow>
          if req_ID r = [] then Ret (Some (Errorf ''request ID is required''))
          else if Method r = [] then Ret (Some (Errorf ''request method is required''))
          else wrap_verdict ''request.params invalid'' (Params r))"

definition Event_Validate :: "Event \<Rightarrow> goerr option go" where
  "Event_Validate e =
     (case validateBase e of Some err \<Rightarrow> Ret (Some err)
      | None \<Rightarrow>
          if evt_ID e = [] then Ret (Some (Errorf ''event ID is required''))
          else if EventName e = [] then Ret (Some (Errorf ''event name is required''))
          else wrap_verdict ''event data is invalid'' (evt_Data e))"

definition Response_Validate :: "Response \<Rightarrow> goerr option go" where
  "Response_Validate r =
     (case validateBase r of Some e \<Rightarrow> Ret (Some e)
      | None \<Rightarrow>
          if Response_ID r = []
          then Ret (Some (Errorf ''response is required and needs to carry the ID of the request''))
          else (case (case Error r of None \<Rightarrow> None | Some re \<Rightarrow> ResponseError_Validate re) of
                  Some err \<Rightarrow> Ret (Some (Wrapf ''error is invalid'' err))
                | None \<Rightarrow> wrap_verdict ''result is invalid'' (Result r)))"

fun GetType :: "message \<Rightarrow> string" where
  "GetType (MEvent e) = ''event''"
| "GetType (MRequest r) = ''request''"
| "GetType (MResponse r) = ''response''"

fun Validate :: "message \<Rightarrow> goerr option go" where
  "Validate (MEvent e) = Event_Validate e"
| "Validate (MRequest r) = Request_Validate r"
| "Validate (MResponse r) = Response_Validate r"

fun SetReceivedAt :: "i64 \<Rightarrow> message \<Rightarrow> message" where
  "SetReceivedAt t (MEvent e) = MEvent (e\<lparr>receivedAt := t\<rparr>)"
| "SetReceivedAt t (MRequest r) = MRequest (r\<lparr>receivedAt := t\<rparr>)"
| "SetReceivedAt t (MResponse r) = MResponse (r\<lparr>receivedAt := t\<rparr>)"

fun GetReceivedAt :: "message \<Rightarrow> i64" where
  "GetReceivedAt (MEvent e) = receivedAt e"
| "GetReceivedAt (MRequest r) = receivedAt r"
| "GetReceivedAt (MResponse r) = receivedAt r"

subsection \<open>Constructors\<close>

definition newEventWithVersionAndID :: "string \<Rightarrow> string \<Rightarrow> string \<Rightarrow> any \<Rightarrow> Event" where
  "newEventWithVersionAndID v i n d =
     messageBase.extend (newBase v) (Event.fields i n d)"

definition NewEvent :: "string \<Rightarrow> string \<Rightarrow> any \<Rightarrow> Event" where
  "NewEvent fresh_id n d = newEventWithVersionAndID Version fresh_id n d"

definition newRequestWithIdAndVersion :: "string \<Rightarrow> string \<Rightarrow> string \<Rightarrow> any \<Rightarrow> Request" where
  "newRequestWithIdAndVersion v i m p =
     messageBase.extend (newBase v) (Request.fields i m p)"

definition NewRequest :: "string \<Rightarrow> string \<Rightarrow> any \<Rightarrow> Request" where
  "NewRequest fresh_id m p = newRequestWithIdAndVersion Version fresh_id m p"

definition newResponseWithVersion ::
    "string \<Rightarrow> string \<Rightarrow> any \<Rightarrow> ResponseError option \<Rightarrow> Response" where
  "newResponseWithVersion v i res err =
     messageBase.extend (newBase v) (Response.fields i res err)"

definition newResponse :: "Request \<Rightarrow> any \<Rightarrow> ResponseError option \<Rightarrow> Response" where
  "newResponse r res err = newResponseWithVersion (base_Version r) (req_ID r) res err"

definition Ok :: "Request \<Rightarrow> any \<Rightarrow> Response" where
  "Ok r res = newResponse r res None"

definition NotOk :: "Request \<Rightarrow> ResponseError \<Rightarrow> Response" where
  "NotOk r err = newResponse r ANil (Some err)"

definition Response_Ok :: "Response \<Rightarrow> bool" where
  "Response_Ok r \<longleftrightarrow> Error r = None"

lemmas constructor_defs =
  newEventWithVersionAndID_def NewEvent_def newRequestWithIdAndVersion_def NewRequest_def
  newResponseWithVersion_def newResponse_def Ok_def NotOk_def newBase_def
  messageBase.defs Event.defs Request.defs Response.defs

subsection \<open>JSON form\<close>

definition marshal_ResponseError :: "ResponseError \<Rightarrow> json" where
  "marshal_ResponseError e =
     JObj ([(''code'', JInt (sint (Code e))), (''message'', JStr (Message e))] @
           (if Data e = JNull then [] else [(''any'', Data e)]))"

text \<open>A field of type \<open>any\<close> with \<open>omitempty\<close>: left out when the interface is nil.\<close>

definition any_field :: "string \<Rightarrow> any \<Rightarrow> json_error + (string \<times> json) list" where
  "any_field k x = (if x = ANil then Inr [] else map_sum id (\<lambda>j. [(k, j)]) (marshal_any x))"

definition marshal_Request :: "Request \<Rightarrow> json_error + json" where
  "marshal_Request r = map_sum id
     (\<lambda>p. JObj ([(''version'', JStr (base_Version r)), (''id'', JStr (req_ID r)),
                 (''method'', JStr (Method r))] @ p))
     (any_field ''params'' (Params r))"

definition marshal_Event :: "Event \<Rightarrow> json_error + json" where
  "marshal_Event e = map_sum id
     (\<lambda>d. JObj ([(''version'', JStr (base_Version e)), (''id'', JStr (evt_ID e)),
                 (''event'', JStr (EventName e))] @ d))
     (any_field ''data'' (evt_Data e))"

definition marshal_Response :: "Response \<Rightarrow> json_error + json" where
  "marshal_Response r = map_sum id
     (\<lambda>d. JObj ([(''version'', JStr (base_Version r)), (''response'', JStr (Response_ID r))] @ d @
                (case Error r of None \<Rightarrow> [] | Some e \<Rightarrow> [(''error'', marshal_ResponseError e)])))
     (any_field ''result'' (Result r))"

fun marshal_message :: "message \<Rightarrow> json_error + json" where
  "marshal_message (MEvent e) = marshal_Event e"
| "marshal_message (MRequest r) = marshal_Request r"
| "marshal_message (MResponse r) = marshal_Response r"

subsection \<open>Parsing (message.go)\<close>

record rawMessage =
  raw_Version :: string
  raw_ID :: string
  raw_Method :: string
  raw_Response :: string
  raw_Event :: string
  raw_Data :: json
  raw_Params :: json
  raw_Result :: json
  raw_Error :: "ResponseError option"

definition zero_rawMessage :: rawMessage where
  "zero_rawMessage = \<lparr>raw_Version = [], raw_ID = [], raw_Method = [], raw_Response = [],
     raw_Event = [], raw_Data = JNull, raw_Params = JNull, raw_Result = JNull, raw_Error = None\<rparr>"

definition dec_ErrorCode :: "i64 decoder" where
  "dec_ErrorCode v old = map_sum (\<lambda>_. UnmarshalTypeError ''proto.ErrorCode'') id (dec_i64 v old)"

definition set_ResponseError :: "string \<Rightarrow> ResponseError decoder" where
  "set_ResponseError k v e =
     (if key_match ''code'' k
      then map_sum id (\<lambda>c. ResponseError c (Message e) (Data e) (cause e)) (dec_ErrorCode v (Code e))
      else if key_match ''message'' k
      then map_sum id (\<lambda>m. ResponseError (Code e) m (Data e) (cause e)) (dec_string v (Message e))
      else if key_match ''any'' k
      then map_sum id (\<lambda>d. ResponseError (Code e) (Message e) d (cause e)) (dec_any v (Data e))
      else Inr e)"

definition zero_ResponseError :: ResponseError where
  "zero_ResponseError = ResponseError 0 [] JNull None"

definition set_rawMessage :: "string \<Rightarrow> rawMessage decoder" where
  "set_rawMessage k v m =
     (if key_match ''version'' k then dec_field dec_string raw_Version raw_Version_update v m
      else if key_match ''id'' k then dec_field dec_string raw_ID raw_ID_update v m
      else if key_match ''method'' k then dec_field dec_string raw_Method raw_Method_update v m
      else if key_match ''response'' k then dec_field dec_string raw_Response raw_Response_update v m
      else if key_match ''event'' k then dec_field dec_string raw_Event raw_Event_update v m
      else if key_match ''data'' k then dec_field dec_any raw_Data raw_Data_update v m
      else if key_match ''params'' k then dec_field dec_any raw_Params raw_Params_update v m
      else if key_match ''result'' k then dec_field dec_any raw_Result raw_Result_update v m
      else if key_match ''error'' k
      then dec_field (dec_ptr (dec_struct set_ResponseError) zero_ResponseError)
             raw_Error raw_Error_update v m
      else Inr m)"

definition parseMessage :: "wire \<Rightarrow> goerr + message" where
  "parseMessage raw =
     (case bind_res (json_of_wire raw) (\<lambda>j. dec_struct set_rawMessage j zero_rawMessage) of
        Inl e \<Rightarrow> Inl (JsonErr e)
      | Inr msg \<Rightarrow>
          if raw_Event msg \<noteq> []
          then Inr (MEvent (newEventWithVersionAndID (raw_Version msg) (raw_ID msg)
                      (raw_Event msg) (any_of_raw (raw_Data msg))))
          else if raw_Method msg \<noteq> []
          then Inr (MRequest (newRequestWithIdAndVersion (raw_Version msg) (raw_ID msg)
                      (raw_Method msg) (any_of_raw (raw_Params msg))))
          else if raw_Response msg \<noteq> []
          then Inr (MResponse (newResponseWithVersion (raw_Version msg) (raw_Response msg)
                      (any_of_raw (raw_Result msg)) (raw_Error msg)))
          else Inl (ParseError raw (ErrQuote ''message is invalid'' raw None)))"

definition ParseValidMessage :: "wire \<Rightarrow> (goerr + message) go" where
  "ParseValidMessage raw =
     (case parseMessage raw of
        Inl e \<Rightarrow> Ret (Inl e)
      | Inr m \<Rightarrow> bind_go (Validate m) (\<lambda>v. Ret
          (case v of
             Some err \<Rightarrow> Inl (ErrQuote (''failed to validate `'' @ GetType m @ ''` message'') raw (Some err))
           | None \<Rightarrow> Inr m)))"

text \<open>\<open>As[R]\<close> of response.go: marshal the value, decode it into a fresh \<open>R\<close>.\<close>

definition As :: "'a decoder \<Rightarrow> 'a \<Rightarrow> any \<Rightarrow> goerr + 'a" where
  "As dec zero v = map_sum JsonErr id (bind_res (marshal_any v) (\<lambda>j. dec j zero))"


subsection \<open>What the receiver gets\<close>

text \<open>
  The message that arrives for a message sent: the same kind, version, ID, method or
  event name, with each \<open>any\<close> replaced by the document it marshals to, the receive time
  unset and an error's local cause dropped.
\<close>

definition received_any :: "any \<Rightarrow> any" where
  "received_any x = (case marshal_any x of Inl e \<Rightarrow> ANil | Inr j \<Rightarrow> any_of_raw (any_json j))"

definition received_error :: "ResponseError \<Rightarrow> ResponseError" where
  "received_error e = ResponseError (Code e) (Message e) (any_json (Data e)) None"

fun received :: "message \<Rightarrow> message" where
  "received (MEvent e) = MEvent (e\<lparr>receivedAt := 0, evt_Data := received_any (evt_Data e)\<rparr>)"
| "received (MRequest r) = MRequest (r\<lparr>receivedAt := 0, Params := received_any (Params r)\<rparr>)"
| "received (MResponse r) = MResponse (r\<lparr>receivedAt := 0, Result := received_any (Result r),
     Error := map_option received_error (Error r)\<rparr>)"

lemma validate_any_received [simp]: "validate_any (received_any x) = Ret None"
  by (simp add: received_any_def split: sum.split)

lemma wrap_verdict_received [simp]: "wrap_verdict p (received_any x) = Ret None"
  by (simp add: wrap_verdict_def)

lemma any_field_Inr:
  "any_field k x = Inr fs \<Longrightarrow>
     (x = ANil \<and> fs = [] \<and> received_any x = ANil) \<or>
     (\<exists>j. fs = [(k, j)] \<and> received_any x = any_of_raw (any_json j))"
  by (cases x) (auto simp: any_field_def received_any_def split: sum.splits)

lemma decode_error_struct:
  "dec_struct set_ResponseError (marshal_ResponseError e) zero_ResponseError
     = Inr (received_error e)"
  by (simp add: marshal_ResponseError_def set_ResponseError_def zero_ResponseError_def
      received_error_def key_match_def dec_any_def dec_ErrorCode_def)

lemma decode_error:
  "dec_ptr (dec_struct set_ResponseError) zero_ResponseError (marshal_ResponseError e) None
     = Inr (Some (received_error e))"
  using decode_error_struct [of e] by (simp add: marshal_ResponseError_def)

lemmas decode_raw_simps =
  zero_rawMessage_def set_rawMessage_def key_match_def dec_field_def dec_any_def

lemma parse_request:
  assumes "marshal_Request r = Inr j" and "Method r \<noteq> []"
  shows "parseMessage (wire_of_json j) = Inr (received (MRequest r))"
proof -
  from assms(1) obtain fs where fs: "any_field ''params'' (Params r) = Inr fs"
    and j: "j = JObj ([(''version'', JStr (base_Version r)), (''id'', JStr (req_ID r)),
                 (''method'', JStr (Method r))] @ fs)"
    by (auto simp: marshal_Request_def)
  from any_field_Inr [OF fs] show ?thesis
    using assms(2) by (elim disjE conjE exE; cases r)
       (simp_all add: j parseMessage_def decode_raw_simps constructor_defs)
qed

lemma parse_event:
  assumes "marshal_Event e = Inr j" and "EventName e \<noteq> []"
  shows "parseMessage (wire_of_json j) = Inr (received (MEvent e))"
proof -
  from assms(1) obtain fs where fs: "any_field ''data'' (evt_Data e) = Inr fs"
    and j: "j = JObj ([(''version'', JStr (base_Version e)), (''id'', JStr (evt_ID e)),
                 (''event'', JStr (EventName e))] @ fs)"
    by (auto simp: marshal_Event_def)
  from any_field_Inr [OF fs] show ?thesis
    using assms(2) by (elim disjE conjE exE; cases e)
       (simp_all add: j parseMessage_def decode_raw_simps constructor_defs)
qed

lemma parse_response:
  assumes "marshal_Response r = Inr j" and "Response_ID r \<noteq> []"
  shows "parseMessage (wire_of_json j) = Inr (received (MResponse r))"
proof -
  define es where "es = (case Error r of None \<Rightarrow> [] | Some e \<Rightarrow> [(''error'', marshal_ResponseError e)])"
  from assms(1) obtain fs where fs: "any_field ''result'' (Result r) = Inr fs"
    and j: "j = JObj ([(''version'', JStr (base_Version r)), (''response'', JStr (Response_ID r))]
                 @ fs @ es)"
    by (auto simp: marshal_Response_def es_def)
  show ?thesis
  proof (cases "Error r")
    case None
    with any_field_Inr [OF fs] show ?thesis
      using assms(2) by (elim disjE conjE exE; cases r)
         (simp_all add: j es_def parseMessage_def decode_raw_simps constructor_defs)
  next
    case (Some e)
    have "dec_ptr (dec_struct set_ResponseError) zero_ResponseError
        (marshal_ResponseError e) None = Inr (Some (received_error e))"
      by (simp add: decode_error)
    with Some any_field_Inr [OF fs] show ?thesis
      using assms(2) by (elim disjE conjE exE; cases r)
         (simp_all add: j es_def parseMessage_def decode_raw_simps constructor_defs)
  qed
qed

lemma message_Validate_parts:
  "Validate (MRequest r) = Ret None \<Longrightarrow>
     base_Version r = Version \<and> req_ID r \<noteq> [] \<and> Method r \<noteq> [] \<and> validate_any (Params r) = Ret None"
  "Validate (MEvent e) = Ret None \<Longrightarrow>
     base_Version e = Version \<and> evt_ID e \<noteq> [] \<and> EventName e \<noteq> [] \<and> validate_any (evt_Data e) = Ret None"
  "Validate (MResponse p) = Ret None \<Longrightarrow>
     base_Version p = Version \<and> Response_ID p \<noteq> [] \<and> validate_any (Result p) = Ret None \<and>
     (\<forall>re. Error p = Some re \<longrightarrow> Code re \<noteq> 0 \<and> Message re \<noteq> [])"
  by (auto simp: Request_Validate_def Event_Validate_def Response_Validate_def validateBase_def
      wrap_verdict_def ResponseError_Validate_def bind_go_eq_Ret split: if_splits option.splits)

lemma Version_nonempty [simp]: "Version \<noteq> []"
  by (simp add: Version_def)

lemma received_valid:
  assumes "Validate m = Ret None"
  shows "Validate (received m) = Ret None"
proof (cases m)
  case (MEvent e)
  have "base_Version e = Version \<and> evt_ID e \<noteq> [] \<and> EventName e \<noteq> []"
    using message_Validate_parts(2) [of e] assms MEvent by blast
  then show ?thesis
    by (simp add: MEvent Event_Validate_def validateBase_def)
next
  case (MRequest r)
  have "base_Version r = Version \<and> req_ID r \<noteq> [] \<and> Method r \<noteq> []"
    using message_Validate_parts(1) [of r] assms MRequest by blast
  then show ?thesis
    by (simp add: MRequest Request_Validate_def validateBase_def)
next
  case (MResponse p)
  have "base_Version p = Version \<and> Response_ID p \<noteq> [] \<and>
      (\<forall>re. Error p = Some re \<longrightarrow> Code re \<noteq> 0 \<and> Message re \<noteq> [])"
    using message_Validate_parts(3) [of p] assms MResponse by blast
  then show ?thesis
    by (cases "Error p") (simp_all add: MResponse Response_Validate_def validateBase_def
        received_error_def ResponseError_Validate_def)
qed

lemma sent_parses:
  assumes "Validate m = Ret None" and "marshal_message m = Inr j"
  shows "parseMessage (wire_of_json j) = Inr (received m)"
proof (cases m)
  case (MEvent e)
  with assms show ?thesis
    using parse_event [of e j] message_Validate_parts(2) [of e] by simp
next
  case (MRequest r)
  with assms show ?thesis
    using parse_request [of r j] message_Validate_parts(1) [of r] by simp
next
  case (MResponse p)
  with assms show ?thesis
    using parse_response [of p j] message_Validate_parts(3) [of p] by simp
qed

lemma ParseValidMessage_valid:
  "parseMessage w = Inr m \<Longrightarrow> Validate m = Ret None \<Longrightarrow> ParseValidMessage w = Ret (Inr m)"
  by (simp add: ParseValidMessage_def)

lemma sent_message_parses:
  "Validate m = Ret None \<Longrightarrow> marshal_message m = Inr j \<Longrightarrow>
   ParseValidMessage (wire_of_json j) = Ret (Inr (received m))"
  by (rule ParseValidMessage_valid [OF sent_parses received_valid])

text \<open>
  C1. Wire round trip: every message that passes the sender's validation and marshals is
  accepted by the receiver's \<open>ParseValidMessage\<close> as a message of the same kind with the
  same version, ID and name, its \<open>any\<close> payload the document that was sent.
\<close>

theorem message_roundtrip:
  assumes "Validate m = Ret None" and "marshal_message m = Inr j"
  shows "ParseValidMessage (wire_of_json j) = Ret (Inr (received m))"
  using assms by (rule sent_message_parses)

lemma message_roundtrip_witness:
  "ParseValidMessage (wire_of_json (JObj [(''version'', JStr ''1''), (''id'', JStr ''a''),
      (''method'', JStr ''ping''), (''params'', JObj [(''t0'', JInt 5)])]))
   = Ret (Inr (MRequest (NewRequest ''a'' ''ping'' (ADyn (JObj [(''t0'', JInt 5)])))))"
  using message_roundtrip [of "MRequest (NewRequest ''a'' ''ping'' (ADyn (JObj [(''t0'', JInt 5)])))"
      "JObj [(''version'', JStr ''1''), (''id'', JStr ''a''),
        (''method'', JStr ''ping''), (''params'', JObj [(''t0'', JInt 5)])]"]
  by (simp add: constructor_defs Version_def Request_Validate_def validateBase_def
      wrap_verdict_def marshal_Request_def any_field_def received_any_def f64_text_exact
      any_of_raw_def)

lemma wrap_verdict_raw [simp]: "wrap_verdict p (any_of_raw j) = Ret None"
  by (simp add: wrap_verdict_def)

lemma parsed_Validate_returns:
  assumes "parseMessage w = Inr m"
  obtains v where "Validate m = Ret v"
proof -
  have "\<exists>v. Validate m = Ret v"
    using assms
    by (auto simp: parseMessage_def constructor_defs Request_Validate_def Event_Validate_def
        Response_Validate_def split: sum.splits if_splits option.splits)
  then show ?thesis using that by blast
qed

text \<open>
  C2. Parsing is total and safe: on any bytes \<open>ParseValidMessage\<close> returns without a
  panic, and a message it returns passes \<open>Validate\<close> (supported version, non-empty ID and
  name, code and text in any error it carries) and has no receive time yet.
\<close>

theorem parse_total_and_valid:
  "\<exists>r. ParseValidMessage w = Ret r \<and>
     (case r of Inl e \<Rightarrow> True | Inr m \<Rightarrow> Validate m = Ret None \<and> GetReceivedAt m = 0)"
proof (cases "parseMessage w")
  case (Inl e)
  then show ?thesis by (simp add: ParseValidMessage_def)
next
  case (Inr m)
  have time: "GetReceivedAt m = 0"
    using Inr by (auto simp: parseMessage_def constructor_defs split: sum.splits if_splits)
  obtain v where "Validate m = Ret v" using Inr by (rule parsed_Validate_returns)
  with Inr time show ?thesis by (cases v) (simp_all add: ParseValidMessage_def)
qed

subsection \<open>Responses made from requests\<close>

lemma NotOk_simps [simp]:
  "base_Version (NotOk r e) = base_Version r" "Response_ID (NotOk r e) = req_ID r"
  "Error (NotOk r e) = Some e" "Result (NotOk r e) = ANil"
  by (simp_all add: constructor_defs)

lemma Ok_simps [simp]:
  "base_Version (Ok r x) = base_Version r" "Response_ID (Ok r x) = req_ID r"
  "Error (Ok r x) = None" "Result (Ok r x) = x"
  by (simp_all add: constructor_defs)

lemma validateBase_NotOk [simp]: "validateBase (NotOk r e) = validateBase r"
  by (simp add: validateBase_def)

lemma validateBase_Ok [simp]: "validateBase (Ok r x) = validateBase r"
  by (simp add: validateBase_def)

lemma Request_Validate_base:
  "Request_Validate r = Ret None \<Longrightarrow> validateBase r = None \<and> req_ID r \<noteq> []"
  by (auto simp: Request_Validate_def split: option.splits if_splits)

lemma ToResponseError_cases:
  "ToResponseError err =
     (case errors_As as_ResponseError err of Some re \<Rightarrow> re
      | None \<Rightarrow> ResponseError 500 (err_text err) JNull (Some err))"
  by (simp add: ToResponseError_def NewError_def split: option.split)

lemma NotOk_valid_iff:
  assumes "Request_Validate r = Ret None"
  shows "Response_Validate (NotOk r e) = Ret None \<longleftrightarrow> Code e \<noteq> 0 \<and> Message e \<noteq> []"
  using Request_Validate_base [OF assms]
  by (simp add: Response_Validate_def ResponseError_Validate_def wrap_verdict_def)

text \<open>
  When the error response of a failed request is valid, so that it can be sent: for a
  valid request exactly when the \<open>ResponseError\<close> found in the error has a code and a
  text, and, when there is none in the error, exactly when the error's text is not empty.
\<close>

theorem error_response_valid_iff:
  assumes "Request_Validate r = Ret None"
  shows "Response_Validate (NotOk r (ToResponseError err)) = Ret None \<longleftrightarrow>
     (case errors_As as_ResponseError err of
        Some re \<Rightarrow> Code re \<noteq> 0 \<and> Message re \<noteq> []
      | None \<Rightarrow> err_text err \<noteq> [])"
  by (simp add: NotOk_valid_iff [OF assms] ToResponseError_cases split: option.split)

lemma error_response_valid_iff_witness:
  "Response_Validate (NotOk (NewRequest ''a'' ''m'' ANil) (ToResponseError (Errorf ''x''))) = Ret None"
proof -
  have "Request_Validate (NewRequest ''a'' ''m'' ANil) = Ret None"
    by (simp add: constructor_defs Version_def Request_Validate_def validateBase_def wrap_verdict_def)
  from error_response_valid_iff [OF this, of "Errorf ''x''"] show ?thesis
    by (simp add: errors_As.simps)
qed

end
