(* ===== verification/Handlers.thy ===== *)
theory Handlers
  imports Proto
begin

section \<open>Handlers (handler.go, request.go, event.go, request_middleware.go)\<close>

text \<open>
  The handler interfaces as records of functions over a world \<open>'w\<close> (the session and
  whatever the handler's own code keeps), the typed request and event handlers, the
  middleware, the dispatching default handler and the testing context. A call returns
  the new world and, unless it panics or blocks, its result; a nil \<open>error\<close> is \<open>None\<close>. Contexts and
  logging are not modelled; the value the code puts into a context is an argument.
\<close>

datatype SessionState =
    SessionStateInactive
  | SessionStateActive
  | SessionStateClosing
  | SessionStateClosed
  | SessionStateFailed

type_synonym ('a, 'w) io = "'w \<Rightarrow> 'a go \<times> 'w"

definition return_io :: "'a \<Rightarrow> ('a, 'w) io" where
  "return_io x = (\<lambda>w. (Ret x, w))"

definition lift_go :: "'a go \<Rightarrow> ('a, 'w) io" where
  "lift_go g = (\<lambda>w. (g, w))"

definition bind_io :: "('a, 'w) io \<Rightarrow> ('a \<Rightarrow> ('b, 'w) io) \<Rightarrow> ('b, 'w) io" where
  "bind_io m f = (\<lambda>w. case m w of (Ret x, w') \<Rightarrow> f x w' | (Panic p, w') \<Rightarrow> (Panic p, w') | (Block, w') \<Rightarrow> (Block, w'))"

lemma return_io_apply [simp]: "return_io x w = (Ret x, w)"
  by (simp add: return_io_def)

lemma lift_go_apply [simp]: "lift_go g w = (g, w)"
  by (simp add: lift_go_def)

lemma bind_io_apply:
  "bind_io m f w = (case m w of (Ret x, w') \<Rightarrow> f x w' | (Panic p, w') \<Rightarrow> (Panic p, w') | (Block, w') \<Rightarrow> (Block, w'))"
  by (simp add: bind_io_def)

lemma bind_io_Ret [simp]: "m w = (Ret x, w') \<Longrightarrow> bind_io m f w = f x w'"
  by (simp add: bind_io_def)

lemma bind_io_Block [simp]: "m w = (Block, w') \<Longrightarrow> bind_io m f w = (Block, w')"
  by (simp add: bind_io_def)

lemma bind_io_Panic [simp]: "m w = (Panic p, w') \<Longrightarrow> bind_io m f w = (Panic p, w')"
  by (simp add: bind_io_def)

subsection \<open>The session handler context\<close>

text \<open>
  SHC of handler.go. A request or an event is its name and its payload. The audio
  stream is represented by the one operation the library's handlers call on it.
\<close>

record 'w SHC =
  shc_Request :: "string \<Rightarrow> any \<Rightarrow> (goerr + Response, 'w) io"
  shc_Respond :: "Response \<Rightarrow> (goerr option, 'w) io"
  shc_Notify :: "string \<Rightarrow> any \<Rightarrow> (goerr option, 'w) io"
  shc_ClearReadBuffer :: "(goerr + int, 'w) io"
  shc_Close :: "(goerr option, 'w) io option \<Rightarrow> (goerr option, 'w) io"
  shc_State :: "'w \<Rightarrow> SessionState"

subsection \<open>Typed request handlers\<close>

text \<open>
  What the code's type parameter \<open>REQ\<close> (a pointer type) provides: its method name, how
  JSON decodes into it, and its \<open>Validate\<close> and \<open>OnAfterReply\<close> methods if it has them. A
  value of type \<open>REQ\<close> is \<open>None\<close> for the nil pointer, and methods may be called on it.
\<close>

record ('req, 'w) ReqType =
  rt_MethodName :: string
  rt_Unmarshal :: "json \<Rightarrow> json_error + 'req option"
  rt_Validate :: "('req option \<Rightarrow> goerr option go) option"
  rt_OnAfterReply :: "('req option \<Rightarrow> 'w SHC \<Rightarrow> (goerr option, 'w) io) option"

record 'w RequestHandler =
  rh_MethodName :: string
  rh_Handle :: "'w SHC \<Rightarrow> Request \<Rightarrow> (goerr option, 'w) io"

record ('req, 'res, 'w) typedRequestHandler =
  th_type :: "('req, 'w) ReqType"
  th_res :: "'res \<Rightarrow> any"
  th_h :: "Request \<Rightarrow> 'w SHC \<Rightarrow> 'req option \<Rightarrow> (goerr + 'res, 'w) io"

definition validate_params ::
    "('req, 'w) ReqType \<Rightarrow> 'req option \<Rightarrow> goerr option go" where
  "validate_params rt params =
     (case rt_Validate rt of None \<Rightarrow> Ret None | Some v \<Rightarrow> v params)"

definition Handle ::
    "('req, 'res, 'w) typedRequestHandler \<Rightarrow> 'w SHC \<Rightarrow> Request \<Rightarrow> (goerr option, 'w) io" where
  "Handle t h req =
     (case marshal_any (Params req) of
        Inl e \<Rightarrow> return_io (Some (Wrapf ''marshal data'' (JsonErr e)))
      | Inr raw \<Rightarrow>
     (case rt_Unmarshal (th_type t) raw of
        Inl e \<Rightarrow> return_io (Some (Wrapf ''unmarshal into type'' (JsonErr e)))
      | Inr params \<Rightarrow>
     bind_io (lift_go (validate_params (th_type t) params)) (\<lambda>verr.
     (case verr of
        Some e \<Rightarrow> return_io (Some (ResponseErr (BadRequest e)))
      | None \<Rightarrow>
     bind_io (th_h t req h params) (\<lambda>r.
     (case r of
        Inl e \<Rightarrow> return_io (Some e)
      | Inr res \<Rightarrow>
     bind_io (lift_go (validate_any (th_res t res))) (\<lambda>rerr.
     (case rerr of
        Some e \<Rightarrow> return_io (Some (ResponseErr (NewError ErrInternalServerError
                    (Wrapf ''failed to produce valid response'' e))))
      | None \<Rightarrow>
     bind_io (shc_Respond h (Ok req (th_res t res))) (\<lambda>serr.
     (case serr of
        Some e \<Rightarrow> return_io (Some (Wrapf ''failed to respond'' e))
      | None \<Rightarrow>
     (case rt_OnAfterReply (th_type t) of
        Some prh \<Rightarrow> prh params h
      | None \<Rightarrow> return_io None)))))))))))"

definition HandleRequest :: "('req, 'res, 'w) typedRequestHandler \<Rightarrow> 'w RequestHandler" where
  "HandleRequest t = \<lparr>rh_MethodName = rt_MethodName (th_type t), rh_Handle = Handle t\<rparr>"

lemma HandleRequest_name [simp]: "rh_MethodName (HandleRequest t) = rt_MethodName (th_type t)"
  by (simp add: HandleRequest_def)

lemma HandleRequest_Handle [simp]: "rh_Handle (HandleRequest t) = Handle t"
  by (simp add: HandleRequest_def)

definition HandleWithError :: "('req, 'w) ReqType \<Rightarrow> ResponseError \<Rightarrow> 'w RequestHandler" where
  "HandleWithError rt err = HandleRequest
     \<lparr>th_type = rt, th_res = id, th_h = (\<lambda>req h params. return_io (Inl (ResponseErr err)))\<rparr>"

text \<open>The decoding \<open>json.Unmarshal(raw, &params)\<close> into a nil pointer variable.\<close>

definition unmarshal_ptr :: "'a decoder \<Rightarrow> 'a \<Rightarrow> json \<Rightarrow> json_error + 'a option" where
  "unmarshal_ptr dec zero raw = dec_ptr dec zero raw None"

lemma unmarshal_ptr_JNull [simp]: "unmarshal_ptr dec zero JNull = Inr None"
  by (simp add: unmarshal_ptr_def)

subsection \<open>Typed event handlers\<close>

record 'w EventHandler =
  eh_EventName :: string
  eh_Handle :: "'w SHC \<Rightarrow> Event \<Rightarrow> (goerr option, 'w) io"

definition Handle_event ::
    "(json \<Rightarrow> json_error + 'ev option) \<Rightarrow> ('w SHC \<Rightarrow> 'ev option \<Rightarrow> (goerr option, 'w) io)
       \<Rightarrow> 'w SHC \<Rightarrow> Event \<Rightarrow> (goerr option, 'w) io" where
  "Handle_event unm f h evt =
     (case marshal_any (evt_Data evt) of
        Inl e \<Rightarrow> return_io (Some (Wrapf ''marshal data'' (JsonErr e)))
      | Inr raw \<Rightarrow>
     (case unm raw of
        Inl e \<Rightarrow> return_io (Some (Wrapf ''unmarshal into type'' (JsonErr e)))
      | Inr data \<Rightarrow> f h data))"

definition HandleEvent ::
    "string \<Rightarrow> (json \<Rightarrow> json_error + 'ev option) \<Rightarrow>
     ('w SHC \<Rightarrow> 'ev option \<Rightarrow> (goerr option, 'w) io) \<Rightarrow> 'w EventHandler" where
  "HandleEvent n unm f = \<lparr>eh_EventName = n, eh_Handle = Handle_event unm f\<rparr>"

subsection \<open>Middleware\<close>

definition Middleware ::
    "('w SHC \<Rightarrow> Request \<Rightarrow> (goerr option, 'w) io) \<Rightarrow> 'w RequestHandler \<Rightarrow> 'w RequestHandler" where
  "Middleware fn nxt =
     \<lparr>rh_MethodName = rh_MethodName nxt,
      rh_Handle = (\<lambda>h req. bind_io (fn h req) (\<lambda>err.
         case err of Some e \<Rightarrow> return_io (Some e) | None \<Rightarrow> rh_Handle nxt h req))\<rparr>"

lemma Middleware_simps [simp]:
  "rh_MethodName (Middleware fn nxt) = rh_MethodName nxt"
  "rh_Handle (Middleware fn nxt) h req = bind_io (fn h req) (\<lambda>err.
     case err of Some e \<Rightarrow> return_io (Some e) | None \<Rightarrow> rh_Handle nxt h req)"
  by (simp_all add: Middleware_def)

subsection \<open>The default session handler\<close>

record 'w SessionHandler =
  OnBegin :: "'w SHC \<Rightarrow> (goerr option, 'w) io"
  OnRequest :: "'w SHC \<Rightarrow> Request \<Rightarrow> (goerr option, 'w) io"
  OnEvent :: "'w SHC \<Rightarrow> Event \<Rightarrow> (goerr option, 'w) io"

record 'w defaultSessionHandler =
  eventHandlers :: "string \<rightharpoonup> 'w EventHandler"
  requestHandlers :: "string \<rightharpoonup> 'w RequestHandler"
  onBegin :: "('w SHC \<Rightarrow> (goerr option, 'w) io) option"

definition default_OnBegin ::
    "'w defaultSessionHandler \<Rightarrow> 'w SHC \<Rightarrow> (goerr option, 'w) io" where
  "default_OnBegin d hc = (case onBegin d of Some f \<Rightarrow> f hc | None \<Rightarrow> return_io None)"

definition default_OnRequest ::
    "'w defaultSessionHandler \<Rightarrow> 'w SHC \<Rightarrow> Request \<Rightarrow> (goerr option, 'w) io" where
  "default_OnRequest d hc req =
     (case requestHandlers d (Method req) of
        None \<Rightarrow> return_io (Some (ResponseErr (NotImplemented (''unknown method: '' @ Method req))))
      | Some hdl \<Rightarrow> rh_Handle hdl hc req)"

definition default_OnEvent ::
    "'w defaultSessionHandler \<Rightarrow> 'w SHC \<Rightarrow> Event \<Rightarrow> (goerr option, 'w) io" where
  "default_OnEvent d hc evt =
     (case eventHandlers d (EventName evt) of
        None \<Rightarrow> return_io None
      | Some hdl \<Rightarrow> eh_Handle hdl hc evt)"

text \<open>The variadic \<open>args ...any\<close> of \<open>NewHandler\<close>; an argument of any other type is skipped.\<close>

datatype 'w handler_arg =
    ArgEvent "'w EventHandler"
  | ArgRequest "'w RequestHandler"
  | ArgOther

fun add_handler_arg :: "'w handler_arg \<Rightarrow> 'w defaultSessionHandler \<Rightarrow> 'w defaultSessionHandler" where
  "add_handler_arg (ArgEvent e) d = d\<lparr>eventHandlers := (eventHandlers d)(eh_EventName e \<mapsto> e)\<rparr>"
| "add_handler_arg (ArgRequest r) d = d\<lparr>requestHandlers := (requestHandlers d)(rh_MethodName r \<mapsto> r)\<rparr>"
| "add_handler_arg ArgOther d = d"

definition NewHandler_struct ::
    "('w SHC \<Rightarrow> (goerr option, 'w) io) option \<Rightarrow> 'w handler_arg list \<Rightarrow> 'w defaultSessionHandler" where
  "NewHandler_struct begin_fn args = fold add_handler_arg args
     \<lparr>eventHandlers = Map.empty, requestHandlers = Map.empty, onBegin = begin_fn\<rparr>"

definition NewHandler ::
    "('w SHC \<Rightarrow> (goerr option, 'w) io) option \<Rightarrow> 'w handler_arg list \<Rightarrow> 'w SessionHandler" where
  "NewHandler begin_fn args =
     (let d = NewHandler_struct begin_fn args
      in \<lparr>OnBegin = default_OnBegin d, OnRequest = default_OnRequest d, OnEvent = default_OnEvent d\<rparr>)"

subsection \<open>The testing context (handler_testing.go)\<close>

record TestingSHC =
  t_Response :: "Response option"
  t_state :: SessionState

definition NewTestingSHC :: TestingSHC where
  "NewTestingSHC = \<lparr>t_Response = None, t_state = SessionStateActive\<rparr>"

definition testing_Respond :: "Response \<Rightarrow> (goerr option, TestingSHC) io" where
  "testing_Respond res = (\<lambda>t. (Ret None, t\<lparr>t_Response := Some res\<rparr>))"

text \<open>\<open>Close\<close> calls the callback (a nil one panics) and sets the state when it returns, also by a panic.\<close>

definition testing_Close :: "(goerr option, TestingSHC) io option \<Rightarrow> (goerr option, TestingSHC) io" where
  "testing_Close cb = (\<lambda>t.
     (case (case cb of None \<Rightarrow> lift_go nil_deref | Some f \<Rightarrow> f) t of
        (r, t') \<Rightarrow> (r, t'\<lparr>t_state := SessionStateClosed\<rparr>)))"

definition testing_SHC :: "TestingSHC SHC" where
  "testing_SHC =
     \<lparr>shc_Request = (\<lambda>n p. lift_go (Panic ''implement me'')),
      shc_Respond = testing_Respond,
      shc_Notify = (\<lambda>n p. lift_go (Panic ''implement me'')),
      shc_ClearReadBuffer = lift_go (Panic ''implement me''),
      shc_Close = testing_Close,
      shc_State = t_state\<rparr>"

subsection \<open>Dispatch\<close>

text \<open>The last argument registered under a name is the one that is kept.\<close>

fun request_entry :: "'w handler_arg \<Rightarrow> (string \<times> 'w RequestHandler) list" where
  "request_entry (ArgRequest r) = [(rh_MethodName r, r)]"
| "request_entry _ = []"

fun event_entry :: "'w handler_arg \<Rightarrow> (string \<times> 'w EventHandler) list" where
  "event_entry (ArgEvent e) = [(eh_EventName e, e)]"
| "event_entry _ = []"

lemma fold_add_handler_arg:
  "requestHandlers (fold add_handler_arg args d) =
     requestHandlers d ++ map_of (rev (concat (map request_entry args)))"
  "eventHandlers (fold add_handler_arg args d) =
     eventHandlers d ++ map_of (rev (concat (map event_entry args)))"
  "onBegin (fold add_handler_arg args d) = onBegin d"
proof (induction args arbitrary: d)
  case Nil
  { case 1 show ?case by simp next case 2 show ?case by simp next case 3 show ?case by simp }
next
  case (Cons a args)
  { case 1 show ?case by (cases a) (simp_all add: Cons.IH fun_eq_iff map_add_def split: option.split)
  next
    case 2 show ?case by (cases a) (simp_all add: Cons.IH fun_eq_iff map_add_def split: option.split)
  next
    case 3 show ?case by (cases a) (simp_all add: Cons.IH) }
qed

lemma NewHandler_simps:
  "OnRequest (NewHandler b args) hc req =
     (case map_of (rev (concat (map request_entry args))) (Method req) of
        Some r \<Rightarrow> rh_Handle r hc req
      | None \<Rightarrow> return_io (Some (ResponseErr (NotImplemented (''unknown method: '' @ Method req)))))"
  "OnEvent (NewHandler b args) hc evt =
     (case map_of (rev (concat (map event_entry args))) (EventName evt) of
        Some e \<Rightarrow> eh_Handle e hc evt
      | None \<Rightarrow> return_io None)"
  "OnBegin (NewHandler b args) hc = (case b of Some f \<Rightarrow> f hc | None \<Rightarrow> return_io None)"
  by (simp_all add: NewHandler_def NewHandler_struct_def default_OnRequest_def default_OnEvent_def
      default_OnBegin_def fold_add_handler_arg Let_def split: option.split)

text \<open>
  Dispatch of a handler built by \<open>NewHandler\<close>: a request goes to the handler that was
  registered last under its method and gets the error 501 when there is none; an event
  goes to the handler registered last under its name and is ignored when there is none;
  arguments of other types change nothing.
\<close>

theorem NewHandler_dispatch:
  "OnRequest (NewHandler b args) hc req =
     (case map_of (rev (concat (map request_entry args))) (Method req) of
        Some r \<Rightarrow> rh_Handle r hc req
      | None \<Rightarrow> return_io (Some (ResponseErr (NotImplemented (''unknown method: '' @ Method req)))))
   \<and> OnEvent (NewHandler b args) hc evt =
     (case map_of (rev (concat (map event_entry args))) (EventName evt) of
        Some e \<Rightarrow> eh_Handle e hc evt
      | None \<Rightarrow> return_io None)
   \<and> OnBegin (NewHandler b args) hc = (case b of Some f \<Rightarrow> f hc | None \<Rightarrow> return_io None)"
  by (simp add: NewHandler_simps)

subsection \<open>The branches of a typed handler\<close>

lemma Handle_marshal_error:
  "marshal_any (Params req) = Inl e \<Longrightarrow>
   Handle t h req w = (Ret (Some (Wrapf ''marshal data'' (JsonErr e))), w)"
  by (simp add: Handle_def)

lemma Handle_decode_error:
  "marshal_any (Params req) = Inr raw \<Longrightarrow> rt_Unmarshal (th_type t) raw = Inl e \<Longrightarrow>
   Handle t h req w = (Ret (Some (Wrapf ''unmarshal into type'' (JsonErr e))), w)"
  by (simp add: Handle_def)

lemma Handle_decoded:
  "marshal_any (Params req) = Inr raw \<Longrightarrow> rt_Unmarshal (th_type t) raw = Inr params \<Longrightarrow>
   validate_params (th_type t) params = Panic p \<Longrightarrow> Handle t h req w = (Panic p, w)"
  "marshal_any (Params req) = Inr raw \<Longrightarrow> rt_Unmarshal (th_type t) raw = Inr params \<Longrightarrow>
   validate_params (th_type t) params = Ret (Some e) \<Longrightarrow>
   Handle t h req w = (Ret (Some (ResponseErr (BadRequest e))), w)"
  by (simp_all add: Handle_def)

lemma Handle_called:
  assumes "marshal_any (Params req) = Inr raw"
    and "rt_Unmarshal (th_type t) raw = Inr params"
    and "validate_params (th_type t) params = Ret None"
  shows "th_h t req h params w = (Panic p, w1) \<Longrightarrow> Handle t h req w = (Panic p, w1)"
    and "th_h t req h params w = (Ret (Inl e), w1) \<Longrightarrow> Handle t h req w = (Ret (Some e), w1)"
    and "th_h t req h params w = (Ret (Inr res), w1) \<Longrightarrow> validate_any (th_res t res) = Ret (Some e) \<Longrightarrow>
      Handle t h req w = (Ret (Some (ResponseErr (NewError ErrInternalServerError
        (Wrapf ''failed to produce valid response'' e)))), w1)"
    and "th_h t req h params w = (Ret (Inr res), w1) \<Longrightarrow> validate_any (th_res t res) = Ret None \<Longrightarrow>
      Handle t h req w = bind_io (shc_Respond h (Ok req (th_res t res))) (\<lambda>serr.
        (case serr of
           Some e \<Rightarrow> return_io (Some (Wrapf ''failed to respond'' e))
         | None \<Rightarrow> (case rt_OnAfterReply (th_type t) of
             Some prh \<Rightarrow> prh params h
           | None \<Rightarrow> return_io None))) w1"
  by (simp_all add: Handle_def assms)

text \<open>A handler of a protocol type gets the value its peer sent.\<close>

context payload_codec
begin

lemma unmarshal_sent: "ok x \<Longrightarrow> unmarshal_ptr dec zero (any_json (enc x)) = Inr (Some x)"
  by (simp add: unmarshal_ptr_def ptr_two_hops)

lemma received_payload:
  "marshal_any (received_any (any_struct (enc x) v)) = Inr (any_json (enc x))"
  by (simp add: received_any_def)

lemma As_received: "ok x \<Longrightarrow> As dec zero (received_any (any_struct (enc x) v)) = Inr x"
  by (simp add: As_def received_payload two_hops)

end

end
