(* ===== verification/GoChan.thy ===== *)
theory GoChan
  imports Prelude
begin

section \<open>Channels and Once\<close>

text \<open>
  Go's buffered channels, channels used as close signals, and \<open>sync.Once\<close>, as the
  program uses them, with the contract of a first-in first-out channel as a locale.
\<close>

record 'a chan =
  ch_buf :: "'a list"
  ch_cap :: nat
  ch_closed :: bool

definition make_chan :: "nat \<Rightarrow> 'a chan" where
  "make_chan n = \<lparr>ch_buf = [], ch_cap = n, ch_closed = False\<rparr>"

text \<open>\<open>c <- x\<close>: panics on a closed channel, blocks on a full one.\<close>

definition send_chan :: "'a \<Rightarrow> 'a chan \<Rightarrow> 'a chan go" where
  "send_chan x c =
     (if ch_closed c then Panic ''send on closed channel''
      else if length (ch_buf c) < ch_cap c then Ret (c\<lparr>ch_buf := ch_buf c @ [x]\<rparr>)
      else Block)"

text \<open>\<open>x, ok := <-c\<close>: what is buffered first; then \<open>ok = false\<close> on a closed channel.\<close>

definition recv_chan :: "'a chan \<Rightarrow> ('a option \<times> 'a chan) go" where
  "recv_chan c =
     (case ch_buf c of
        x # xs \<Rightarrow> Ret (Some x, c\<lparr>ch_buf := xs\<rparr>)
      | [] \<Rightarrow> if ch_closed c then Ret (None, c) else Block)"

definition close_chan :: "'a chan \<Rightarrow> 'a chan go" where
  "close_chan c = (if ch_closed c then Panic ''close of closed channel'' else Ret (c\<lparr>ch_closed := True\<rparr>))"

text \<open>A \<open>chan struct{}\<close> that is only ever closed: whether it has been.\<close>

definition close_signal :: "bool \<Rightarrow> bool go" where
  "close_signal closed = (if closed then Panic ''close of closed channel'' else Ret True)"

datatype once = OnceNew | OnceRunning | OnceDone

subsection \<open>First in, first out\<close>

text \<open>
  The contract of one direction of a message path: \<open>send\<close> appends while there is room,
  \<open>recv\<close> takes the oldest. \<open>chan_run\<close> runs a list of operations, skipping those that would
  block, and collects what was accepted and what was delivered.
\<close>

datatype 'a chan_op = ChSend 'a | ChRecv

fun chan_run ::
    "('a \<Rightarrow> 'c \<Rightarrow> 'c option) \<Rightarrow> ('c \<Rightarrow> ('a \<times> 'c) option) \<Rightarrow> 'a chan_op list \<Rightarrow> 'c
       \<Rightarrow> 'a list \<times> 'a list \<times> 'c" where
  "chan_run send recv [] c = ([], [], c)"
| "chan_run send recv (ChSend x # ops) c =
     (case send x c of
        None \<Rightarrow> chan_run send recv ops c
      | Some c' \<Rightarrow> (case chan_run send recv ops c' of (acc, del, c'') \<Rightarrow> (x # acc, del, c'')))"
| "chan_run send recv (ChRecv # ops) c =
     (case recv c of
        None \<Rightarrow> chan_run send recv ops c
      | Some (x, c') \<Rightarrow> (case chan_run send recv ops c' of (acc, del, c'') \<Rightarrow> (acc, x # del, c'')))"

locale fifo =
  fixes send :: "'a \<Rightarrow> 'c \<Rightarrow> 'c option"
    and recv :: "'c \<Rightarrow> ('a \<times> 'c) option"
    and contents :: "'c \<Rightarrow> 'a list"
    and room :: "'c \<Rightarrow> bool"
  assumes send_room: "room c \<Longrightarrow> \<exists>c'. send x c = Some c' \<and> contents c' = contents c @ [x]"
    and send_full: "\<not> room c \<Longrightarrow> send x c = None"
    and recv_empty: "contents c = [] \<Longrightarrow> recv c = None"
    and recv_first: "contents c = x # xs \<Longrightarrow> \<exists>c'. recv c = Some (x, c') \<and> contents c' = xs"
begin

lemma send_Some: "send x c = Some c' \<Longrightarrow> contents c' = contents c @ [x]"
  by (metis option.discI option.inject send_full send_room)

lemma recv_Some: "recv c = Some (x, c') \<Longrightarrow> contents c = x # contents c'"
  by (cases "contents c") (use recv_empty recv_first in fastforce)+

lemma run_fifo:
  "chan_run send recv ops c = (acc, del, c') \<Longrightarrow> del @ contents c' = contents c @ acc"
proof (induction ops arbitrary: c acc del)
  case Nil
  then show ?case by simp
next
  case (Cons op ops)
  show ?case
  proof (cases op)
    case (ChSend x)
    show ?thesis
    proof (cases "send x c")
      case None
      with Cons ChSend show ?thesis by simp
    next
      case (Some c1)
      with Cons.prems ChSend obtain acc' where run: "chan_run send recv ops c1 = (acc', del, c')"
        and acc: "acc = x # acc'" by (auto split: prod.splits)
      from Cons.IH [OF run] send_Some [OF Some] acc show ?thesis by simp
    qed
  next
    case ChRecv
    show ?thesis
    proof (cases "recv c")
      case None
      with Cons ChRecv show ?thesis by simp
    next
      case (Some p)
      then obtain x c1 where p: "recv c = Some (x, c1)" by (cases p) auto
      with Cons.prems ChRecv obtain del' where run: "chan_run send recv ops c1 = (acc, del', c')"
        and del: "del = x # del'" by (auto split: prod.splits)
      from Cons.IH [OF run] recv_Some [OF p] del show ?thesis by simp
    qed
  qed
qed

lemma run_prefix:
  assumes "chan_run send recv ops c = (acc, del, c')" and "contents c = []"
  shows "\<exists>rest. acc = del @ rest \<and> contents c' = rest"
  using run_fifo [OF assms(1)] assms(2) by auto

end

text \<open>An open channel keeps the contract.\<close>

definition open_send :: "'a \<Rightarrow> 'a chan \<Rightarrow> 'a chan option" where
  "open_send x c = (case send_chan x c of Ret c' \<Rightarrow> Some c' | _ \<Rightarrow> None)"

definition open_recv :: "'a chan \<Rightarrow> ('a \<times> 'a chan) option" where
  "open_recv c = (case recv_chan c of Ret (Some x, c') \<Rightarrow> Some (x, c') | _ \<Rightarrow> None)"

definition has_room :: "'a chan \<Rightarrow> bool" where
  "has_room c \<longleftrightarrow> \<not> ch_closed c \<and> length (ch_buf c) < ch_cap c"

interpretation go_chan: fifo open_send open_recv ch_buf has_room
  by unfold_locales
     (auto simp: open_send_def open_recv_def send_chan_def recv_chan_def has_room_def)

lemma send_chan_Ret:
  "send_chan x c = Ret c' \<longleftrightarrow> has_room c \<and> c' = c\<lparr>ch_buf := ch_buf c @ [x]\<rparr>"
  by (auto simp: send_chan_def has_room_def)

lemma send_chan_Panic: "panics (send_chan x c) \<longleftrightarrow> ch_closed c"
  by (simp add: send_chan_def)

lemma make_chan_simps [simp]:
  "ch_buf (make_chan n) = []" "ch_cap (make_chan n) = n" "\<not> ch_closed (make_chan n)"
  by (simp_all add: make_chan_def)

lemma has_room_make_chan [simp]: "has_room (make_chan n) \<longleftrightarrow> 0 < n"
  by (simp add: has_room_def)

text \<open>A buffered channel never holds more than its capacity.\<close>

definition chan_ok :: "'a chan \<Rightarrow> bool" where
  "chan_ok c \<longleftrightarrow> length (ch_buf c) \<le> ch_cap c"

lemma chan_ok_make [simp]: "chan_ok (make_chan n)"
  by (simp add: chan_ok_def)

lemma chan_ok_send: "chan_ok c \<Longrightarrow> send_chan x c = Ret c' \<Longrightarrow> chan_ok c'"
  by (auto simp: send_chan_Ret chan_ok_def has_room_def)

lemma chan_ok_recv: "chan_ok c \<Longrightarrow> recv_chan c = Ret (y, c') \<Longrightarrow> chan_ok c'"
  by (auto simp: recv_chan_def chan_ok_def split: list.splits if_splits)

end
