(* ===== verification/Pending.thy ===== *)
theory Pending
  imports Proto GoChan
begin

section \<open>Pending requests (session_request.go)\<close>

text \<open>
  The table of requests waiting for a response. Each entry owns a channel of capacity
  one that the waiting caller also holds, so channels live in a store and the table and
  the caller share an address. Every operation runs under the session's \<open>muPending\<close>.
\<close>

record pendingRequest =
  pr_id :: string
  pr_ch :: nat

record pendings =
  pendingRequests :: "string \<rightharpoonup> pendingRequest"
  pr_chans :: "nat \<Rightarrow> Response chan"
  pr_next :: nat

definition no_pendings :: pendings where
  "no_pendings = \<lparr>pendingRequests = Map.empty, pr_chans = (\<lambda>_. make_chan 1), pr_next = 0\<rparr>"

definition newPendingRequest :: "string \<Rightarrow> pendings \<Rightarrow> pendingRequest \<times> pendings" where
  "newPendingRequest i p =
     (let pr = \<lparr>pr_id = i, pr_ch = pr_next p\<rparr>
      in (pr, p\<lparr>pr_chans := (pr_chans p)(pr_next p := make_chan 1),
               pr_next := Suc (pr_next p),
               pendingRequests := (pendingRequests p)(i \<mapsto> pr)\<rparr>))"

text \<open>The send happens under the lock: were the channel full, it would block every caller.\<close>

definition resolvePendingRequest :: "Response \<Rightarrow> pendings \<Rightarrow> pendings go" where
  "resolvePendingRequest resp p =
     (case pendingRequests p (Response_ID resp) of
        None \<Rightarrow> Ret p
      | Some pr \<Rightarrow> bind_go (send_chan resp (pr_chans p (pr_ch pr))) (\<lambda>c. Ret
          (p\<lparr>pr_chans := (pr_chans p)(pr_ch pr := c),
             pendingRequests := (pendingRequests p)(Response_ID resp := None)\<rparr>)))"

text \<open>The timeout branch of \<open>Session.Request\<close> drops the entry.\<close>

definition deletePendingRequest :: "string \<Rightarrow> pendings \<Rightarrow> pendings" where
  "deletePendingRequest i p = p\<lparr>pendingRequests := (pendingRequests p)(i := None)\<rparr>"

subsection \<open>The contract of the table\<close>

fun resolve_all :: "('r \<Rightarrow> 't \<Rightarrow> 't go) \<Rightarrow> 'r list \<Rightarrow> 't \<Rightarrow> 't go" where
  "resolve_all resolve [] t = Ret t"
| "resolve_all resolve (r # rs) t = bind_go (resolve r t) (resolve_all resolve rs)"

locale request_table =
  fixes register :: "string \<Rightarrow> 't \<Rightarrow> 'h \<times> 't"
    and resolve :: "Response \<Rightarrow> 't \<Rightarrow> 't go"
    and cancel :: "string \<Rightarrow> 't \<Rightarrow> 't"
    and waiting :: "'t \<Rightarrow> string \<Rightarrow> 'h option"
    and answer :: "'t \<Rightarrow> 'h \<Rightarrow> Response list"
    and invar :: "'t \<Rightarrow> bool"
  assumes invar_register: "invar t \<Longrightarrow> register i t = (h, t') \<Longrightarrow> invar t'"
    and waiting_register: "invar t \<Longrightarrow> register i t = (h, t') \<Longrightarrow> waiting t' = (waiting t)(i \<mapsto> h)"
    and answer_register: "invar t \<Longrightarrow> register i t = (h, t') \<Longrightarrow> answer t' = (answer t)(h := [])"
    and resolve_returns: "invar t \<Longrightarrow> \<exists>t'. resolve r t = Ret t'"
    and invar_resolve: "invar t \<Longrightarrow> resolve r t = Ret t' \<Longrightarrow> invar t'"
    and resolve_unknown: "invar t \<Longrightarrow> waiting t (Response_ID r) = None \<Longrightarrow> resolve r t = Ret t"
    and waiting_resolve: "invar t \<Longrightarrow> resolve r t = Ret t' \<Longrightarrow>
      waiting t' = (waiting t)(Response_ID r := None)"
    and answer_resolve: "invar t \<Longrightarrow> waiting t (Response_ID r) = Some h \<Longrightarrow> resolve r t = Ret t' \<Longrightarrow>
      answer t' = (answer t)(h := [r])"
    and invar_cancel: "invar t \<Longrightarrow> invar (cancel i t)"
    and waiting_cancel: "waiting (cancel i t) = (waiting t)(i := None)"
    and answer_cancel: "answer (cancel i t) = answer t"
    and waiting_inj: "invar t \<Longrightarrow> waiting t i = Some h \<Longrightarrow> waiting t j = Some h \<Longrightarrow> i = j"
begin

lemma duplicate_dropped:
  assumes "invar t" and "resolve r t = Ret t1" and "Response_ID r' = Response_ID r"
  shows "resolve r' t1 = Ret t1"
proof (rule resolve_unknown)
  show "invar t1" using assms(1,2) by (rule invar_resolve)
  show "waiting t1 (Response_ID r') = None"
    using waiting_resolve [OF assms(1,2)] assms(3) by simp
qed

lemma late_dropped: "invar t \<Longrightarrow> resolve r (cancel (Response_ID r) t) = Ret (cancel (Response_ID r) t)"
  by (simp add: resolve_unknown invar_cancel waiting_cancel)

lemma other_response:
  assumes "invar t" and "waiting t i = Some h" and "Response_ID r \<noteq> i" and "resolve r t = Ret t'"
  shows "answer t' h = answer t h \<and> waiting t' i = Some h"
proof (cases "waiting t (Response_ID r)")
  case None
  with assms show ?thesis using resolve_unknown by fastforce
next
  case (Some h')
  with assms waiting_inj have "h' \<noteq> h" by metis
  with assms Some show ?thesis by (simp add: answer_resolve waiting_resolve)
qed

lemma no_longer_waiting:
  assumes "invar t" and "\<forall>j. waiting t j \<noteq> Some h"
  shows "resolve_all resolve rs t = Ret t' \<Longrightarrow> answer t' h = answer t h"
  using assms
proof (induction rs arbitrary: t)
  case Nil
  then show ?case by simp
next
  case (Cons r rs)
  from Cons.prems obtain t1 where t1: "resolve r t = Ret t1" "resolve_all resolve rs t1 = Ret t'"
    by (auto simp: bind_go_eq_Ret)
  have wait: "\<forall>j. waiting t1 j \<noteq> Some h"
    using Cons.prems t1 by (simp add: waiting_resolve)
  have "answer t1 h = answer t h"
  proof (cases "waiting t (Response_ID r)")
    case None
    with Cons.prems t1 show ?thesis by (simp add: resolve_unknown)
  next
    case (Some h')
    with Cons.prems t1 show ?thesis by (auto simp: answer_resolve)
  qed
  with Cons.IH [OF t1(2) invar_resolve [OF Cons.prems(2) t1(1)] wait] show ?case by simp
qed

text \<open>Whatever responses arrive, a caller gets the first one that carries its ID.\<close>

lemma first_response:
  assumes "invar t" and "waiting t i = Some h"
  shows "\<exists>t'. resolve_all resolve rs t = Ret t' \<and> invar t' \<and>
     answer t' h = (case filter (\<lambda>r. Response_ID r = i) rs of [] \<Rightarrow> answer t h | r # _ \<Rightarrow> [r])"
  using assms
proof (induction rs arbitrary: t)
  case Nil
  then show ?case by simp
next
  case (Cons r rs)
  obtain t1 where t1: "resolve r t = Ret t1" using resolve_returns Cons.prems by blast
  have inv: "invar t1" using invar_resolve Cons.prems t1 by blast
  show ?case
  proof (cases "Response_ID r = i")
    case True
    have ans: "answer t1 h = [r]"
      using Cons.prems True t1 answer_resolve [of t r h t1] by simp
    have wait: "\<forall>j. waiting t1 j \<noteq> Some h"
    proof
      fix j
      show "waiting t1 j \<noteq> Some h"
        using Cons.prems True t1 waiting_inj [of t i h j] by (auto simp: waiting_resolve)
    qed
    have "\<exists>t'. resolve_all resolve rs t1 = Ret t' \<and> invar t'" for rs
      using inv
    proof (induction rs arbitrary: t1)
      case (Cons q qs)
      then show ?case using resolve_returns [of t1 q] invar_resolve [of t1 q] by auto
    qed simp
    then obtain t' where "resolve_all resolve rs t1 = Ret t'" "invar t'" by blast
    with True t1 ans no_longer_waiting [OF inv wait] show ?thesis by simp
  next
    case False
    with Cons.prems t1 have same: "answer t1 h = answer t h" "waiting t1 i = Some h"
      using other_response by blast+
    show ?thesis using Cons.IH [OF inv same(2)] t1 False unfolding same(1) by simp
  qed
qed

end

subsection \<open>The session's table keeps the contract\<close>

definition pendings_ok :: "pendings \<Rightarrow> bool" where
  "pendings_ok p \<longleftrightarrow>
     (\<forall>i pr. pendingRequests p i = Some pr \<longrightarrow>
        pr_id pr = i \<and> pr_ch pr < pr_next p \<and> pr_chans p (pr_ch pr) = make_chan 1) \<and>
     (\<forall>i j pr pr'. pendingRequests p i = Some pr \<longrightarrow> pendingRequests p j = Some pr' \<longrightarrow>
        pr_ch pr = pr_ch pr' \<longrightarrow> i = j)"

definition register_request :: "string \<Rightarrow> pendings \<Rightarrow> nat \<times> pendings" where
  "register_request i p = (case newPendingRequest i p of (pr, p') \<Rightarrow> (pr_ch pr, p'))"

definition waiting_on :: "pendings \<Rightarrow> string \<Rightarrow> nat option" where
  "waiting_on p i = map_option pr_ch (pendingRequests p i)"

definition answer_in :: "pendings \<Rightarrow> nat \<Rightarrow> Response list" where
  "answer_in p h = ch_buf (pr_chans p h)"

lemma pendings_ok_entry:
  "pendings_ok p \<Longrightarrow> pendingRequests p i = Some pr \<Longrightarrow>
     pr_id pr = i \<and> pr_ch pr < pr_next p \<and> pr_chans p (pr_ch pr) = make_chan 1"
  by (simp add: pendings_ok_def)

lemma pendings_ok_inj:
  "pendings_ok p \<Longrightarrow> pendingRequests p i = Some pr \<Longrightarrow> pendingRequests p j = Some pr' \<Longrightarrow>
     pr_ch pr = pr_ch pr' \<Longrightarrow> i = j"
  unfolding pendings_ok_def by blast

lemma pendings_ok_no_pendings [simp]: "pendings_ok no_pendings"
  by (simp add: pendings_ok_def no_pendings_def)

lemma pendings_okI:
  assumes "\<And>i pr. pendingRequests p i = Some pr \<Longrightarrow>
      pr_id pr = i \<and> pr_ch pr < pr_next p \<and> pr_chans p (pr_ch pr) = make_chan 1"
    and "\<And>i j pr pr'. pendingRequests p i = Some pr \<Longrightarrow> pendingRequests p j = Some pr' \<Longrightarrow>
      pr_ch pr = pr_ch pr' \<Longrightarrow> i = j"
  shows "pendings_ok p"
  using assms unfolding pendings_ok_def by blast

lemma newPendingRequest_ok:
  assumes ok: "pendings_ok p"
  shows "pendings_ok (snd (newPendingRequest i p))" (is "pendings_ok ?p'")
proof (rule pendings_okI)
  fix j pr assume "pendingRequests ?p' j = Some pr"
  then show "pr_id pr = j \<and> pr_ch pr < pr_next ?p' \<and> pr_chans ?p' (pr_ch pr) = make_chan 1"
    using pendings_ok_entry [OF ok, of j pr]
    by (auto simp: newPendingRequest_def Let_def split: if_splits)
next
  fix j k pr pr'
  assume "pendingRequests ?p' j = Some pr" "pendingRequests ?p' k = Some pr'" "pr_ch pr = pr_ch pr'"
  then show "j = k"
    using pendings_ok_entry [OF ok, of j pr] pendings_ok_entry [OF ok, of k pr']
      pendings_ok_inj [OF ok, of j pr k pr']
    by (simp add: newPendingRequest_def Let_def split: if_splits) auto
qed

lemma resolve_known:
  "pendings_ok p \<Longrightarrow> pendingRequests p (Response_ID r) = Some pr \<Longrightarrow>
   resolvePendingRequest r p = Ret
     (p\<lparr>pr_chans := (pr_chans p)(pr_ch pr := (make_chan 1)\<lparr>ch_buf := [r]\<rparr>),
        pendingRequests := (pendingRequests p)(Response_ID r := None)\<rparr>)"
  using pendings_ok_entry [of p "Response_ID r" pr]
  by (simp add: resolvePendingRequest_def send_chan_def)

lemma resolve_ok:
  assumes ok: "pendings_ok p" and res: "resolvePendingRequest r p = Ret p'"
  shows "pendings_ok p'"
proof (cases "pendingRequests p (Response_ID r)")
  case None
  with ok res show ?thesis by (simp add: resolvePendingRequest_def)
next
  case (Some pr)
  have p': "p' = p\<lparr>pr_chans := (pr_chans p)(pr_ch pr := (make_chan 1)\<lparr>ch_buf := [r]\<rparr>),
        pendingRequests := (pendingRequests p)(Response_ID r := None)\<rparr>"
    using res resolve_known [OF ok Some] by simp
  show ?thesis
  proof (rule pendings_okI)
    fix j pr' assume "pendingRequests p' j = Some pr'"
    then have j: "pendingRequests p j = Some pr'" "j \<noteq> Response_ID r"
      by (simp_all add: p' split: if_splits)
    then have "pr_ch pr' \<noteq> pr_ch pr" using pendings_ok_inj [OF ok Some j(1)] by metis
    with pendings_ok_entry [OF ok j(1)]
    show "pr_id pr' = j \<and> pr_ch pr' < pr_next p' \<and> pr_chans p' (pr_ch pr') = make_chan 1"
      by (simp add: p')
  next
    fix j k q q'
    assume "pendingRequests p' j = Some q" "pendingRequests p' k = Some q'" "pr_ch q = pr_ch q'"
    then show "j = k" using pendings_ok_inj [OF ok, of j q k q'] by (simp add: p' split: if_splits)
  qed
qed

lemma delete_ok: "pendings_ok p \<Longrightarrow> pendings_ok (deletePendingRequest i p)"
  by (auto simp: pendings_ok_def deletePendingRequest_def split: if_splits)

interpretation pend: request_table register_request resolvePendingRequest deletePendingRequest
  waiting_on answer_in pendings_ok
proof
  fix p p' :: pendings and i j h r
  assume ok: "pendings_ok p"
  show "register_request i p = (h, p') \<Longrightarrow> pendings_ok p'"
    using newPendingRequest_ok [OF ok, of i] by (auto simp: register_request_def split: prod.splits)
  show "register_request i p = (h, p') \<Longrightarrow> waiting_on p' = (waiting_on p)(i \<mapsto> h)"
    by (auto simp: register_request_def newPendingRequest_def waiting_on_def fun_eq_iff Let_def)
  show "register_request i p = (h, p') \<Longrightarrow> answer_in p' = (answer_in p)(h := [])"
    by (auto simp: register_request_def newPendingRequest_def answer_in_def fun_eq_iff Let_def)
  show "\<exists>p'. resolvePendingRequest r p = Ret p'"
    using resolve_known [OF ok] by (cases "pendingRequests p (Response_ID r)")
      (auto simp: resolvePendingRequest_def)
  show "resolvePendingRequest r p = Ret p' \<Longrightarrow> pendings_ok p'"
    by (rule resolve_ok [OF ok])
  show "waiting_on p (Response_ID r) = None \<Longrightarrow> resolvePendingRequest r p = Ret p"
    by (simp add: waiting_on_def resolvePendingRequest_def)
  show "resolvePendingRequest r p = Ret p' \<Longrightarrow> waiting_on p' = (waiting_on p)(Response_ID r := None)"
    using resolve_known [OF ok, of r] by (cases "pendingRequests p (Response_ID r)")
      (auto simp: resolvePendingRequest_def waiting_on_def fun_eq_iff)
  show "waiting_on p (Response_ID r) = Some h \<Longrightarrow> resolvePendingRequest r p = Ret p' \<Longrightarrow>
      answer_in p' = (answer_in p)(h := [r])"
    using resolve_known [OF ok, of r] by (auto simp: waiting_on_def answer_in_def fun_eq_iff)
  show "pendings_ok (deletePendingRequest i p)"
    by (rule delete_ok [OF ok])
  show "waiting_on p i = Some h \<Longrightarrow> waiting_on p j = Some h \<Longrightarrow> i = j"
    using pendings_ok_inj [OF ok] by (auto simp: waiting_on_def)
qed (auto simp: waiting_on_def deletePendingRequest_def answer_in_def fun_eq_iff)

text \<open>
  C8. Correlation of responses: in a well-formed table, whatever responses arrive in
  whatever order after a request was registered, resolving them neither blocks nor
  panics, and the caller's channel holds exactly the first response that carries the
  request's ID, or nothing when none does; later duplicates are dropped.
\<close>

theorem caller_gets_first_response:
  assumes "pendings_ok p" and "newPendingRequest i p = (pr, p1)"
  shows "\<exists>p2. resolve_all resolvePendingRequest rs p1 = Ret p2 \<and> pendings_ok p2 \<and>
     ch_buf (pr_chans p2 (pr_ch pr)) = take 1 (filter (\<lambda>r. Response_ID r = i) rs)"
proof -
  have reg: "register_request i p = (pr_ch pr, p1)"
    using assms(2) by (simp add: register_request_def)
  have "pendings_ok p1" "waiting_on p1 i = Some (pr_ch pr)" "answer_in p1 (pr_ch pr) = []"
    using pend.invar_register [OF assms(1) reg] pend.waiting_register [OF assms(1) reg]
      pend.answer_register [OF assms(1) reg] by simp_all
  from pend.first_response [OF this(1,2), of rs] this(3) show ?thesis
    by (auto simp: answer_in_def split: list.splits)
qed

lemma caller_gets_first_response_witness:
  "\<exists>p2. resolve_all resolvePendingRequest
       [newResponseWithVersion ''1'' ''b'' ANil None, newResponseWithVersion ''1'' ''a'' ANil None,
        newResponseWithVersion ''1'' ''a'' (ADyn (JInt 1)) None]
       (snd (newPendingRequest ''a'' no_pendings)) = Ret p2 \<and> pendings_ok p2 \<and>
     ch_buf (pr_chans p2 0) = [newResponseWithVersion ''1'' ''a'' ANil None]"
  using caller_gets_first_response [OF pendings_ok_no_pendings, of "''a''"
      "\<lparr>pr_id = ''a'', pr_ch = 0\<rparr>" "snd (newPendingRequest ''a'' no_pendings)"
      "[newResponseWithVersion ''1'' ''b'' ANil None, newResponseWithVersion ''1'' ''a'' ANil None,
        newResponseWithVersion ''1'' ''a'' (ADyn (JInt 1)) None]"]
  by (simp add: newPendingRequest_def no_pendings_def constructor_defs Let_def)

text \<open>
  A response that arrives after the caller gave up, or a second response to the same
  request, changes nothing: no entry, no channel.
\<close>

theorem late_and_duplicate_responses_dropped:
  assumes "pendings_ok p"
  shows "resolvePendingRequest r (deletePendingRequest (Response_ID r) p)
           = Ret (deletePendingRequest (Response_ID r) p)
     \<and> (\<exists>p1. resolvePendingRequest r p = Ret p1 \<and>
          resolvePendingRequest (r\<lparr>Result := x, Error := e\<rparr>) p1 = Ret p1)"
proof -
  obtain p1 where p1: "resolvePendingRequest r p = Ret p1"
    using pend.resolve_returns [OF assms] by blast
  with pend.late_dropped [OF assms] pend.duplicate_dropped [OF assms p1] show ?thesis by simp
qed

lemma late_and_duplicate_responses_dropped_witness:
  "resolvePendingRequest (newResponseWithVersion ''1'' ''a'' ANil None)
     (deletePendingRequest ''a'' (snd (newPendingRequest ''a'' no_pendings)))
   = Ret (deletePendingRequest ''a'' (snd (newPendingRequest ''a'' no_pendings)))"
  using late_and_duplicate_responses_dropped
    [OF newPendingRequest_ok [OF pendings_ok_no_pendings, of "''a''"],
     of "newResponseWithVersion ''1'' ''a'' ANil None"]
  by (simp add: constructor_defs)

end
