(* ===== verification/Session.thy ===== *)
theory Session
  imports Handlers Pending
begin

section \<open>Session operations (session.go, session_request.go, session_state.go, transport.go)\<close>

text \<open>
  The methods of \<open>Session\<close> as state transformers: sending, requests, responses, events,
  closing, and what the reader does with a package. The record is extensible, so a
  handler's own state rides along in the same world. What a method needs from outside
  (the transport's \<open>Write\<close>, fresh IDs of the third-party generator, what other
  goroutines do while it waits, whether its context has expired by then) is the record
  \<open>env\<close>. Which interleavings of the goroutines can occur is the subject of \<open>Lifecycle\<close>.
\<close>

record DataPackage =
  dp_Data :: wire
  dp_ReceivedAt :: i64

record 'tr session =
  s_id :: string
  s_state :: SessionState
  s_transport :: "'tr option"
  s_pending :: pendings
  s_once :: once
  s_trigger :: bool
  s_final :: bool

record ('tr, 'w) env =
  tr_Write :: "wire \<Rightarrow> (goerr option, 'tr) io"
  fresh_ID :: "'w \<Rightarrow> string"
  others :: "'w \<Rightarrow> 'w"
  ctx_done :: "'w \<Rightarrow> goerr option"
  audio_ClearReadBuffer :: "(goerr + int, 'w) io"

subsection \<open>State and sending\<close>

definition setState :: "SessionState \<Rightarrow> ('tr, 'u) session_scheme \<Rightarrow> ('tr, 'u) session_scheme" where
  "setState st s = s\<lparr>s_state := st\<rparr>"

text \<open>\<open>s.transport.Write(data)\<close>; before \<open>Run\<close> the transport is nil.\<close>

definition write_transport ::
    "('tr, ('tr, 'u) session_scheme) env \<Rightarrow> wire \<Rightarrow> (goerr option, ('tr, 'u) session_scheme) io" where
  "write_transport env w = (\<lambda>s.
     (case s_transport s of
        None \<Rightarrow> (nil_deref, s)
      | Some t \<Rightarrow> (case tr_Write env w t of (r, t') \<Rightarrow> (r, s\<lparr>s_transport := Some t'\<rparr>))))"

definition sendMessage ::
    "('tr, ('tr, 'u) session_scheme) env \<Rightarrow> message \<Rightarrow> (goerr option, ('tr, 'u) session_scheme) io" where
  "sendMessage env msg =
     bind_io (lift_go (Validate msg)) (\<lambda>err.
     (case err of
        Some e \<Rightarrow> return_io (Some (Wrap2 ErrRequestValidationFailed e))
      | None \<Rightarrow>
     (case marshal_message msg of
        Inl e \<Rightarrow> return_io (Some (Wrapf ''sending message failed'' (JsonErr e)))
      | Inr data \<Rightarrow> write_transport env (wire_of_json data))))"

definition EventDispatch ::
    "('tr, ('tr, 'u) session_scheme) env \<Rightarrow> string \<Rightarrow> any
       \<Rightarrow> (goerr option, ('tr, 'u) session_scheme) io" where
  "EventDispatch env n payload = (\<lambda>s.
     sendMessage env (MEvent (NewEvent (fresh_ID env s) n payload)) s)"

subsection \<open>Requests\<close>

text \<open>
  The \<open>select\<close> of \<open>Request\<close>: other goroutines act, then either the context has expired
  (the entry is deleted) or a response is in the channel.
\<close>

definition await_response ::
    "('tr, ('tr, 'u) session_scheme) env \<Rightarrow> Request \<Rightarrow> pendingRequest
       \<Rightarrow> (goerr + Response, ('tr, 'u) session_scheme) io" where
  "await_response env req pr = (\<lambda>s.
     (let s1 = others env s; p = s_pending s1 in
      case ctx_done env s1 of
        Some _ \<Rightarrow>
          (Ret (Inl (Wrapf (''request [method='' @ Method req @ '', id='' @ req_ID req @ ''] failed'')
                       ErrRequestTimeout)),
           s1\<lparr>s_pending := deletePendingRequest (req_ID req) p\<rparr>)
      | None \<Rightarrow>
          (case recv_chan (pr_chans p (pr_ch pr)) of
             Ret (Some resp, c) \<Rightarrow>
               (Ret (case Error resp of Some e \<Rightarrow> Inl (ResponseErr e) | None \<Rightarrow> Inr resp),
                s1\<lparr>s_pending := p\<lparr>pr_chans := (pr_chans p)(pr_ch pr := c)\<rparr>\<rparr>)
           | _ \<Rightarrow> (Block, s1))))"

definition Session_Request ::
    "('tr, ('tr, 'u) session_scheme) env \<Rightarrow> string \<Rightarrow> any
       \<Rightarrow> (goerr + Response, ('tr, 'u) session_scheme) io" where
  "Session_Request env n payload = (\<lambda>s.
     (let req = NewRequest (fresh_ID env s) n payload in
      case newPendingRequest (req_ID req) (s_pending s) of
        (pr, p) \<Rightarrow>
          bind_io (sendMessage env (MRequest req)) (\<lambda>err.
          (case err of
             Some e \<Rightarrow> return_io (Inl (Wrap2 ErrRequestFailed e))
           | None \<Rightarrow> await_response env req pr)) (s\<lparr>s_pending := p\<rparr>)))"

definition resolvePending ::
    "Response \<Rightarrow> (unit, ('tr, 'u) session_scheme) io" where
  "resolvePending resp = (\<lambda>s.
     (case resolvePendingRequest resp (s_pending s) of
        Ret p \<Rightarrow> (Ret (), s\<lparr>s_pending := p\<rparr>)
      | Panic m \<Rightarrow> (Panic m, s)
      | Block \<Rightarrow> (Block, s)))"

subsection \<open>Closing\<close>

text \<open>
  \<open>closeOnce.Do\<close>: a second call waits for the first, so from inside the callback it can
  never return; a callback that panics still uses the Once up.
\<close>

definition doClose ::
    "(goerr option, ('tr, 'u) session_scheme) io option \<Rightarrow> (unit, ('tr, 'u) session_scheme) io" where
  "doClose cb = (\<lambda>s.
     (if s_state s = SessionStateClosed \<or> s_state s = SessionStateClosing then (Ret (), s)
      else case s_once s of
        OnceDone \<Rightarrow> (Ret (), s)
      | OnceRunning \<Rightarrow> (Block, s)
      | OnceNew \<Rightarrow>
          (case (case cb of None \<Rightarrow> return_io None | Some f \<Rightarrow> f) (s\<lparr>s_once := OnceRunning\<rparr>) of
             (Ret _, s1) \<Rightarrow>
               (case close_signal (s_trigger s1) of
                  Ret b \<Rightarrow> (Ret (), s1\<lparr>s_trigger := b, s_once := OnceDone\<rparr>)
                | Panic m \<Rightarrow> (Panic m, s1\<lparr>s_once := OnceDone\<rparr>)
                | Block \<Rightarrow> (Block, s1))
           | (Panic m, s1) \<Rightarrow> (Panic m, s1\<lparr>s_once := OnceDone\<rparr>)
           | (Block, s1) \<Rightarrow> (Block, s1))))"

definition Session_Close ::
    "('tr, ('tr, 'u) session_scheme) env \<Rightarrow> (goerr option, ('tr, 'u) session_scheme) io option
       \<Rightarrow> (goerr option, ('tr, 'u) session_scheme) io" where
  "Session_Close env cb =
     bind_io (doClose cb) (\<lambda>_. (\<lambda>s.
       (let s1 = others env s in
        case ctx_done env s1 of
          Some e \<Rightarrow> (Ret (Some (Wrapf ''closing session failed'' e)), s1)
        | None \<Rightarrow> if s_final s1 then (Ret None, s1) else (Block, s1))))"

text \<open>\<open>finalize\<close>: the close handlers run in the order they were registered; their errors are logged.\<close>

fun run_close_handlers :: "(goerr option, 'w) io list \<Rightarrow> (unit, 'w) io" where
  "run_close_handlers [] = return_io ()"
| "run_close_handlers (h # hs) = bind_io h (\<lambda>_. run_close_handlers hs)"

definition finalize ::
    "(goerr option, ('tr, 'u) session_scheme) io list \<Rightarrow> (unit, ('tr, 'u) session_scheme) io" where
  "finalize hs = (\<lambda>s.
     bind_io (run_close_handlers hs) (\<lambda>_. (\<lambda>s1.
       (case close_signal (s_final s1) of
          Ret b \<Rightarrow> (Ret (), (setState SessionStateClosed s1)\<lparr>s_final := b\<rparr>)
        | Panic m \<Rightarrow> (Panic m, setState SessionStateClosed s1)
        | Block \<Rightarrow> (Block, s1)))) (setState SessionStateClosing s))"

subsection \<open>The context handed to handlers\<close>

definition session_SHC ::
    "('tr, ('tr, 'u) session_scheme) env \<Rightarrow> ('tr, 'u) session_scheme SHC" where
  "session_SHC env =
     \<lparr>shc_Request = Session_Request env,
      shc_Respond = (\<lambda>res. sendMessage env (MResponse res)),
      shc_Notify = EventDispatch env,
      shc_ClearReadBuffer = audio_ClearReadBuffer env,
      shc_Close = Session_Close env,
      shc_State = s_state\<rparr>"

subsection \<open>Incoming messages\<close>

definition handleEvent ::
    "('tr, ('tr, 'u) session_scheme) env \<Rightarrow> ('tr, 'u) session_scheme SessionHandler option
       \<Rightarrow> Event \<Rightarrow> (unit, ('tr, 'u) session_scheme) io" where
  "handleEvent env handler evt =
     (case handler of
        None \<Rightarrow> return_io ()
      | Some h \<Rightarrow> bind_io (OnEvent h (session_SHC env) evt) (\<lambda>_. return_io ()))"

definition handleRequest ::
    "('tr, ('tr, 'u) session_scheme) env \<Rightarrow> ('tr, 'u) session_scheme SessionHandler option
       \<Rightarrow> Request \<Rightarrow> (unit, ('tr, 'u) session_scheme) io" where
  "handleRequest env handler req =
     (case handler of
        None \<Rightarrow> return_io ()
      | Some h \<Rightarrow>
          bind_io (OnRequest h (session_SHC env) req) (\<lambda>err.
          (case err of
             None \<Rightarrow> return_io ()
           | Some e \<Rightarrow>
               bind_io (shc_Respond (session_SHC env) (NotOk req (ToResponseError e)))
                 (\<lambda>_. return_io ()))))"

fun handleIncomingMessage ::
    "('tr, ('tr, 'u) session_scheme) env \<Rightarrow> ('tr, 'u) session_scheme SessionHandler option
       \<Rightarrow> message \<Rightarrow> (unit, ('tr, 'u) session_scheme) io" where
  "handleIncomingMessage env handler (MEvent e) = handleEvent env handler e"
| "handleIncomingMessage env handler (MRequest r) = handleRequest env handler r"
| "handleIncomingMessage env handler (MResponse r) = resolvePending r"

text \<open>The reader's treatment of one package: the message to handle, if it is valid.\<close>

definition receive_package :: "i64 \<Rightarrow> DataPackage \<Rightarrow> message option go" where
  "receive_package now p =
     bind_go (ParseValidMessage (dp_Data p)) (\<lambda>r. Ret
       (case r of
          Inl err \<Rightarrow> None
        | Inr msg \<Rightarrow>
            Some (SetReceivedAt (if dp_ReceivedAt p = 0 then now else dp_ReceivedAt p) msg)))"

subsection \<open>The contract of a transport\<close>

text \<open>
  \<open>Transport.Write\<close>: what it accepts it appends to the messages written, and a call that
  fails, panics or blocks writes nothing.
\<close>

locale transport_write =
  fixes wr :: "wire \<Rightarrow> (goerr option, 'tr) io"
    and written :: "'tr \<Rightarrow> wire list"
  assumes write_accepted: "wr w t = (Ret None, t') \<Longrightarrow> written t' = written t @ [w]"
    and write_refused: "wr w t = (r, t') \<Longrightarrow> r \<noteq> Ret None \<Longrightarrow> written t' = written t"

subsection \<open>Facts about sending\<close>

lemma sendMessage_invalid:
  "Validate m = Ret (Some e) \<Longrightarrow>
   sendMessage env m s = (Ret (Some (Wrap2 ErrRequestValidationFailed e)), s)"
  by (simp add: sendMessage_def)

lemma sendMessage_valid:
  "Validate m = Ret None \<Longrightarrow> marshal_message m = Inr j \<Longrightarrow>
   sendMessage env m s = write_transport env (wire_of_json j) s"
  by (simp add: sendMessage_def)

lemma session_SHC_simps [simp]:
  "shc_Request (session_SHC env) = Session_Request env"
  "shc_Respond (session_SHC env) = (\<lambda>res. sendMessage env (MResponse res))"
  "shc_Notify (session_SHC env) = EventDispatch env"
  "shc_ClearReadBuffer (session_SHC env) = audio_ClearReadBuffer env"
  "shc_Close (session_SHC env) = Session_Close env"
  "shc_State (session_SHC env) = s_state"
  by (simp_all add: session_SHC_def)

text \<open>Sending touches the transport only.\<close>

lemma write_transport_frame:
  "write_transport env w s = (r, s') \<Longrightarrow> \<exists>t. s' = s\<lparr>s_transport := t\<rparr>"
  by (cases "s_transport s") (auto simp: write_transport_def split: prod.splits
      intro: exI [of _ "s_transport s"])

lemma sendMessage_frame:
  "sendMessage env m s = (r, s') \<Longrightarrow> \<exists>t. s' = s\<lparr>s_transport := t\<rparr>"
proof -
  have same: "\<exists>t. s = s\<lparr>s_transport := t\<rparr>" by (rule exI [of _ "s_transport s"]) simp
  show "sendMessage env m s = (r, s') \<Longrightarrow> \<exists>t. s' = s\<lparr>s_transport := t\<rparr>"
    using same by (auto simp: sendMessage_def bind_io_apply dest: write_transport_frame
        split: go.splits option.splits sum.splits)
qed

end
