(* ===== verification/Replies.thy ===== *)
theory Replies
  imports Session
begin

section \<open>What a session answers, and what a request gets back\<close>

text \<open>
  Facts about the session operations that span handler, session and transport: a typed
  handler splits into computing a result and replying; over any transport that keeps the
  write contract, how many responses a request is answered with; which response a
  \<open>Request\<close> call returns; what a failed send leaves behind.
\<close>

subsection \<open>A typed handler computes a result, then replies\<close>

text \<open>The part of \<open>Handle\<close> before it responds: an error, or the decoded parameters and the result.\<close>

definition handler_result ::
    "('req, 'res, 'w) typedRequestHandler \<Rightarrow> 'w SHC \<Rightarrow> Request
       \<Rightarrow> (goerr + 'req option \<times> any, 'w) io" where
  "handler_result t h req =
     (case bind_res (marshal_any (Params req)) (\<lambda>raw. Inr raw) of
        Inl e \<Rightarrow> return_io (Inl (Wrapf ''marshal data'' (JsonErr e)))
      | Inr raw \<Rightarrow>
     (case rt_Unmarshal (th_type t) raw of
        Inl e \<Rightarrow> return_io (Inl (Wrapf ''unmarshal into type'' (JsonErr e)))
      | Inr params \<Rightarrow>
     bind_io (lift_go (validate_params (th_type t) params)) (\<lambda>verr.
     (case verr of
        Some e \<Rightarrow> return_io (Inl (ResponseErr (BadRequest e)))
      | None \<Rightarrow>
     bind_io (th_h t req h params) (\<lambda>r.
     (case r of
        Inl e \<Rightarrow> return_io (Inl e)
      | Inr res \<Rightarrow>
     bind_io (lift_go (validate_any (th_res t res))) (\<lambda>rerr. return_io
       (case rerr of
          Some e \<Rightarrow> Inl (ResponseErr (NewError ErrInternalServerError
                      (Wrapf ''failed to produce valid response'' e)))
        | None \<Rightarrow> Inr (params, th_res t res)))))))))"

definition reply_and_hook ::
    "('req, 'w) ReqType \<Rightarrow> 'w SHC \<Rightarrow> Request \<Rightarrow> 'req option \<times> any \<Rightarrow> (goerr option, 'w) io" where
  "reply_and_hook rt h req = (\<lambda>(params, x).
     bind_io (shc_Respond h (Ok req x)) (\<lambda>serr.
       (case serr of
          Some e \<Rightarrow> return_io (Some (Wrapf ''failed to respond'' e))
        | None \<Rightarrow> (case rt_OnAfterReply rt of
            Some prh \<Rightarrow> prh params h
          | None \<Rightarrow> return_io None))))"

lemma Handle_split:
  "Handle t h req w = bind_io (handler_result t h req)
     (\<lambda>r. case r of Inl e \<Rightarrow> return_io (Some e) | Inr px \<Rightarrow> reply_and_hook (th_type t) h req px) w"
proof (cases "marshal_any (Params req)")
  case (Inl e)
  then show ?thesis by (simp add: Handle_def handler_result_def)
next
  case raw: (Inr raw)
  show ?thesis
  proof (cases "rt_Unmarshal (th_type t) raw")
    case (Inl e)
    with raw show ?thesis by (simp add: Handle_def handler_result_def)
  next
    case (Inr params)
    with raw show ?thesis
      by (auto simp: Handle_def handler_result_def bind_io_apply reply_and_hook_def
          split: go.splits option.splits sum.splits prod.splits)
  qed
qed

subsection \<open>Replies over a transport\<close>

text \<open>The response to a request, given what its handler computed.\<close>

definition reply_for :: "Request \<Rightarrow> goerr + 'p \<times> any \<Rightarrow> Response" where
  "reply_for req r =
     (case r of Inl e \<Rightarrow> NotOk req (ToResponseError e) | Inr (params, x) \<Rightarrow> Ok req x)"

text \<open>That response can be sent: it is valid and marshals.\<close>

definition sendable :: "Response \<Rightarrow> json \<Rightarrow> bool" where
  "sendable resp j \<longleftrightarrow> Response_Validate resp = Ret None \<and> marshal_Response resp = Inr j"

lemma NotOk_marshals: "\<exists>j. marshal_Response (NotOk req e) = Inr j"
  by (simp add: marshal_Response_def any_field_def)

lemma sendable_error:
  assumes "Request_Validate req = Ret None"
    and "case errors_As as_ResponseError err of
           Some re \<Rightarrow> Code re \<noteq> 0 \<and> Message re \<noteq> [] | None \<Rightarrow> err_text err \<noteq> []"
  shows "\<exists>j. sendable (NotOk req (ToResponseError err)) j"
  using NotOk_valid_iff [OF assms(1), of "ToResponseError err"] assms(2) NotOk_marshals
  by (auto simp: sendable_def ToResponseError_cases split: option.splits)

lemma sendable_Ok:
  assumes "Request_Validate req = Ret None" and "marshal_any x = Inr j" and "validate_any x = Ret None"
  shows "\<exists>j. sendable (Ok req x) j"
  using assms Request_Validate_base [OF assms(1)]
  by (auto simp: sendable_def Response_Validate_def marshal_Response_def any_field_def
      wrap_verdict_def)

lemma sendMessage_sendable:
  assumes "sendable resp j" and "s_transport s = Some t"
    and "tr_Write env (wire_of_json j) t = (Ret None, t1)"
  shows "sendMessage env (MResponse resp) s = (Ret None, s\<lparr>s_transport := Some t1\<rparr>)"
  using assms by (simp add: sendable_def sendMessage_def write_transport_def)

lemma OnRequest_typed_Ok:
  assumes run: "handler_result th (session_SHC env) req s = (Ret (Inr (params, x)), s1)"
    and "s_transport s1 = Some t" and "sendable (Ok req x) j"
    and "tr_Write env (wire_of_json j) t = (Ret None, t1)"
  shows "Handle th (session_SHC env) req s =
     (case rt_OnAfterReply (th_type th) of
        None \<Rightarrow> (Ret None, s1\<lparr>s_transport := Some t1\<rparr>)
      | Some prh \<Rightarrow> prh params (session_SHC env) (s1\<lparr>s_transport := Some t1\<rparr>))"
  using sendMessage_sendable [OF assms(3,2,4)]
  by (simp add: Handle_split run reply_and_hook_def split: option.split)

context transport_write
begin

lemma handleRequest_one_reply:
  assumes env: "tr_Write env = wr"
    and disp: "OnRequest h (session_SHC env) req = Handle th (session_SHC env) req"
    and nohook: "rt_OnAfterReply (th_type th) = None"
    and run: "handler_result th (session_SHC env) req s = (Ret r, s1)"
    and tr: "s_transport s1 = Some t"
    and send: "sendable (reply_for req r) j"
    and acc: "wr (wire_of_json j) t = (Ret None, t1)"
  shows "handleRequest env (Some h) req s = (Ret (), s1\<lparr>s_transport := Some t1\<rparr>) \<and>
     written t1 = written t @ [wire_of_json j]"
proof -
  have w: "written t1 = written t @ [wire_of_json j]" using acc by (rule write_accepted)
  have acc': "tr_Write env (wire_of_json j) t = (Ret None, t1)" using acc env by simp
  show ?thesis
  proof (cases r)
    case (Inl e)
    then have "sendable (NotOk req (ToResponseError e)) j" using send by (simp add: reply_for_def)
    from sendMessage_sendable [OF this tr acc'] w show ?thesis
      by (simp add: handleRequest_def disp Handle_split run Inl)
  next
    case (Inr px)
    then obtain params x where r: "r = Inr (params, x)" by (cases px) auto
    then have "sendable (Ok req x) j" using send by (simp add: reply_for_def)
    from OnRequest_typed_Ok [OF run [unfolded r] tr this acc'] w nohook show ?thesis
      by (simp add: handleRequest_def disp)
  qed
qed

lemma handleRequest_hook_error_two_replies:
  assumes env: "tr_Write env = wr"
    and disp: "OnRequest h (session_SHC env) req = Handle th (session_SHC env) req"
    and run: "handler_result th (session_SHC env) req s = (Ret (Inr (params, x)), s1)"
    and tr: "s_transport s1 = Some t"
    and send: "sendable (Ok req x) j"
    and acc: "wr (wire_of_json j) t = (Ret None, t1)"
    and hook: "rt_OnAfterReply (th_type th) = Some prh"
      "prh params (session_SHC env) (s1\<lparr>s_transport := Some t1\<rparr>) = (Ret (Some e), s2)"
      "s_transport s2 = Some t2"
    and send2: "sendable (NotOk req (ToResponseError e)) j2"
    and acc2: "wr (wire_of_json j2) t2 = (Ret None, t3)"
  shows "handleRequest env (Some h) req s = (Ret (), s2\<lparr>s_transport := Some t3\<rparr>) \<and>
     written t1 = written t @ [wire_of_json j] \<and> written t3 = written t2 @ [wire_of_json j2]"
proof -
  have acc': "tr_Write env (wire_of_json j) t = (Ret None, t1)"
    and acc2': "tr_Write env (wire_of_json j2) t2 = (Ret None, t3)"
    using acc acc2 env by simp_all
  have "Handle th (session_SHC env) req s = (Ret (Some e), s2)"
    using OnRequest_typed_Ok [OF run tr send acc'] hook by simp
  then show ?thesis
    using sendMessage_sendable [OF send2 hook(3) acc2'] write_accepted [OF acc] write_accepted [OF acc2]
    by (simp add: handleRequest_def disp)
qed

end

subsection \<open>What other goroutines do to the table while a caller waits\<close>

text \<open>
  While a request with ID \<open>i\<close> waits on the channel at address \<open>h\<close>, other goroutines
  resolve responses, register and give up other requests, and take from other channels.
\<close>

inductive pendings_step :: "string \<Rightarrow> nat \<Rightarrow> pendings \<Rightarrow> pendings \<Rightarrow> bool" for i h where
  ps_resolve: "resolvePendingRequest r p = Ret p' \<Longrightarrow> pendings_step i h p p'"
| ps_register: "j \<noteq> i \<Longrightarrow> newPendingRequest j p = (pr, p') \<Longrightarrow> pendings_step i h p p'"
| ps_delete: "j \<noteq> i \<Longrightarrow> pendings_step i h p (deletePendingRequest j p)"
| ps_take: "a \<noteq> h \<Longrightarrow> recv_chan (pr_chans p a) = Ret (y, c) \<Longrightarrow>
    pendings_step i h p (p\<lparr>pr_chans := (pr_chans p)(a := c)\<rparr>)"

text \<open>The caller's channel is empty and in the table, or holds one response with its ID.\<close>

definition waits :: "string \<Rightarrow> nat \<Rightarrow> pendings \<Rightarrow> bool" where
  "waits i h p \<longleftrightarrow> pendings_ok p \<and> h < pr_next p \<and>
     ((waiting_on p i = Some h \<and> answer_in p h = []) \<or>
      ((\<forall>j. waiting_on p j \<noteq> Some h) \<and> (\<exists>r. answer_in p h = [r] \<and> Response_ID r = i)))"

lemma waits_new:
  "pendings_ok p \<Longrightarrow> newPendingRequest i p = (pr, p') \<Longrightarrow> waits i (pr_ch pr) p'"
  using newPendingRequest_ok [of p i]
  by (auto simp: waits_def newPendingRequest_def Let_def waiting_on_def answer_in_def)

lemma pr_next_resolve: "resolvePendingRequest r p = Ret p' \<Longrightarrow> pr_next p' = pr_next p"
  by (auto simp: resolvePendingRequest_def bind_go_eq_Ret split: option.splits)

lemma waits_resolve:
  assumes w: "waits i h p" and res: "resolvePendingRequest r p = Ret p'"
  shows "waits i h p'"
proof -
  have ok: "pendings_ok p" using w by (simp add: waits_def)
  have ok': "pendings_ok p'" using ok res by (rule resolve_ok)
  have nxt: "h < pr_next p'" using w res by (simp add: waits_def pr_next_resolve)
  have wait': "waiting_on p' = (waiting_on p)(Response_ID r := None)"
    by (rule pend.waiting_resolve [OF ok res])
  show ?thesis
  proof (cases "waiting_on p (Response_ID r)")
    case None
    with res ok w show ?thesis by (simp add: pend.resolve_unknown)
  next
    case (Some h')
    have ans': "answer_in p' = (answer_in p)(h' := [r])"
      by (rule pend.answer_resolve [OF ok Some res])
    show ?thesis
    proof (cases "h' = h")
      case True
      with w Some have i: "Response_ID r = i" "waiting_on p i = Some h"
        using pend.waiting_inj [OF ok] by (auto simp: waits_def)
      have "waiting_on p' j \<noteq> Some h" for j
        using pend.waiting_inj [OF ok i(2), of j] i(1) by (auto simp: wait')
      with ok' nxt ans' True i(1) show ?thesis by (simp add: waits_def)
    next
      case False
      with w Some ok' nxt ans' wait' show ?thesis
        by (auto simp: waits_def)
    qed
  qed
qed

lemma waits_step: "pendings_step i h p p' \<Longrightarrow> waits i h p \<Longrightarrow> waits i h p'"
proof (induction rule: pendings_step.induct)
  case (ps_resolve r p p')
  then show ?case by (auto intro: waits_resolve)
next
  case (ps_register j p pr p')
  have ok: "pendings_ok p" using ps_register(3) by (simp add: waits_def)
  have reg: "register_request j p = (pr_ch pr, p')"
    using ps_register(2) by (simp add: register_request_def)
  have fresh: "pr_ch pr = pr_next p" "pr_next p' = Suc (pr_next p)"
    using ps_register(2) by (auto simp: newPendingRequest_def Let_def)
  show ?case
    using ps_register(1,3) pend.waiting_register [OF ok reg] pend.answer_register [OF ok reg]
      pend.invar_register [OF ok reg] fresh
    by (auto simp: waits_def)
next
  case (ps_delete j p)
  then show ?case
    by (auto simp: waits_def delete_ok pend.waiting_cancel pend.answer_cancel)
      (simp_all add: deletePendingRequest_def)
next
  case (ps_take a p y c)
  then have ok: "pendings_ok p" by (simp add: waits_def)
  have unmapped: "pendingRequests p j = Some pr \<Longrightarrow> pr_ch pr \<noteq> a" for j pr
    using pendings_ok_entry [OF ok, of j pr] ps_take(2) by (auto simp: recv_chan_def)
  then have "pendings_ok (p\<lparr>pr_chans := (pr_chans p)(a := c)\<rparr>)"
    using ok by (auto simp: pendings_ok_def)
  with ps_take show ?case by (simp add: waits_def waiting_on_def answer_in_def)
qed

lemma waits_steps: "(pendings_step i h)\<^sup>*\<^sup>* p p' \<Longrightarrow> waits i h p \<Longrightarrow> waits i h p'"
  by (rule rtranclp_invariant [where step = "pendings_step i h" and I = "waits i h"]) (auto intro: waits_step)

text \<open>
  C3. A request gets its own response: however other goroutines resolve, register, give up
  and take their own responses while \<open>Session.Request\<close> waits, when it returns a response
  that response carries the request's ID and no error. All that is assumed of the others
  is that they leave this call's ID and the channel it made (the next free one) alone.
\<close>

theorem request_returns_own_response:
  assumes "pendings_ok (s_pending s)"
    and rely: "\<And>s1. (pendings_step (fresh_ID env s) (pr_next (s_pending s)))\<^sup>*\<^sup>*
      (s_pending s1) (s_pending (others env s1))"
    and ret: "Session_Request env n payload s = (Ret (Inr resp), s')"
  shows "Response_ID resp = fresh_ID env s \<and> Response_Ok resp"
proof -
  define req where "req = NewRequest (fresh_ID env s) n payload"
  have id: "req_ID req = fresh_ID env s" by (simp add: req_def constructor_defs)
  obtain pr p where new: "newPendingRequest (req_ID req) (s_pending s) = (pr, p)"
    by (cases "newPendingRequest (req_ID req) (s_pending s)")
  have w0: "waits (fresh_ID env s) (pr_ch pr) p"
    using waits_new [OF assms(1) new] id by simp
  have h: "pr_next (s_pending s) = pr_ch pr" using new by (auto simp: newPendingRequest_def Let_def)
  obtain v s1 where sent: "sendMessage env (MRequest req) (s\<lparr>s_pending := p\<rparr>) = (v, s1)"
    by (cases "sendMessage env (MRequest req) (s\<lparr>s_pending := p\<rparr>)")
  have ret': "await_response env req pr s1 = (Ret (Inr resp), s')"
    using ret new sent
    by (auto simp: Session_Request_def Let_def req_def bind_io_apply split: go.splits option.splits)
  have "s_pending s1 = p" using sendMessage_frame [OF sent] by auto
  then have "waits (fresh_ID env s) (pr_ch pr) (s_pending (others env s1))"
    using waits_steps [OF rely [of s1]] w0 h by simp
  moreover from ret' have "answer_in (s_pending (others env s1)) (pr_ch pr) \<noteq> [] \<and>
      hd (answer_in (s_pending (others env s1)) (pr_ch pr)) = resp \<and> Error resp = None"
    by (auto simp: await_response_def Let_def answer_in_def recv_chan_def
        split: option.splits go.splits list.splits if_splits)
  ultimately show ?thesis by (auto simp: waits_def Response_Ok_def)
qed

text \<open>
  A request that cannot be sent leaves its table entry behind: when \<open>Session.Request\<close>
  fails in \<open>sendMessage\<close> it returns without deleting the entry it registered.
\<close>

theorem failed_send_leaks_entry:
  assumes "Session_Request env n payload s = (Ret (Inl (Wrap2 ErrRequestFailed e)), s')"
  shows "pendingRequests (s_pending s') (fresh_ID env s)
     = Some \<lparr>pr_id = fresh_ID env s, pr_ch = pr_next (s_pending s)\<rparr>"
proof -
  define req where "req = NewRequest (fresh_ID env s) n payload"
  have id: "req_ID req = fresh_ID env s" by (simp add: req_def constructor_defs)
  obtain pr p where new: "newPendingRequest (req_ID req) (s_pending s) = (pr, p)"
    by (cases "newPendingRequest (req_ID req) (s_pending s)")
  obtain v s1 where sent: "sendMessage env (MRequest req) (s\<lparr>s_pending := p\<rparr>) = (v, s1)"
    by (cases "sendMessage env (MRequest req) (s\<lparr>s_pending := p\<rparr>)")
  have "await_response env req pr s1 \<noteq> (Ret (Inl (Wrap2 ErrRequestFailed e)), s')"
    by (auto simp: await_response_def Let_def split: option.splits go.splits prod.splits)
  then have "s' = s1"
    using assms new sent
    by (auto simp: Session_Request_def Let_def req_def bind_io_apply split: go.splits option.splits)
  moreover have "s_pending s1 = p" using sendMessage_frame [OF sent] by auto
  moreover have "pendingRequests p (fresh_ID env s)
      = Some \<lparr>pr_id = fresh_ID env s, pr_ch = pr_next (s_pending s)\<rparr>"
    using new by (auto simp: newPendingRequest_def Let_def id)
  ultimately show ?thesis by simp
qed

text \<open>
  A concrete environment for the witnesses: a transport that records what is written, the
  fixed ID \<open>a\<close>, and a peer whose response to it arrives while the caller waits.
\<close>

definition sample_response :: Response where
  "sample_response = newResponseWithVersion ''1'' ''a'' (ADyn (JInt 7)) None"

definition sample_env :: "(wire list, wire list session) env" where
  "sample_env =
     \<lparr>tr_Write = (\<lambda>w t. (Ret None, t @ [w])), fresh_ID = (\<lambda>_. ''a''),
      others = (\<lambda>s. case resolvePendingRequest sample_response (s_pending s) of
         Ret p \<Rightarrow> s\<lparr>s_pending := p\<rparr> | _ \<Rightarrow> s),
      ctx_done = (\<lambda>_. None), audio_ClearReadBuffer = return_io (Inr 0)\<rparr>"

definition sample_session :: "wire list session" where
  "sample_session =
     \<lparr>s_id = ''s'', s_state = SessionStateActive, s_transport = Some [], s_pending = no_pendings,
      s_once = OnceNew, s_trigger = False, s_final = False\<rparr>"

text \<open>
  Another caller's request \<open>b\<close> has been answered; while our caller waits, that caller takes
  its answer, a request \<open>c\<close> is registered, and then our response arrives.
\<close>

definition other_response :: Response where
  "other_response = newResponseWithVersion ''1'' ''b'' (ADyn (JInt 8)) None"

definition busy_pendings :: pendings where
  "busy_pendings = no_pendings\<lparr>pr_chans := (\<lambda>_. make_chan 1)(0 := (make_chan 1)\<lparr>ch_buf := [other_response]\<rparr>),
     pr_next := 1\<rparr>"

definition take_answer :: "nat \<Rightarrow> pendings \<Rightarrow> pendings" where
  "take_answer a p = (case recv_chan (pr_chans p a) of
      Ret (y, c) \<Rightarrow> p\<lparr>pr_chans := (pr_chans p)(a := c)\<rparr> | _ \<Rightarrow> p)"

definition busy_others :: "pendings \<Rightarrow> pendings" where
  "busy_others p = (let p1 = snd (newPendingRequest ''c'' (take_answer 0 p)) in
     case resolvePendingRequest sample_response p1 of Ret p2 \<Rightarrow> p2 | _ \<Rightarrow> p1)"

definition busy_env :: "(wire list, wire list session) env" where
  "busy_env = sample_env\<lparr>others := (\<lambda>s. s\<lparr>s_pending := busy_others (s_pending s)\<rparr>)\<rparr>"

lemma busy_pendings_reached:
  "newPendingRequest ''b'' no_pendings = (\<lparr>pr_id = ''b'', pr_ch = 0\<rparr>, snd (newPendingRequest ''b'' no_pendings))
   \<and> resolvePendingRequest other_response (snd (newPendingRequest ''b'' no_pendings)) = Ret busy_pendings"
  by (auto simp: newPendingRequest_def Let_def no_pendings_def resolvePendingRequest_def other_response_def
      constructor_defs send_chan_def make_chan_def busy_pendings_def)

lemma busy_rely: "(pendings_step ''a'' (Suc 0))\<^sup>*\<^sup>* p (busy_others p)"
proof -
  have 1: "(pendings_step ''a'' (Suc 0))\<^sup>*\<^sup>* p (take_answer 0 p)"
    by (auto simp: take_answer_def split: go.split intro: r_into_rtranclp ps_take)
  obtain pr p1 where new: "newPendingRequest ''c'' (take_answer 0 p) = (pr, p1)" by fastforce
  have 2: "pendings_step ''a'' (Suc 0) (take_answer 0 p) p1" by (rule ps_register [OF _ new]) simp
  have 3: "(pendings_step ''a'' (Suc 0))\<^sup>*\<^sup>* p1 (busy_others p)"
    using new by (auto simp: busy_others_def split: go.split intro: r_into_rtranclp ps_resolve)
  show ?thesis by (rule rtranclp_trans [OF rtranclp.rtrancl_into_rtrancl [OF 1 2] 3])
qed

text \<open>What our caller finds when it has waited.\<close>

lemma busy_waited:
  assumes "p = snd (newPendingRequest ''a'' busy_pendings)"
  shows "recv_chan (pr_chans (busy_others p) (Suc 0)) = Ret (Some sample_response, make_chan 1)"
    and "answer_in (busy_others p) 0 = []"
proof -
  have p: "p = busy_pendings\<lparr>pr_chans := (pr_chans busy_pendings)(Suc 0 := make_chan 1), pr_next := 2,
      pendingRequests := [''a'' \<mapsto> \<lparr>pr_id = ''a'', pr_ch = Suc 0\<rparr>]\<rparr>"
    by (simp add: assms newPendingRequest_def Let_def busy_pendings_def no_pendings_def)
  have taken: "take_answer 0 p = p\<lparr>pr_chans := (pr_chans p)(0 := make_chan 1)\<rparr>"
    by (simp add: p take_answer_def recv_chan_def busy_pendings_def make_chan_def)
  define p1 where "p1 = snd (newPendingRequest ''c'' (take_answer 0 p))"
  have old: "pendingRequests p ''a'' = Some \<lparr>pr_id = ''a'', pr_ch = Suc 0\<rparr>" "pr_chans p (Suc 0) = make_chan 1"
    "pr_next p = 2" by (simp_all add: p)
  have p1: "pendingRequests p1 ''a'' = Some \<lparr>pr_id = ''a'', pr_ch = Suc 0\<rparr>" "pr_chans p1 (Suc 0) = make_chan 1"
    "pr_chans p1 0 = make_chan 1"
    unfolding p1_def taken using old by (simp_all add: newPendingRequest_def Let_def)
  have id: "Response_ID sample_response = ''a''" by (simp add: sample_response_def constructor_defs)
  have "busy_others p = p1\<lparr>pr_chans := (pr_chans p1)(Suc 0 := (make_chan 1)\<lparr>ch_buf := [sample_response]\<rparr>),
      pendingRequests := (pendingRequests p1)(''a'' := None)\<rparr>"
    by (simp add: busy_others_def p1_def [symmetric] resolvePendingRequest_def id p1 send_chan_def make_chan_def)
  then show "recv_chan (pr_chans (busy_others p) (Suc 0)) = Ret (Some sample_response, make_chan 1)"
    and "answer_in (busy_others p) 0 = []"
    using p1(3) by (simp_all add: recv_chan_def answer_in_def make_chan_def)
qed

lemma request_returns_own_response_witness:
  "\<exists>s'. Session_Request busy_env ''ping'' ANil (sample_session\<lparr>s_pending := busy_pendings\<rparr>)
       = (Ret (Inr sample_response), s')
     \<and> answer_in busy_pendings 0 = [other_response] \<and> answer_in (s_pending s') 0 = []
     \<and> Response_ID sample_response = ''a''"
proof -
  let ?s = "sample_session\<lparr>s_pending := busy_pendings\<rparr>" and ?req = "NewRequest ''a'' ''ping'' ANil"
  define p where "p = snd (newPendingRequest ''a'' busy_pendings)"
  have new: "newPendingRequest ''a'' busy_pendings = (\<lparr>pr_id = ''a'', pr_ch = Suc 0\<rparr>, p)"
    by (simp add: p_def newPendingRequest_def Let_def busy_pendings_def)
  have id: "req_ID ?req = ''a''" by (simp add: constructor_defs)
  have sent: "\<exists>t. sendMessage busy_env (MRequest ?req) (sample_session\<lparr>s_pending := p\<rparr>)
      = (Ret None, sample_session\<lparr>s_pending := p, s_transport := Some t\<rparr>)"
    by (simp add: sendMessage_def write_transport_def busy_env_def sample_env_def sample_session_def
        constructor_defs Request_Validate_def validateBase_def Version_def wrap_verdict_def
        marshal_Request_def any_field_def)
  then obtain t where t: "sendMessage busy_env (MRequest ?req) (sample_session\<lparr>s_pending := p\<rparr>)
      = (Ret None, sample_session\<lparr>s_pending := p, s_transport := Some t\<rparr>)" ..
  have waited: "recv_chan (pr_chans (busy_others p) (Suc 0)) = Ret (Some sample_response, make_chan 1)"
    "answer_in (busy_others p) 0 = []" using busy_waited [OF p_def] .
  have env: "fresh_ID busy_env w = ''a''" "ctx_done busy_env v = None"
    "others busy_env v = v\<lparr>s_pending := busy_others (s_pending v)\<rparr>" for v w
    by (simp_all add: busy_env_def sample_env_def)
  have "Error sample_response = None" by (simp add: sample_response_def constructor_defs)
  with waited have ret: "\<exists>s'. Session_Request busy_env ''ping'' ANil ?s = (Ret (Inr sample_response), s')
      \<and> answer_in busy_pendings 0 = [other_response] \<and> answer_in (s_pending s') 0 = []"
    by (simp add: Session_Request_def env Let_def id new t await_response_def bind_io_apply)
      (simp add: answer_in_def busy_pendings_def)
  then obtain s' where s': "Session_Request busy_env ''ping'' ANil ?s = (Ret (Inr sample_response), s')"
    and taken: "answer_in busy_pendings 0 = [other_response]" "answer_in (s_pending s') 0 = []" by blast
  have "pendings_ok no_pendings" by simp
  then have "pendings_ok (snd (newPendingRequest ''b'' no_pendings))" using newPendingRequest_ok by simp
  then have "pendings_ok (s_pending ?s)" using resolve_ok [OF _ conjunct2 [OF busy_pendings_reached]] by simp
  moreover have "(pendings_step (fresh_ID busy_env ?s) (pr_next (s_pending ?s)))\<^sup>*\<^sup>*
      (s_pending s1) (s_pending (others busy_env s1))" for s1
    using busy_rely by (simp add: busy_env_def sample_env_def busy_pendings_def)
  ultimately have "Response_ID sample_response = fresh_ID busy_env ?s"
    using request_returns_own_response [of ?s busy_env "''ping''" ANil sample_response s'] s' by blast
  with s' taken show ?thesis by (simp add: busy_env_def sample_env_def)
qed

lemma failed_send_leaks_entry_witness:
  "pendingRequests (s_pending (snd (Session_Request sample_env ''x'' (AVal (Inr JNull)
       (Invalid (Errorf ''bad''))) sample_session))) ''a'' = Some \<lparr>pr_id = ''a'', pr_ch = 0\<rparr>"
proof -
  have "\<exists>e s'. Session_Request sample_env ''x'' (AVal (Inr JNull) (Invalid (Errorf ''bad''))) sample_session
      = (Ret (Inl (Wrap2 ErrRequestFailed e)), s')"
    by (simp add: Session_Request_def sample_session_def sample_env_def
        newPendingRequest_def no_pendings_def Let_def sendMessage_def
        constructor_defs Request_Validate_def validateBase_def Version_def wrap_verdict_def)
  then obtain e s' where s': "Session_Request sample_env ''x'' (AVal (Inr JNull) (Invalid (Errorf ''bad'')))
      sample_session = (Ret (Inl (Wrap2 ErrRequestFailed e)), s')" by blast
  from failed_send_leaks_entry [OF s'] s' show ?thesis
    by (simp add: sample_env_def sample_session_def no_pendings_def)
qed

end
