(* ===== verification/Payloads.thy ===== *)
theory Payloads
  imports Replies
begin

section \<open>Payload types of protocol version 1 (package protov1)\<close>

text \<open>
  The structs of ping.go, call.go, app.go, audio.go, dtmf.go, recording.go,
  session_initialize.go, session_terminate.go and session_variables.go: their fields,
  JSON forms, decoders, method and event names, and validation. Every type is an
  interpretation of \<open>payload_codec\<close>: what a peer sends is what the typed handler gets.
  Integers are exact through the two marshalling hops up to magnitude \<open>2 ^ 53\<close>.
\<close>

definition exact_i64 :: "i64 \<Rightarrow> bool" where
  "exact_i64 w \<longleftrightarrow> \<bar>sint w\<bar> \<le> 2 ^ 53"

definition exact_int :: "int \<Rightarrow> bool" where
  "exact_int n \<longleftrightarrow> \<bar>n\<bar> \<le> 2 ^ 53"

lemma exact_int_in_i64: "exact_int n \<Longrightarrow> in_i64 n"
  by (auto simp: exact_int_def in_i64_def abs_le_iff)

lemma f64_text_sint [simp]: "exact_i64 w \<Longrightarrow> f64_text (sint w) = sint w"
  by (simp add: exact_i64_def f64_text_exact)

lemma f64_text_int [simp]: "exact_int n \<Longrightarrow> f64_text n = n"
  by (simp add: exact_int_def f64_text_exact)

lemma dec_i64_sint [simp]: "dec_i64 (JInt (sint w)) old = Inr w"
  by simp

definition str_field :: "string \<Rightarrow> string \<Rightarrow> (string \<times> json) list" where
  "str_field k v = (if v = [] then [] else [(k, JStr v)])"

definition i64_field :: "string \<Rightarrow> i64 \<Rightarrow> (string \<times> json) list" where
  "i64_field k v = (if v = 0 then [] else [(k, JInt (sint v))])"

definition doc_field :: "string \<Rightarrow> json \<Rightarrow> (string \<times> json) list" where
  "doc_field k v = (if v = JNull then [] else [(k, v)])"

fun enc_slice :: "('a \<Rightarrow> json) \<Rightarrow> 'a list option \<Rightarrow> json" where
  "enc_slice e None = JNull"
| "enc_slice e (Some xs) = JArr (map e xs)"

fun enc_map :: "(string \<times> json) list option \<Rightarrow> json" where
  "enc_map None = JNull"
| "enc_map (Some m) = JObj m"

text \<open>A Go map of decoded values: keys unique and in order, values in normal form.\<close>

definition go_map_ok :: "(string \<times> json) list option \<Rightarrow> bool" where
  "go_map_ok m \<longleftrightarrow> (case m of None \<Rightarrow> True
     | Some kvs \<Rightarrow> sorted_keys kvs \<and> (\<forall>kv \<in> set kvs. any_json (snd kv) = snd kv))"

lemma map_prod_any_id: "\<forall>kv \<in> set kvs. any_json (snd kv) = snd kv \<Longrightarrow> map (map_prod id any_json) kvs = kvs"
  by (rule map_idI) (simp add: prod_eq_iff)

lemma any_json_enc_map [simp]: "go_map_ok m \<Longrightarrow> any_json (enc_map m) = enc_map m"
  by (cases m) (simp_all add: go_map_ok_def map_prod_any_id map_put_all_id)

lemma dec_map_enc [simp]: "go_map_ok m \<Longrightarrow> dec_map (enc_map m) None = Inr m"
  by (cases m) (simp_all add: go_map_ok_def map_prod_any_id map_put_all_id)

lemma dec_string_slice: "dec_elems dec_string [] (map JStr xs) = Inr xs"
  by (induction xs) simp_all

lemma any_json_strings [simp]: "any_json (enc_slice JStr xs) = enc_slice JStr xs"
  by (cases xs) (simp_all add: comp_def)

lemma dec_strings [simp]: "dec_slice dec_string [] (enc_slice JStr xs) old = Inr xs"
  by (cases xs) (simp_all add: dec_string_slice)

lemmas payload_simps = codec_simps str_field_def i64_field_def doc_field_def

subsection \<open>ping.go\<close>

record PingRequest =
  pq_T0 :: i64
  pq_RTT :: i64
  pq_Data :: json

definition PingRequest_MethodName :: string where
  "PingRequest_MethodName = ''ping''"

definition enc_PingRequest :: "PingRequest \<Rightarrow> json" where
  "enc_PingRequest r = JObj ([(''t0'', JInt (sint (pq_T0 r)))] @ i64_field ''rtt'' (pq_RTT r) @
     doc_field ''data'' (pq_Data r))"

definition set_PingRequest :: "string \<Rightarrow> PingRequest decoder" where
  "set_PingRequest k v r =
     (if key_match ''t0'' k then dec_field dec_i64 pq_T0 pq_T0_update v r
      else if key_match ''rtt'' k then dec_field dec_i64 pq_RTT pq_RTT_update v r
      else if key_match ''data'' k then dec_field dec_any pq_Data pq_Data_update v r
      else Inr r)"

definition zero_PingRequest :: PingRequest where
  "zero_PingRequest = \<lparr>pq_T0 = 0, pq_RTT = 0, pq_Data = JNull\<rparr>"

definition PingRequest_Validate :: "PingRequest \<Rightarrow> goerr option" where
  "PingRequest_Validate r =
     (if pq_T0 r = 0 then Some (Errorf ''ping request T0 is required'') else None)"

definition ok_PingRequest :: "PingRequest \<Rightarrow> bool" where
  "ok_PingRequest r \<longleftrightarrow> exact_i64 (pq_T0 r) \<and> exact_i64 (pq_RTT r) \<and> any_json (pq_Data r) = pq_Data r"

interpretation PingRequest: payload_codec enc_PingRequest "dec_struct set_PingRequest"
    zero_PingRequest ok_PingRequest
proof
  fix x :: PingRequest
  show "any_json (enc_PingRequest x) \<noteq> JNull" by (simp add: enc_PingRequest_def)
  show "ok_PingRequest x \<Longrightarrow> dec_struct set_PingRequest (any_json (enc_PingRequest x)) zero_PingRequest = Inr x"
    by (cases "pq_RTT x = 0"; cases "pq_Data x = JNull"; cases x)
      (simp_all add: ok_PingRequest_def enc_PingRequest_def set_PingRequest_def zero_PingRequest_def
        payload_simps)
qed

definition any_PingRequest :: "PingRequest \<Rightarrow> any" where
  "any_PingRequest r = any_struct (enc_PingRequest r) (verdict_of (PingRequest_Validate r))"

record PingResponse =
  pp_T0 :: i64
  pp_T1 :: i64
  pp_T2 :: i64
  pp_OWD :: i64
  pp_Data :: json

definition enc_PingResponse :: "PingResponse \<Rightarrow> json" where
  "enc_PingResponse r = JObj ([(''t0'', JInt (sint (pp_T0 r))), (''t1'', JInt (sint (pp_T1 r))),
     (''t2'', JInt (sint (pp_T2 r))), (''owd'', JInt (sint (pp_OWD r)))] @
     doc_field ''data'' (pp_Data r))"

definition set_PingResponse :: "string \<Rightarrow> PingResponse decoder" where
  "set_PingResponse k v r =
     (if key_match ''t0'' k then dec_field dec_i64 pp_T0 pp_T0_update v r
      else if key_match ''t1'' k then dec_field dec_i64 pp_T1 pp_T1_update v r
      else if key_match ''t2'' k then dec_field dec_i64 pp_T2 pp_T2_update v r
      else if key_match ''owd'' k then dec_field dec_i64 pp_OWD pp_OWD_update v r
      else if key_match ''data'' k then dec_field dec_any pp_Data pp_Data_update v r
      else Inr r)"

definition zero_PingResponse :: PingResponse where
  "zero_PingResponse = \<lparr>pp_T0 = 0, pp_T1 = 0, pp_T2 = 0, pp_OWD = 0, pp_Data = JNull\<rparr>"

definition PingResponse_Validate :: "PingResponse \<Rightarrow> goerr option" where
  "PingResponse_Validate r =
     (if pp_T0 r = 0 then Some (Errorf ''ping response T0 is required'')
      else if pp_T1 r = 0 then Some (Errorf ''ping response T1 is required'')
      else if pp_T2 r = 0 then Some (Errorf ''ping response T2 is required'')
      else None)"

definition ok_PingResponse :: "PingResponse \<Rightarrow> bool" where
  "ok_PingResponse r \<longleftrightarrow> exact_i64 (pp_T0 r) \<and> exact_i64 (pp_T1 r) \<and> exact_i64 (pp_T2 r) \<and>
     exact_i64 (pp_OWD r) \<and> any_json (pp_Data r) = pp_Data r"

interpretation PingResponse: payload_codec enc_PingResponse "dec_struct set_PingResponse"
    zero_PingResponse ok_PingResponse
proof
  fix x :: PingResponse
  show "any_json (enc_PingResponse x) \<noteq> JNull" by (simp add: enc_PingResponse_def)
  show "ok_PingResponse x \<Longrightarrow>
      dec_struct set_PingResponse (any_json (enc_PingResponse x)) zero_PingResponse = Inr x"
    by (cases "pp_Data x = JNull"; cases x)
      (simp_all add: ok_PingResponse_def enc_PingResponse_def set_PingResponse_def
        zero_PingResponse_def payload_simps)
qed

definition any_PingResponse :: "PingResponse \<Rightarrow> any" where
  "any_PingResponse r = any_struct (enc_PingResponse r) (verdict_of (PingResponse_Validate r))"

subsection \<open>call.go, app.go, session_terminate.go\<close>

text \<open>Three requests whose payload is one or two strings.\<close>

record CallHangupRequest =
  ch_Reason :: string

definition CallHangupRequest_MethodName :: string where
  "CallHangupRequest_MethodName = ''call.hangup''"

definition enc_CallHangupRequest :: "CallHangupRequest \<Rightarrow> json" where
  "enc_CallHangupRequest r = JObj [(''reason'', JStr (ch_Reason r))]"

definition set_CallHangupRequest :: "string \<Rightarrow> CallHangupRequest decoder" where
  "set_CallHangupRequest k v r =
     (if key_match ''reason'' k then dec_field dec_string ch_Reason ch_Reason_update v r else Inr r)"

definition zero_CallHangupRequest :: CallHangupRequest where
  "zero_CallHangupRequest = \<lparr>ch_Reason = []\<rparr>"

definition CallHangupRequest_Validate :: "CallHangupRequest \<Rightarrow> goerr option" where
  "CallHangupRequest_Validate r =
     (if ch_Reason r = [] then Some (Errorf ''call.hangup request reason is required'') else None)"

definition any_CallHangupRequest :: "CallHangupRequest \<Rightarrow> any" where
  "any_CallHangupRequest r =
     any_struct (enc_CallHangupRequest r) (verdict_of (CallHangupRequest_Validate r))"

interpretation CallHangupRequest: payload_codec enc_CallHangupRequest
    "dec_struct set_CallHangupRequest" zero_CallHangupRequest "\<lambda>_. True"
  by unfold_locales
     (simp_all add: enc_CallHangupRequest_def set_CallHangupRequest_def zero_CallHangupRequest_def
        payload_simps)

record CallHangupEvent =
  he_Reason :: string

definition CallHangupEvent_EventName :: string where
  "CallHangupEvent_EventName = ''call.hangup''"

definition enc_CallHangupEvent :: "CallHangupEvent \<Rightarrow> json" where
  "enc_CallHangupEvent e = JObj (str_field ''reason'' (he_Reason e))"

definition set_CallHangupEvent :: "string \<Rightarrow> CallHangupEvent decoder" where
  "set_CallHangupEvent k v r =
     (if key_match ''reason'' k then dec_field dec_string he_Reason he_Reason_update v r else Inr r)"

definition any_CallHangupEvent :: "CallHangupEvent \<Rightarrow> any" where
  "any_CallHangupEvent e = any_struct (enc_CallHangupEvent e) NoValidate"

interpretation CallHangupEvent: payload_codec enc_CallHangupEvent
    "dec_struct set_CallHangupEvent" "\<lparr>he_Reason = []\<rparr>" "\<lambda>_. True"
  by unfold_locales
     (simp_all add: enc_CallHangupEvent_def set_CallHangupEvent_def payload_simps)

record ApplicationMoveRequest =
  am_Reason :: string
  am_ApplicationID :: string

definition ApplicationMoveRequest_MethodName :: string where
  "ApplicationMoveRequest_MethodName = ''application.move''"

definition enc_ApplicationMoveRequest :: "ApplicationMoveRequest \<Rightarrow> json" where
  "enc_ApplicationMoveRequest r = JObj (str_field ''reason'' (am_Reason r) @
     str_field ''application_id'' (am_ApplicationID r))"

definition set_ApplicationMoveRequest :: "string \<Rightarrow> ApplicationMoveRequest decoder" where
  "set_ApplicationMoveRequest k v r =
     (if key_match ''reason'' k then dec_field dec_string am_Reason am_Reason_update v r
      else if key_match ''application_id'' k
      then dec_field dec_string am_ApplicationID am_ApplicationID_update v r
      else Inr r)"

definition zero_ApplicationMoveRequest :: ApplicationMoveRequest where
  "zero_ApplicationMoveRequest = \<lparr>am_Reason = [], am_ApplicationID = []\<rparr>"

definition any_ApplicationMoveRequest :: "ApplicationMoveRequest \<Rightarrow> any" where
  "any_ApplicationMoveRequest r = any_struct (enc_ApplicationMoveRequest r) NoValidate"

interpretation ApplicationMoveRequest: payload_codec enc_ApplicationMoveRequest
    "dec_struct set_ApplicationMoveRequest" zero_ApplicationMoveRequest "\<lambda>_. True"
proof
  fix x :: ApplicationMoveRequest
  show "any_json (enc_ApplicationMoveRequest x) \<noteq> JNull"
    by (simp add: enc_ApplicationMoveRequest_def)
  show "dec_struct set_ApplicationMoveRequest (any_json (enc_ApplicationMoveRequest x))
      zero_ApplicationMoveRequest = Inr x"
    by (cases "am_Reason x = []"; cases "am_ApplicationID x = []"; cases x)
      (simp_all add: enc_ApplicationMoveRequest_def set_ApplicationMoveRequest_def
        zero_ApplicationMoveRequest_def payload_simps)
qed

record ApplicationMoveResponse =
  mr_NextApplicationID :: string

definition enc_ApplicationMoveResponse :: "ApplicationMoveResponse \<Rightarrow> json" where
  "enc_ApplicationMoveResponse r = JObj (str_field ''next_application_id'' (mr_NextApplicationID r))"

definition any_ApplicationMoveResponse :: "ApplicationMoveResponse \<Rightarrow> any" where
  "any_ApplicationMoveResponse r = any_struct (enc_ApplicationMoveResponse r) NoValidate"

record SessionTerminateRequest =
  st_Reason :: string

definition SessionTerminateRequest_MethodName :: string where
  "SessionTerminateRequest_MethodName = ''session.terminate''"

definition enc_SessionTerminateRequest :: "SessionTerminateRequest \<Rightarrow> json" where
  "enc_SessionTerminateRequest r = JObj [(''reason'', JStr (st_Reason r))]"

definition set_SessionTerminateRequest :: "string \<Rightarrow> SessionTerminateRequest decoder" where
  "set_SessionTerminateRequest k v r =
     (if key_match ''reason'' k then dec_field dec_string st_Reason st_Reason_update v r else Inr r)"

definition zero_SessionTerminateRequest :: SessionTerminateRequest where
  "zero_SessionTerminateRequest = \<lparr>st_Reason = []\<rparr>"

definition SessionTerminateRequest_Validate :: "SessionTerminateRequest \<Rightarrow> goerr option" where
  "SessionTerminateRequest_Validate r =
     (if st_Reason r = [] then Some (Errorf ''session.terminate request reason is required'')
      else None)"

definition any_SessionTerminateRequest :: "SessionTerminateRequest \<Rightarrow> any" where
  "any_SessionTerminateRequest r =
     any_struct (enc_SessionTerminateRequest r) (verdict_of (SessionTerminateRequest_Validate r))"

interpretation SessionTerminateRequest: payload_codec enc_SessionTerminateRequest
    "dec_struct set_SessionTerminateRequest" zero_SessionTerminateRequest "\<lambda>_. True"
  by unfold_locales
     (simp_all add: enc_SessionTerminateRequest_def set_SessionTerminateRequest_def
        zero_SessionTerminateRequest_def payload_simps)

subsection \<open>audio.go\<close>

text \<open>The request has no fields; decoding it accepts any object.\<close>

datatype AudioBufferClearRequest = AudioBufferClearRequest

definition AudioBufferClearRequest_MethodName :: string where
  "AudioBufferClearRequest_MethodName = ''audio.buffer.clear''"

definition enc_AudioBufferClearRequest :: "AudioBufferClearRequest \<Rightarrow> json" where
  "enc_AudioBufferClearRequest r = JObj []"

definition set_no_fields :: "string \<Rightarrow> 'a decoder" where
  "set_no_fields k v r = Inr r"

definition any_AudioBufferClearRequest :: "AudioBufferClearRequest \<Rightarrow> any" where
  "any_AudioBufferClearRequest r = any_struct (enc_AudioBufferClearRequest r) NoValidate"

interpretation AudioBufferClearRequest: payload_codec enc_AudioBufferClearRequest
    "dec_struct set_no_fields" AudioBufferClearRequest "\<lambda>_. True"
proof
  fix x :: AudioBufferClearRequest
  show "any_json (enc_AudioBufferClearRequest x) \<noteq> JNull"
    by (simp add: enc_AudioBufferClearRequest_def)
  show "dec_struct set_no_fields (any_json (enc_AudioBufferClearRequest x)) AudioBufferClearRequest = Inr x"
    by (cases x) (simp add: enc_AudioBufferClearRequest_def)
qed

record AudioBufferClearResponse =
  bc_Len :: int

definition enc_AudioBufferClearResponse :: "AudioBufferClearResponse \<Rightarrow> json" where
  "enc_AudioBufferClearResponse r = JObj [(''len'', JInt (bc_Len r))]"

definition any_AudioBufferClearResponse :: "AudioBufferClearResponse \<Rightarrow> any" where
  "any_AudioBufferClearResponse r = any_struct (enc_AudioBufferClearResponse r) NoValidate"

record AudioSpeechStartedEvent =
  ss_Origin :: string

definition AudioSpeechStartedEvent_EventName :: string where
  "AudioSpeechStartedEvent_EventName = ''audio.speech.started''"

definition enc_AudioSpeechStartedEvent :: "AudioSpeechStartedEvent \<Rightarrow> json" where
  "enc_AudioSpeechStartedEvent e = JObj [(''origin'', JStr (ss_Origin e))]"

subsection \<open>dtmf.go\<close>

record DTMFEvent =
  dt_Seq :: int
  dt_PressedAt :: i64
  dt_ReleasedAt :: i64
  dt_Digit :: string

definition DTMFEvent_EventName :: string where
  "DTMFEvent_EventName = ''dtmf''"

definition enc_DTMFEvent :: "DTMFEvent \<Rightarrow> json" where
  "enc_DTMFEvent e = JObj [(''seq'', JInt (dt_Seq e)), (''pressed_at'', JInt (sint (dt_PressedAt e))),
     (''released_at'', JInt (sint (dt_ReleasedAt e))), (''digit'', JStr (dt_Digit e))]"

definition set_DTMFEvent :: "string \<Rightarrow> DTMFEvent decoder" where
  "set_DTMFEvent k v e =
     (if key_match ''seq'' k then dec_field dec_int dt_Seq dt_Seq_update v e
      else if key_match ''pressed_at'' k then dec_field dec_i64 dt_PressedAt dt_PressedAt_update v e
      else if key_match ''released_at'' k then dec_field dec_i64 dt_ReleasedAt dt_ReleasedAt_update v e
      else if key_match ''digit'' k then dec_field dec_string dt_Digit dt_Digit_update v e
      else Inr e)"

definition zero_DTMFEvent :: DTMFEvent where
  "zero_DTMFEvent = \<lparr>dt_Seq = 0, dt_PressedAt = 0, dt_ReleasedAt = 0, dt_Digit = []\<rparr>"

definition DTMFEvent_Validate :: "DTMFEvent \<Rightarrow> goerr option" where
  "DTMFEvent_Validate e =
     (if dt_Digit e = [] then Some (Errorf ''digit is required'')
      else if dt_Seq e < 0 then Some (Errorf ''seq must be positive'')
      else if sint (dt_PressedAt e) < 0 then Some (Errorf ''pressed_at must be positive'')
      else if sint (dt_ReleasedAt e) < 0 then Some (Errorf ''released_at must be positive'')
      else if sint (dt_ReleasedAt e) < sint (dt_PressedAt e)
      then Some (Errorf ''released_at must be greater than pressed_at'')
      else None)"

definition any_DTMFEvent :: "DTMFEvent \<Rightarrow> any" where
  "any_DTMFEvent e = any_struct (enc_DTMFEvent e) (verdict_of (DTMFEvent_Validate e))"

text \<open>\<open>String\<close>; the duration is an int64 difference.\<close>

definition DTMFEvent_String :: "DTMFEvent \<Rightarrow> string" where
  "DTMFEvent_String e = ''DTMFEvent{seq='' @ show_int (dt_Seq e) @ '', digit='' @ dt_Digit e @
     '', pressed_at='' @ show_int (sint (dt_PressedAt e)) @
     '', released_at='' @ show_int (sint (dt_ReleasedAt e)) @
     '', duration='' @ show_int (sint (dt_ReleasedAt e - dt_PressedAt e)) @ ''ms}''"

definition ok_DTMFEvent :: "DTMFEvent \<Rightarrow> bool" where
  "ok_DTMFEvent e \<longleftrightarrow> exact_int (dt_Seq e) \<and> exact_i64 (dt_PressedAt e) \<and> exact_i64 (dt_ReleasedAt e)"

interpretation DTMFEvent: payload_codec enc_DTMFEvent "dec_struct set_DTMFEvent"
    zero_DTMFEvent ok_DTMFEvent
proof
  fix x :: DTMFEvent
  show "any_json (enc_DTMFEvent x) \<noteq> JNull" by (simp add: enc_DTMFEvent_def)
  show "ok_DTMFEvent x \<Longrightarrow> dec_struct set_DTMFEvent (any_json (enc_DTMFEvent x)) zero_DTMFEvent = Inr x"
    by (cases x) (simp add: ok_DTMFEvent_def enc_DTMFEvent_def set_DTMFEvent_def zero_DTMFEvent_def
        exact_int_in_i64 payload_simps)
qed

subsection \<open>recording.go\<close>

record RecordingStartRequest =
  rs_Tags :: "string list option"

definition RecordingStartRequest_MethodName :: string where
  "RecordingStartRequest_MethodName = ''recording.start''"

definition enc_RecordingStartRequest :: "RecordingStartRequest \<Rightarrow> json" where
  "enc_RecordingStartRequest r = JObj
     (case rs_Tags r of None \<Rightarrow> [] | Some [] \<Rightarrow> [] | Some ts \<Rightarrow> [(''tags'', enc_slice JStr (Some ts))])"

definition set_RecordingStartRequest :: "string \<Rightarrow> RecordingStartRequest decoder" where
  "set_RecordingStartRequest k v r =
     (if key_match ''tags'' k then dec_field (dec_slice dec_string []) rs_Tags rs_Tags_update v r
      else Inr r)"

definition zero_RecordingStartRequest :: RecordingStartRequest where
  "zero_RecordingStartRequest = \<lparr>rs_Tags = None\<rparr>"

definition any_RecordingStartRequest :: "RecordingStartRequest \<Rightarrow> any" where
  "any_RecordingStartRequest r = any_struct (enc_RecordingStartRequest r) NoValidate"

text \<open>An empty tag list is left out by \<open>omitempty\<close> and arrives as nil.\<close>

interpretation RecordingStartRequest: payload_codec enc_RecordingStartRequest
    "dec_struct set_RecordingStartRequest" zero_RecordingStartRequest "\<lambda>r. rs_Tags r \<noteq> Some []"
proof
  fix x :: RecordingStartRequest
  show "any_json (enc_RecordingStartRequest x) \<noteq> JNull"
    by (simp add: enc_RecordingStartRequest_def)
  show "rs_Tags x \<noteq> Some [] \<Longrightarrow> dec_struct set_RecordingStartRequest
      (any_json (enc_RecordingStartRequest x)) zero_RecordingStartRequest = Inr x"
    by (cases x; cases "rs_Tags x"; cases "the (rs_Tags x)")
      (simp_all add: enc_RecordingStartRequest_def set_RecordingStartRequest_def
        zero_RecordingStartRequest_def payload_simps dec_string_slice comp_def)
qed

record RecordingStartResponse =
  rr_ID :: string

definition enc_RecordingStartResponse :: "RecordingStartResponse \<Rightarrow> json" where
  "enc_RecordingStartResponse r = JObj [(''id'', JStr (rr_ID r))]"

definition RecordingStartResponse_Validate :: "RecordingStartResponse \<Rightarrow> goerr option" where
  "RecordingStartResponse_Validate r =
     (if rr_ID r = [] then Some (Errorf ''recording.start response ID is required'') else None)"

definition any_RecordingStartResponse :: "RecordingStartResponse \<Rightarrow> any" where
  "any_RecordingStartResponse r =
     any_struct (enc_RecordingStartResponse r) (verdict_of (RecordingStartResponse_Validate r))"

record RecordingStopRequest =
  rp_ID :: string

definition RecordingStopRequest_MethodName :: string where
  "RecordingStopRequest_MethodName = ''recording.stop''"

definition enc_RecordingStopRequest :: "RecordingStopRequest \<Rightarrow> json" where
  "enc_RecordingStopRequest r = JObj [(''id'', JStr (rp_ID r))]"

definition set_RecordingStopRequest :: "string \<Rightarrow> RecordingStopRequest decoder" where
  "set_RecordingStopRequest k v r =
     (if key_match ''id'' k then dec_field dec_string rp_ID rp_ID_update v r else Inr r)"

definition zero_RecordingStopRequest :: RecordingStopRequest where
  "zero_RecordingStopRequest = \<lparr>rp_ID = []\<rparr>"

definition RecordingStopRequest_Validate :: "RecordingStopRequest \<Rightarrow> goerr option" where
  "RecordingStopRequest_Validate r =
     (if rp_ID r = [] then Some (Errorf ''recording.stop request ID is required'') else None)"

definition any_RecordingStopRequest :: "RecordingStopRequest \<Rightarrow> any" where
  "any_RecordingStopRequest r =
     any_struct (enc_RecordingStopRequest r) (verdict_of (RecordingStopRequest_Validate r))"

interpretation RecordingStopRequest: payload_codec enc_RecordingStopRequest
    "dec_struct set_RecordingStopRequest" zero_RecordingStopRequest "\<lambda>_. True"
  by unfold_locales
     (simp_all add: enc_RecordingStopRequest_def set_RecordingStopRequest_def
        zero_RecordingStopRequest_def payload_simps)

subsection \<open>session_variables.go\<close>

record SessionSetRequest =
  sv_Data :: "(string \<times> json) list option"

definition SessionSetRequest_MethodName :: string where
  "SessionSetRequest_MethodName = ''session.set''"

definition enc_SessionSetRequest :: "SessionSetRequest \<Rightarrow> json" where
  "enc_SessionSetRequest r = JObj [(''data'', enc_map (sv_Data r))]"

definition set_SessionSetRequest :: "string \<Rightarrow> SessionSetRequest decoder" where
  "set_SessionSetRequest k v r =
     (if key_match ''data'' k then dec_field dec_map sv_Data sv_Data_update v r else Inr r)"

definition zero_SessionSetRequest :: SessionSetRequest where
  "zero_SessionSetRequest = \<lparr>sv_Data = None\<rparr>"

definition any_SessionSetRequest :: "SessionSetRequest \<Rightarrow> any" where
  "any_SessionSetRequest r = any_struct (enc_SessionSetRequest r) NoValidate"

interpretation SessionSetRequest: payload_codec enc_SessionSetRequest
    "dec_struct set_SessionSetRequest" zero_SessionSetRequest "\<lambda>r. go_map_ok (sv_Data r)"
  by unfold_locales
     (simp_all add: enc_SessionSetRequest_def set_SessionSetRequest_def zero_SessionSetRequest_def
        payload_simps)

record SessionGetRequest =
  gv_Keys :: "string list option"

definition SessionGetRequest_MethodName :: string where
  "SessionGetRequest_MethodName = ''session.get''"

definition enc_SessionGetRequest :: "SessionGetRequest \<Rightarrow> json" where
  "enc_SessionGetRequest r = JObj [(''keys'', enc_slice JStr (gv_Keys r))]"

definition set_SessionGetRequest :: "string \<Rightarrow> SessionGetRequest decoder" where
  "set_SessionGetRequest k v r =
     (if key_match ''keys'' k then dec_field (dec_slice dec_string []) gv_Keys gv_Keys_update v r
      else Inr r)"

definition zero_SessionGetRequest :: SessionGetRequest where
  "zero_SessionGetRequest = \<lparr>gv_Keys = None\<rparr>"

definition any_SessionGetRequest :: "SessionGetRequest \<Rightarrow> any" where
  "any_SessionGetRequest r = any_struct (enc_SessionGetRequest r) NoValidate"

interpretation SessionGetRequest: payload_codec enc_SessionGetRequest
    "dec_struct set_SessionGetRequest" zero_SessionGetRequest "\<lambda>_. True"
  by unfold_locales
     (simp_all add: enc_SessionGetRequest_def set_SessionGetRequest_def zero_SessionGetRequest_def
        payload_simps)

subsection \<open>session_initialize.go\<close>

record AudioCodec =
  ac_ID :: string
  ac_Name :: string
  ac_SampleRate :: int
  ac_BitDepth :: int
  ac_Channels :: int

definition newL16Codec :: "int \<Rightarrow> AudioCodec" where
  "newL16Codec sr0 =
     (let sr = (if sr0 = 0 then 8000 else sr0)
      in \<lparr>ac_ID = ''L16/'' @ show_int sr @ ''/1'', ac_Name = ''L16'', ac_SampleRate = sr,
          ac_BitDepth = 16, ac_Channels = 1\<rparr>)"

definition AudioCodecL16_8khz_mono :: AudioCodec where
  "AudioCodecL16_8khz_mono = newL16Codec 8000"

definition enc_AudioCodec :: "AudioCodec \<Rightarrow> json" where
  "enc_AudioCodec c = JObj [(''id'', JStr (ac_ID c)), (''name'', JStr (ac_Name c)),
     (''sample_rate'', JInt (ac_SampleRate c)), (''bit_depth'', JInt (ac_BitDepth c)),
     (''channels'', JInt (ac_Channels c))]"

definition set_AudioCodec :: "string \<Rightarrow> AudioCodec decoder" where
  "set_AudioCodec k v c =
     (if key_match ''id'' k then dec_field dec_string ac_ID ac_ID_update v c
      else if key_match ''name'' k then dec_field dec_string ac_Name ac_Name_update v c
      else if key_match ''sample_rate'' k then dec_field dec_int ac_SampleRate ac_SampleRate_update v c
      else if key_match ''bit_depth'' k then dec_field dec_int ac_BitDepth ac_BitDepth_update v c
      else if key_match ''channels'' k then dec_field dec_int ac_Channels ac_Channels_update v c
      else Inr c)"

definition zero_AudioCodec :: AudioCodec where
  "zero_AudioCodec = \<lparr>ac_ID = [], ac_Name = [], ac_SampleRate = 0, ac_BitDepth = 0, ac_Channels = 0\<rparr>"

definition ok_AudioCodec :: "AudioCodec \<Rightarrow> bool" where
  "ok_AudioCodec c \<longleftrightarrow> exact_int (ac_SampleRate c) \<and> exact_int (ac_BitDepth c) \<and> exact_int (ac_Channels c)"

interpretation AudioCodec: payload_codec enc_AudioCodec "dec_struct set_AudioCodec"
    zero_AudioCodec ok_AudioCodec
proof
  fix x :: AudioCodec
  show "any_json (enc_AudioCodec x) \<noteq> JNull" by (simp add: enc_AudioCodec_def)
  show "ok_AudioCodec x \<Longrightarrow> dec_struct set_AudioCodec (any_json (enc_AudioCodec x)) zero_AudioCodec = Inr x"
    by (cases x) (simp add: ok_AudioCodec_def enc_AudioCodec_def set_AudioCodec_def
        zero_AudioCodec_def exact_int_in_i64 payload_simps)
qed

record CallInfo =
  ci_ID :: string
  ci_SessionID :: string
  ci_From :: string
  ci_To :: string

definition enc_CallInfo :: "CallInfo \<Rightarrow> json" where
  "enc_CallInfo c = JObj [(''id'', JStr (ci_ID c)), (''session_id'', JStr (ci_SessionID c)),
     (''from'', JStr (ci_From c)), (''to'', JStr (ci_To c))]"

definition set_CallInfo :: "string \<Rightarrow> CallInfo decoder" where
  "set_CallInfo k v c =
     (if key_match ''id'' k then dec_field dec_string ci_ID ci_ID_update v c
      else if key_match ''session_id'' k then dec_field dec_string ci_SessionID ci_SessionID_update v c
      else if key_match ''from'' k then dec_field dec_string ci_From ci_From_update v c
      else if key_match ''to'' k then dec_field dec_string ci_To ci_To_update v c
      else Inr c)"

definition zero_CallInfo :: CallInfo where
  "zero_CallInfo = \<lparr>ci_ID = [], ci_SessionID = [], ci_From = [], ci_To = []\<rparr>"

interpretation CallInfo: payload_codec enc_CallInfo "dec_struct set_CallInfo"
    zero_CallInfo "\<lambda>_. True"
  by unfold_locales
     (simp_all add: enc_CallInfo_def set_CallInfo_def zero_CallInfo_def payload_simps)

record AppInfo =
  ai_ID :: string

definition enc_AppInfo :: "AppInfo \<Rightarrow> json" where
  "enc_AppInfo a = JObj [(''id'', JStr (ai_ID a))]"

definition set_AppInfo :: "string \<Rightarrow> AppInfo decoder" where
  "set_AppInfo k v a =
     (if key_match ''id'' k then dec_field dec_string ai_ID ai_ID_update v a else Inr a)"

interpretation AppInfo: payload_codec enc_AppInfo "dec_struct set_AppInfo"
    "\<lparr>ai_ID = []\<rparr>" "\<lambda>_. True"
  by unfold_locales (simp_all add: enc_AppInfo_def set_AppInfo_def payload_simps)

record SessionInitializeRequest =
  si_AppInfo :: AppInfo
  si_CallInfo :: CallInfo
  si_AudioCodecOfferings :: "AudioCodec list option"
  si_Metadata :: "(string \<times> json) list option"

definition SessionInitializeRequest_MethodName :: string where
  "SessionInitializeRequest_MethodName = ''session.initialize''"

definition enc_SessionInitializeRequest :: "SessionInitializeRequest \<Rightarrow> json" where
  "enc_SessionInitializeRequest r = JObj [(''application'', enc_AppInfo (si_AppInfo r)),
     (''call'', enc_CallInfo (si_CallInfo r)),
     (''audio_codec_offerings'', enc_slice enc_AudioCodec (si_AudioCodecOfferings r)),
     (''metadata'', enc_map (si_Metadata r))]"

definition set_SessionInitializeRequest :: "string \<Rightarrow> SessionInitializeRequest decoder" where
  "set_SessionInitializeRequest k v r =
     (if key_match ''application'' k
      then dec_field (dec_struct set_AppInfo) si_AppInfo si_AppInfo_update v r
      else if key_match ''call'' k
      then dec_field (dec_struct set_CallInfo) si_CallInfo si_CallInfo_update v r
      else if key_match ''audio_codec_offerings'' k
      then dec_field (dec_slice (dec_struct set_AudioCodec) zero_AudioCodec)
             si_AudioCodecOfferings si_AudioCodecOfferings_update v r
      else if key_match ''metadata'' k
      then dec_field dec_map si_Metadata si_Metadata_update v r
      else Inr r)"

definition zero_SessionInitializeRequest :: SessionInitializeRequest where
  "zero_SessionInitializeRequest = \<lparr>si_AppInfo = \<lparr>ai_ID = []\<rparr>, si_CallInfo = zero_CallInfo,
     si_AudioCodecOfferings = None, si_Metadata = None\<rparr>"

definition any_SessionInitializeRequest :: "SessionInitializeRequest \<Rightarrow> any" where
  "any_SessionInitializeRequest r = any_struct (enc_SessionInitializeRequest r) NoValidate"

definition ok_SessionInitializeRequest :: "SessionInitializeRequest \<Rightarrow> bool" where
  "ok_SessionInitializeRequest r \<longleftrightarrow> go_map_ok (si_Metadata r) \<and>
     (case si_AudioCodecOfferings r of None \<Rightarrow> True | Some cs \<Rightarrow> list_all ok_AudioCodec cs)"

lemma dec_offerings:
  assumes "case cs of None \<Rightarrow> True | Some cs \<Rightarrow> list_all ok_AudioCodec cs"
  shows "dec_slice (dec_struct set_AudioCodec) zero_AudioCodec
     (any_json (enc_slice enc_AudioCodec cs)) old = Inr cs"
  using assms
  by (cases cs) (auto simp: list_all_iff comp_def
      intro!: dec_slice_map [where e = "\<lambda>c. any_json (enc_AudioCodec c)"] AudioCodec.two_hops)

lemma set_SessionInitializeRequest_keys:
  "set_SessionInitializeRequest ''application'' v r
     = dec_field (dec_struct set_AppInfo) si_AppInfo si_AppInfo_update v r"
  "set_SessionInitializeRequest ''call'' v r
     = dec_field (dec_struct set_CallInfo) si_CallInfo si_CallInfo_update v r"
  "set_SessionInitializeRequest ''audio_codec_offerings'' v r
     = dec_field (dec_slice (dec_struct set_AudioCodec) zero_AudioCodec)
         si_AudioCodecOfferings si_AudioCodecOfferings_update v r"
  "set_SessionInitializeRequest ''metadata'' v r = dec_field dec_map si_Metadata si_Metadata_update v r"
  by (simp_all add: set_SessionInitializeRequest_def key_match_def)

lemma any_SessionInitializeRequest_fields:
  "any_json (JObj [(''application'', a), (''call'', c), (''audio_codec_offerings'', cs), (''metadata'', m)])
   = JObj [(''application'', any_json a), (''audio_codec_offerings'', any_json cs),
       (''call'', any_json c), (''metadata'', any_json m)]"
  by (simp add: payload_simps)

lemma dec_metadata:
  "go_map_ok m \<Longrightarrow> dec_map (any_json (enc_map m)) None = Inr m"
  by simp

interpretation SessionInitializeRequest: payload_codec enc_SessionInitializeRequest
    "dec_struct set_SessionInitializeRequest" zero_SessionInitializeRequest
    ok_SessionInitializeRequest
proof
  fix x :: SessionInitializeRequest
  show "any_json (enc_SessionInitializeRequest x) \<noteq> JNull"
    by (simp add: enc_SessionInitializeRequest_def)
  assume "ok_SessionInitializeRequest x"
  then have meta: "dec_map (any_json (enc_map (si_Metadata x))) None = Inr (si_Metadata x)"
    and offerings: "dec_slice (dec_struct set_AudioCodec) zero_AudioCodec
      (any_json (enc_slice enc_AudioCodec (si_AudioCodecOfferings x))) None
      = Inr (si_AudioCodecOfferings x)"
    using dec_metadata dec_offerings unfolding ok_SessionInitializeRequest_def by blast+
  show "dec_struct set_SessionInitializeRequest (any_json (enc_SessionInitializeRequest x))
      zero_SessionInitializeRequest = Inr x"
    unfolding enc_SessionInitializeRequest_def any_SessionInitializeRequest_fields
    by (simp only: dec_struct.simps(2) fold_res.simps split_conv sum.case map_sum.simps id_apply
        set_SessionInitializeRequest_keys dec_field_def zero_SessionInitializeRequest_def
        SessionInitializeRequest.select_convs SessionInitializeRequest.update_convs
        AppInfo.two_hops CallInfo.two_hops offerings meta) simp
qed

record SessionInitializeResponse =
  sr_AudioCodec :: "AudioCodec option"

definition enc_codec_ptr :: "AudioCodec option \<Rightarrow> json" where
  "enc_codec_ptr c = (case c of None \<Rightarrow> JNull | Some c \<Rightarrow> enc_AudioCodec c)"

definition enc_SessionInitializeResponse :: "SessionInitializeResponse \<Rightarrow> json" where
  "enc_SessionInitializeResponse r = JObj [(''audio_codec'', enc_codec_ptr (sr_AudioCodec r))]"

definition set_SessionInitializeResponse :: "string \<Rightarrow> SessionInitializeResponse decoder" where
  "set_SessionInitializeResponse k v r =
     (if key_match ''audio_codec'' k
      then dec_field (dec_ptr (dec_struct set_AudioCodec) zero_AudioCodec)
             sr_AudioCodec sr_AudioCodec_update v r
      else Inr r)"

definition zero_SessionInitializeResponse :: SessionInitializeResponse where
  "zero_SessionInitializeResponse = \<lparr>sr_AudioCodec = None\<rparr>"

interpretation SessionInitializeResponse: payload_codec enc_SessionInitializeResponse
    "dec_struct set_SessionInitializeResponse" zero_SessionInitializeResponse
    "\<lambda>r. case sr_AudioCodec r of None \<Rightarrow> True | Some c \<Rightarrow> ok_AudioCodec c"
proof
  fix x :: SessionInitializeResponse
  show "any_json (enc_SessionInitializeResponse x) \<noteq> JNull"
    by (simp add: enc_SessionInitializeResponse_def)
  assume ok: "case sr_AudioCodec x of None \<Rightarrow> True | Some c \<Rightarrow> ok_AudioCodec c"
  show "dec_struct set_SessionInitializeResponse (any_json (enc_SessionInitializeResponse x))
      zero_SessionInitializeResponse = Inr x"
  proof (cases "sr_AudioCodec x")
    case None
    then show ?thesis
      by (cases x) (simp add: enc_SessionInitializeResponse_def set_SessionInitializeResponse_def
          zero_SessionInitializeResponse_def enc_codec_ptr_def payload_simps)
  next
    case (Some c)
    with ok AudioCodec.ptr_two_hops [of c] show ?thesis
      by (cases x) (simp add: enc_SessionInitializeResponse_def set_SessionInitializeResponse_def
          zero_SessionInitializeResponse_def enc_codec_ptr_def codec_simps del: any_json_eq_JNull)
  qed
qed

record SessionUpdatedEvent =
  su_AudioCodec :: "AudioCodec option"

definition SessionUpdatedEvent_EventName :: string where
  "SessionUpdatedEvent_EventName = ''session.updated''"

definition enc_SessionUpdatedEvent :: "SessionUpdatedEvent \<Rightarrow> json" where
  "enc_SessionUpdatedEvent e = JObj [(''audio_codec'', enc_codec_ptr (su_AudioCodec e))]"

definition any_SessionUpdatedEvent :: "SessionUpdatedEvent \<Rightarrow> any" where
  "any_SessionUpdatedEvent e = any_struct (enc_SessionUpdatedEvent e) NoValidate"

text \<open>\<open>EmptyResponse\<close> of handler.go.\<close>

definition any_EmptyResponse :: any where
  "any_EmptyResponse = any_struct (JObj []) NoValidate"

subsection \<open>Payloads across the wire\<close>

text \<open>
  The \<open>session.initialize\<close> request arrives as it was sent: the server's typed handler
  decodes exactly the application, call, codec offerings and metadata the client sent,
  after both marshalling hops, when the numbers are within \<open>2 ^ 53\<close>, the metadata is a map
  in normal form, and nil and empty lists are told apart.
\<close>

theorem session_initialize_arrives_as_sent:
  assumes "ok_SessionInitializeRequest r"
  shows "map_sum JsonErr id (bind_res (marshal_any (received_any (any_SessionInitializeRequest r)))
      (unmarshal_ptr (dec_struct set_SessionInitializeRequest) zero_SessionInitializeRequest))
    = Inr (Some r)"
  unfolding any_SessionInitializeRequest_def SessionInitializeRequest.received_payload
  by (simp add: SessionInitializeRequest.unmarshal_sent [OF assms])

definition sample_initialize :: SessionInitializeRequest where
  "sample_initialize =
     \<lparr>si_AppInfo = \<lparr>ai_ID = ''app''\<rparr>, si_CallInfo = zero_CallInfo\<lparr>ci_From := ''1''\<rparr>,
      si_AudioCodecOfferings = Some [newL16Codec 0, newL16Codec 16000],
      si_Metadata = Some [(''k'', JInt 3)]\<rparr>"

theorem session_initialize_arrives_as_sent_witness:
  "map_sum JsonErr id (bind_res (marshal_any (received_any (any_SessionInitializeRequest sample_initialize)))
      (unmarshal_ptr (dec_struct set_SessionInitializeRequest) zero_SessionInitializeRequest))
    = Inr (Some sample_initialize)"
  by (rule session_initialize_arrives_as_sent)
    (simp add: sample_initialize_def ok_SessionInitializeRequest_def go_map_ok_def sorted_keys_def
      ok_AudioCodec_def newL16Codec_def exact_int_def f64_text_exact)

text \<open>
  Times above \<open>2 ^ 53\<close> change on the way: a \<open>T0\<close> of \<open>2 ^ 53 + 1\<close> reaches the handler as
  \<open>2 ^ 53\<close>, because the receiver first decodes the parameters into an \<open>any\<close>.
\<close>

theorem large_int64_is_rounded:
  "As (dec_struct set_PingRequest) zero_PingRequest
     (received_any (any_PingRequest \<lparr>pq_T0 = 9007199254740993, pq_RTT = 0, pq_Data = JNull\<rparr>))
   = Inr \<lparr>pq_T0 = 9007199254740992, pq_RTT = 0, pq_Data = JNull\<rparr>"
proof -
  have "bits_of 9007199254740993 = 54" by (simp add: bits_of.simps)
  then have "f64_mag 9007199254740993 = 9007199254740992"
    by (simp add: f64_mag_def round53_def Let_def)
  then have r: "f64_text 9007199254740993 = 9007199254740992"
    by (simp add: f64_text_def f64_text_mag_def Let_def)
  show ?thesis
    by (simp add: As_def received_any_def any_PingRequest_def enc_PingRequest_def set_PingRequest_def
        zero_PingRequest_def payload_simps r in_i64_def)
qed

end
