(* ===== verification/Ping.thy ===== *)
theory Ping
  imports Payloads "HOL-Library.Signed_Division"
begin

section \<open>Application-level ping (proto/protov1/ping.go)\<close>

text \<open>
  The ping request handler, the pinging client and its ticker loop. Times are int64
  milliseconds read from a clock \<open>now\<close> on the world; a \<open>time.Duration\<close> is an int64
  count of nanoseconds, so converting a difference to a duration and back can wrap.
\<close>

subsection \<open>The responder\<close>

text \<open>The type parameter \<open>*PingRequest\<close>: calling \<open>Validate\<close> on a nil pointer reads \<open>r.T0\<close>.\<close>

definition validate_ptr :: "('a \<Rightarrow> goerr option) \<Rightarrow> 'a option \<Rightarrow> goerr option go" where
  "validate_ptr v p = (case p of None \<Rightarrow> nil_deref | Some r \<Rightarrow> Ret (v r))"

definition PingRequest_type :: "(PingRequest, 'w) ReqType" where
  "PingRequest_type =
     \<lparr>rt_MethodName = PingRequest_MethodName,
      rt_Unmarshal = unmarshal_ptr (dec_struct set_PingRequest) zero_PingRequest,
      rt_Validate = Some (validate_ptr PingRequest_Validate),
      rt_OnAfterReply = None\<rparr>"

definition answer_ping ::
    "('w \<Rightarrow> i64) \<Rightarrow> Request \<Rightarrow> 'w SHC \<Rightarrow> PingRequest option \<Rightarrow> (goerr + PingResponse, 'w) io" where
  "answer_ping now r hc req = (\<lambda>w.
     (case req of
        None \<Rightarrow> (nil_deref, w)
      | Some q \<Rightarrow>
          (let t2 = now w
           in (Ret (Inr \<lparr>pp_T0 = pq_T0 q, pp_T1 = receivedAt r, pp_T2 = t2,
                  pp_OWD = t2 - pq_T0 q, pp_Data = pq_Data q\<rparr>), w))))"

definition ping_handler :: "('w \<Rightarrow> i64) \<Rightarrow> (PingRequest, PingResponse, 'w) typedRequestHandler" where
  "ping_handler now = \<lparr>th_type = PingRequest_type, th_res = any_PingResponse, th_h = answer_ping now\<rparr>"

definition NewPingHandler :: "('w \<Rightarrow> i64) \<Rightarrow> 'w RequestHandler" where
  "NewPingHandler now = HandleRequest (ping_handler now)"

subsection \<open>The client\<close>

text \<open>\<open>time.Duration(ms) * time.Millisecond\<close> and \<open>Duration.Milliseconds\<close>, which truncates.\<close>

definition Duration_ms :: "i64 \<Rightarrow> i64" where
  "Duration_ms ms = ms * 1000000"

definition Milliseconds :: "i64 \<Rightarrow> i64" where
  "Milliseconds d = word_of_int (sint d sdiv 1000000)"

definition NewPingRequest :: "i64 \<Rightarrow> PingRequest" where
  "NewPingRequest t = \<lparr>pq_T0 = t, pq_RTT = 0, pq_Data = JNull\<rparr>"

definition ping :: "('w \<Rightarrow> i64) \<Rightarrow> 'w SHC \<Rightarrow> i64 \<Rightarrow> (i64 \<times> goerr option, 'w) io" where
  "ping now h lastRTT = (\<lambda>w.
     (let pingReq = (NewPingRequest (now w))\<lparr>pq_RTT := lastRTT\<rparr> in
      bind_io (shc_Request h PingRequest_MethodName (any_PingRequest pingReq)) (\<lambda>res.
      (case res of
         Inl err \<Rightarrow> return_io (0, Some err)
       | Inr r \<Rightarrow>
      (case As (dec_struct set_PingResponse) zero_PingResponse (Result r) of
         Inl err \<Rightarrow> return_io (0, Some err)
       | Inr pingRes \<Rightarrow> (\<lambda>w'.
           (let rtt = Duration_ms (now w' - pq_T0 pingReq)
            in (Ret (Milliseconds rtt, None), w')))))) w))"

text \<open>
  \<open>StartPinger\<close>: the interval defaults to ten seconds, \<open>time.NewTicker\<close> panics on an
  interval that is not positive; the loop handles ticks until the context is done.
\<close>

definition pinger_interval :: "i64 \<Rightarrow> i64" where
  "pinger_interval d = (if d = 0 then 10 * 1000000000 else d)"

datatype pinger_event = Tick | CtxDone

fun pinger_loop :: "('w \<Rightarrow> i64) \<Rightarrow> 'w SHC \<Rightarrow> i64 \<Rightarrow> pinger_event list \<Rightarrow> (unit, 'w) io" where
  "pinger_loop now h lastRTT [] = return_io ()"
| "pinger_loop now h lastRTT (CtxDone # es) = return_io ()"
| "pinger_loop now h lastRTT (Tick # es) =
     bind_io (ping now h lastRTT) (\<lambda>(rtt, err). pinger_loop now h rtt es)"

definition StartPinger ::
    "('w \<Rightarrow> i64) \<Rightarrow> i64 \<Rightarrow> 'w SHC \<Rightarrow> pinger_event list \<Rightarrow> (unit, 'w) io" where
  "StartPinger now d h es =
     (if sint (pinger_interval d) \<le> 0
      then lift_go (Panic ''non-positive interval for NewTicker'')
      else pinger_loop now h 0 es)"

subsection \<open>Round trip times\<close>

lemma sint_mult_small:
  fixes x :: i64
  assumes "\<bar>sint x\<bar> \<le> 9223372036854"
  shows "sint (Duration_ms x) = sint x * 1000000"
proof -
  have "sint (x * 1000000) = signed_take_bit 63 (sint x * 1000000)"
    by (simp add: sint_word_ariths signed_take_bit_eq_take_bit_shift)
  also have "\<dots> = sint x * 1000000"
    using assms by (intro signed_take_bit_int_eq_self) auto
  finally show ?thesis by (simp add: Duration_ms_def)
qed

lemma Milliseconds_Duration_ms:
  assumes "\<bar>sint x\<bar> \<le> 9223372036854"
  shows "Milliseconds (Duration_ms x) = x"
  using sint_mult_small [OF assms]
  by (simp add: Milliseconds_def signed_divide_int_def abs_mult sgn_mult sgn_mult_abs mult.assoc)

text \<open>The result of one ping, given what its request returned.\<close>

lemma ping_answered:
  assumes "shc_Request h PingRequest_MethodName
      (any_PingRequest \<lparr>pq_T0 = now w, pq_RTT = lastRTT, pq_Data = JNull\<rparr>) w = (Ret (Inr r), w')"
    and "As (dec_struct set_PingResponse) zero_PingResponse (Result r) = Inr pr"
  shows "ping now h lastRTT w = (Ret (Milliseconds (Duration_ms (now w' - now w)), None), w')"
  using assms by (simp add: ping_def NewPingRequest_def Let_def)

lemma ping_failed:
  assumes "shc_Request h PingRequest_MethodName
      (any_PingRequest \<lparr>pq_T0 = now w, pq_RTT = lastRTT, pq_Data = JNull\<rparr>) w = (Ret (Inl e), w')"
  shows "ping now h lastRTT w = (Ret (0, Some e), w')"
  using assms by (simp add: ping_def NewPingRequest_def Let_def)

text \<open>
  C27. The round trip time: a ping whose request is answered by a response that decodes
  returns the milliseconds that passed between sending and receiving, whatever the
  response contains, provided they fit an int64 count of nanoseconds (292 years); the
  request carries the time of sending and the previous result.
\<close>

theorem ping_measures_elapsed_time:
  assumes "shc_Request h PingRequest_MethodName
      (any_PingRequest \<lparr>pq_T0 = now w, pq_RTT = lastRTT, pq_Data = JNull\<rparr>) w = (Ret (Inr r), w')"
    and "As (dec_struct set_PingResponse) zero_PingResponse (Result r) = Inr pr"
    and "\<bar>sint (now w' - now w)\<bar> \<le> 9223372036854"
  shows "ping now h lastRTT w = (Ret (now w' - now w, None), w')"
  using ping_answered [of h now w lastRTT r w' pr] Milliseconds_Duration_ms [OF assms(3)] assms(1,2)
  by simp

text \<open>A context whose requests take 7 ms and are answered like a ping.\<close>

definition clock_SHC :: "i64 SHC" where
  "clock_SHC =
     \<lparr>shc_Request = (\<lambda>n p w. (Ret (Inr (Ok (NewRequest ''1'' n p)
         (any_PingResponse \<lparr>pp_T0 = w, pp_T1 = w + 3, pp_T2 = w + 4, pp_OWD = 4, pp_Data = JNull\<rparr>))), w + 7)),
      shc_Respond = (\<lambda>r. return_io None), shc_Notify = (\<lambda>n p. return_io None),
      shc_ClearReadBuffer = return_io (Inr 0), shc_Close = (\<lambda>c. return_io None),
      shc_State = (\<lambda>w. SessionStateActive)\<rparr>"

theorem ping_measures_elapsed_time_witness:
  "ping (\<lambda>w. w) clock_SHC 5 1000 = (Ret (7, None), 1007)"
proof -
  have "ping (\<lambda>w. w) clock_SHC 5 1000 = (Ret ((1007 :: i64) - 1000, None), 1007)"
  proof (rule ping_measures_elapsed_time)
    show "shc_Request clock_SHC PingRequest_MethodName
        (any_PingRequest \<lparr>pq_T0 = 1000, pq_RTT = 5, pq_Data = JNull\<rparr>) 1000
      = (Ret (Inr (Ok (NewRequest ''1'' PingRequest_MethodName
          (any_PingRequest \<lparr>pq_T0 = 1000, pq_RTT = 5, pq_Data = JNull\<rparr>))
         (any_PingResponse \<lparr>pp_T0 = 1000, pp_T1 = 1003, pp_T2 = 1004, pp_OWD = 4, pp_Data = JNull\<rparr>))),
         1007)"
      by (simp add: clock_SHC_def)
    show "As (dec_struct set_PingResponse) zero_PingResponse
        (Result (Ok (NewRequest ''1'' PingRequest_MethodName
          (any_PingRequest \<lparr>pq_T0 = 1000, pq_RTT = 5, pq_Data = JNull\<rparr>))
         (any_PingResponse \<lparr>pp_T0 = 1000, pp_T1 = 1003, pp_T2 = 1004, pp_OWD = 4, pp_Data = JNull\<rparr>)))
      = Inr \<lparr>pp_T0 = 1000, pp_T1 = 1003, pp_T2 = 1004, pp_OWD = 4, pp_Data = JNull\<rparr>"
      by (simp add: As_def Ok_def any_PingResponse_def enc_PingResponse_def set_PingResponse_def
          zero_PingResponse_def payload_simps in_i64_def constructor_defs PingResponse_Validate_def
          verdict_of_def any_struct_def)
  qed simp
  then show ?thesis by simp
qed

subsection \<open>Answering\<close>

definition ping_answer_of :: "PingRequest \<Rightarrow> i64 \<Rightarrow> i64 \<Rightarrow> PingResponse" where
  "ping_answer_of q t1 t2 =
     \<lparr>pp_T0 = pq_T0 q, pp_T1 = t1, pp_T2 = t2, pp_OWD = t2 - pq_T0 q, pp_Data = pq_Data q\<rparr>"

lemma ping_handler_result:
  assumes "ok_PingRequest q" and "pq_T0 q \<noteq> 0" and "Params r = received_any (any_PingRequest q)"
    and "receivedAt r \<noteq> 0" and "now w \<noteq> 0"
  shows "handler_result (ping_handler now) h r w =
    (Ret (Inr (Some q, any_PingResponse (ping_answer_of q (receivedAt r) (now w)))), w)"
  using assms PingRequest.received_payload [of q "verdict_of (PingRequest_Validate q)"]
  by (simp add: handler_result_def ping_handler_def PingRequest_type_def any_PingRequest_def
      PingRequest.unmarshal_sent validate_params_def validate_ptr_def PingRequest_Validate_def
      answer_ping_def ping_answer_of_def Let_def any_PingResponse_def PingResponse_Validate_def)

text \<open>
  Answering a ping: a peer's valid ping request, as it arrives, is answered with its
  own \<open>T0\<close> and data, the receive time of the package as \<open>T1\<close>, the clock as \<open>T2\<close> and their
  difference \<open>T2 - T0\<close> as \<open>OWD\<close>, and the pinging side decodes exactly this answer.
\<close>

theorem ping_is_answered:
  assumes "ok_PingRequest q" and "pq_T0 q \<noteq> 0" and "Params r = received_any (any_PingRequest q)"
    and "receivedAt r \<noteq> 0" and "now w \<noteq> 0"
    and "ok_PingResponse (ping_answer_of q (receivedAt r) (now w))"
  shows "rh_Handle (NewPingHandler now) h r w =
      bind_io (shc_Respond h (Ok r (any_PingResponse (ping_answer_of q (receivedAt r) (now w)))))
        (\<lambda>e. return_io (map_option (Wrapf ''failed to respond'') e)) w
    \<and> As (dec_struct set_PingResponse) zero_PingResponse
        (received_any (any_PingResponse (ping_answer_of q (receivedAt r) (now w))))
      = Inr (ping_answer_of q (receivedAt r) (now w))"
proof -
  have "rh_Handle (NewPingHandler now) h r w =
      bind_io (shc_Respond h (Ok r (any_PingResponse (ping_answer_of q (receivedAt r) (now w)))))
        (\<lambda>e. return_io (map_option (Wrapf ''failed to respond'') e)) w"
    using ping_handler_result [of q r now w h] assms(1-5)
    by (auto simp: NewPingHandler_def HandleRequest_def Handle_split reply_and_hook_def ping_handler_def
        PingRequest_type_def bind_io_apply split: prod.split go.split option.split)
  moreover have "As (dec_struct set_PingResponse) zero_PingResponse
        (received_any (any_PingResponse (ping_answer_of q (receivedAt r) (now w))))
      = Inr (ping_answer_of q (receivedAt r) (now w))"
    unfolding any_PingResponse_def by (rule PingResponse.As_received) (rule assms(6))
  ultimately show ?thesis ..
qed

definition sample_ping :: PingRequest where
  "sample_ping = \<lparr>pq_T0 = 1000, pq_RTT = 0, pq_Data = JStr ''x''\<rparr>"

theorem ping_is_answered_witness:
  "rh_Handle (NewPingHandler (\<lambda>w. w)) clock_SHC
      ((NewRequest ''r1'' ''ping'' (received_any (any_PingRequest sample_ping)))\<lparr>receivedAt := 1003\<rparr>) 1004
    = (Ret None, 1004)"
proof -
  let ?r = "(NewRequest ''r1'' ''ping'' (received_any (any_PingRequest sample_ping)))\<lparr>receivedAt := 1003\<rparr>"
  have "ok_PingRequest sample_ping" "pq_T0 sample_ping \<noteq> 0"
    by (simp_all add: sample_ping_def ok_PingRequest_def exact_i64_def)
  moreover have "Params ?r = received_any (any_PingRequest sample_ping)" "receivedAt ?r \<noteq> 0"
    by (simp_all add: constructor_defs)
  moreover have "ok_PingResponse (ping_answer_of sample_ping (receivedAt ?r) 1004)"
    by (simp add: sample_ping_def ok_PingResponse_def ping_answer_of_def exact_i64_def constructor_defs)
  ultimately have "rh_Handle (NewPingHandler (\<lambda>w. w)) clock_SHC ?r 1004 =
      bind_io (shc_Respond clock_SHC (Ok ?r (any_PingResponse (ping_answer_of sample_ping (receivedAt ?r) 1004))))
        (\<lambda>e. return_io (map_option (Wrapf ''failed to respond'') e)) 1004"
    using ping_is_answered [of sample_ping ?r "\<lambda>w. w" 1004 clock_SHC] by simp
  then show ?thesis by (simp add: clock_SHC_def)
qed

subsection \<open>A request without params\<close>

text \<open>A request of a type whose \<open>Validate\<close> is called through the pointer.\<close>

lemma nil_params_panic:
  assumes "rt_Unmarshal (th_type t) = unmarshal_ptr dec zero"
    and "rt_Validate (th_type t) = Some (validate_ptr v)" and "Params req = ANil"
  shows "Handle t hc req w = (nil_deref, w)"
  using assms by (simp add: Handle_def validate_params_def validate_ptr_def)

text \<open>A request of a type without \<open>Validate\<close> whose handler reads through the nil pointer.\<close>

lemma nil_params_handler_panics:
  assumes "rt_Unmarshal (th_type t) = unmarshal_ptr dec zero"
    and "rt_Validate (th_type t) = None" and "Params req = ANil"
    and "th_h t req hc None w = (nil_deref, w')"
  shows "Handle t hc req w = (nil_deref, w')"
  using assms by (simp add: Handle_def validate_params_def)

definition bare_request :: "string \<Rightarrow> json" where
  "bare_request m = JObj [(''version'', JStr ''1''), (''id'', JStr ''x''), (''method'', JStr m)]"

lemma parse_bare_request:
  "m \<noteq> [] \<Longrightarrow> parseMessage (JsonText (bare_request m)) = Inr (MRequest (NewRequest ''x'' m ANil))"
  by (simp add: bare_request_def parseMessage_def set_rawMessage_def zero_rawMessage_def
      constructor_defs Version_def codec_simps)

lemma receive_bare_request:
  assumes "m \<noteq> []"
  shows "receive_package now \<lparr>dp_Data = JsonText (bare_request m), dp_ReceivedAt = t\<rparr>
    = Ret (Some (MRequest ((NewRequest ''x'' m ANil)\<lparr>receivedAt := if t = 0 then now else t\<rparr>)))"
  using assms
  by (simp add: receive_package_def ParseValidMessage_def parse_bare_request constructor_defs
      Request_Validate_def validateBase_def Version_def wrap_verdict_def)

end
