(* ===== verification/Telephony.thy ===== *)
theory Telephony
  imports Payloads GoChan
begin

section \<open>Telephony adapters (proto/protov1/telephony.go, dummyphone/phone.go)\<close>

text \<open>
  The interface \<open>TelephonyAdapter\<close>, the fake adapter of the protocol package and the
  dummy phone of the demo client. A callback is a value of a type \<open>'d\<close> (DTMF) or \<open>'h\<close>
  (hangup) that the client chooses; calling one is the event handed to the client's
  interpreter. Every method holds the adapter's mutex for its whole body, so each is
  one step. Pointers to requests may be nil.
\<close>

record ('tel, 'd, 'h) TelephonyAdapter =
  tel_Move :: "ApplicationMoveRequest option \<Rightarrow> (goerr + ApplicationMoveResponse option, 'tel) io"
  tel_Hangup :: "CallHangupRequest option \<Rightarrow> (goerr option, 'tel) io"
  tel_SessionVariablesSet :: "SessionSetRequest option \<Rightarrow> (goerr option, 'tel) io"
  tel_SessionVariablesGet :: "SessionGetRequest option \<Rightarrow> (goerr + (string \<times> json) list option, 'tel) io"
  tel_RecordingStart :: "RecordingStartRequest option \<Rightarrow> (goerr + RecordingStartResponse option, 'tel) io"
  tel_RecordingStop :: "string \<Rightarrow> (goerr option, 'tel) io"
  tel_OnDTMF :: "'d \<Rightarrow> (goerr option, 'tel) io"
  tel_OnHangup :: "'h \<Rightarrow> (goerr option, 'tel) io"

subsection \<open>The fake adapter\<close>

datatype telephony_event = EvDTMF DTMFEvent | EvHangup CallHangupEvent | EvOther

record ('d, 'h) FakeTelephonyAdapter =
  f_vars :: "(string \<times> json) list option"
  f_moved :: "ApplicationMoveRequest option"
  f_hangup :: bool
  f_events :: "telephony_event chan"
  f_dtmfHandler :: "'d option"
  f_hangupHandler :: "'h option"

definition newFakeTelephonyAdapter :: "('d, 'h) FakeTelephonyAdapter" where
  "newFakeTelephonyAdapter =
     \<lparr>f_vars = Some [], f_moved = None, f_hangup = False, f_events = make_chan 1,
      f_dtmfHandler = None, f_hangupHandler = None\<rparr>"

definition fake_OnDTMF :: "'d \<Rightarrow> (goerr option, ('d, 'h) FakeTelephonyAdapter) io" where
  "fake_OnDTMF cb = (\<lambda>f.
     (if f_dtmfHandler f \<noteq> None then (Ret (Some (Errorf ''dtmf event handler already set'')), f)
      else (Ret None, f\<lparr>f_dtmfHandler := Some cb\<rparr>)))"

definition fake_OnHangup :: "'h \<Rightarrow> (goerr option, ('d, 'h) FakeTelephonyAdapter) io" where
  "fake_OnHangup cb = (\<lambda>f.
     (if f_hangupHandler f \<noteq> None then (Ret (Some (Errorf ''hangup event handler already set'')), f)
      else (Ret None, f\<lparr>f_hangupHandler := Some cb\<rparr>)))"

text \<open>The ID comes from the third-party generator.\<close>

definition fake_RecordingStart ::
    "(('d, 'h) FakeTelephonyAdapter \<Rightarrow> string) \<Rightarrow> RecordingStartRequest option
       \<Rightarrow> (goerr + RecordingStartResponse option, ('d, 'h) FakeTelephonyAdapter) io" where
  "fake_RecordingStart gen_ID req = (\<lambda>f. (Ret (Inr (Some \<lparr>rr_ID = gen_ID f\<rparr>)), f))"

definition fake_RecordingStop :: "string \<Rightarrow> (goerr option, ('d, 'h) FakeTelephonyAdapter) io" where
  "fake_RecordingStop recordingID =
     return_io (if recordingID = [] then Some (Errorf ''recordingID is required'') else None)"

fun get_vars :: "(string \<times> json) list \<Rightarrow> string list \<Rightarrow> (string \<times> json) list \<Rightarrow> (string \<times> json) list" where
  "get_vars vars [] out = out"
| "get_vars vars (k # ks) out =
     get_vars vars ks (case map_of vars k of Some v \<Rightarrow> map_put k v out | None \<Rightarrow> out)"

definition go_entries :: "'a list option \<Rightarrow> 'a list" where
  "go_entries m = (case m of None \<Rightarrow> [] | Some xs \<Rightarrow> xs)"

definition fake_SessionVariablesGet ::
    "SessionGetRequest option
       \<Rightarrow> (goerr + (string \<times> json) list option, ('d, 'h) FakeTelephonyAdapter) io" where
  "fake_SessionVariablesGet req = (\<lambda>f.
     (case req of
        None \<Rightarrow> (nil_deref, f)
      | Some r \<Rightarrow> (Ret (Inr (Some (get_vars (go_entries (f_vars f)) (go_entries (gv_Keys r)) []))), f)))"

text \<open>Assigning into a nil map panics, but only when there is something to assign.\<close>

definition fake_SessionVariablesSet ::
    "SessionSetRequest option \<Rightarrow> (goerr option, ('d, 'h) FakeTelephonyAdapter) io" where
  "fake_SessionVariablesSet req = (\<lambda>f.
     (case req of
        None \<Rightarrow> (nil_deref, f)
      | Some r \<Rightarrow>
          (case (f_vars f, go_entries (sv_Data r)) of
             (None, _ # _) \<Rightarrow> (Panic ''assignment to entry in nil map'', f)
           | (None, []) \<Rightarrow> (Ret None, f)
           | (Some vars, kvs) \<Rightarrow> (Ret None, f\<lparr>f_vars := Some (map_put_all kvs vars)\<rparr>))))"

definition fake_Move ::
    "ApplicationMoveRequest option
       \<Rightarrow> (goerr + ApplicationMoveResponse option, ('d, 'h) FakeTelephonyAdapter) io" where
  "fake_Move req = (\<lambda>f.
     (let f' = f\<lparr>f_moved := req\<rparr> in
      case req of
        None \<Rightarrow> (nil_deref, f')
      | Some r \<Rightarrow> (Ret (Inr (Some \<lparr>mr_NextApplicationID =
          if am_ApplicationID r = [] then ''<id_of_next_node_if_any>'' else am_ApplicationID r\<rparr>)), f')))"

definition fake_Hangup ::
    "CallHangupRequest option \<Rightarrow> (goerr option, ('d, 'h) FakeTelephonyAdapter) io" where
  "fake_Hangup req = (\<lambda>f. (Ret None, f\<lparr>f_hangup := True\<rparr>))"

definition fake_telephony ::
    "(('d, 'h) FakeTelephonyAdapter \<Rightarrow> string)
       \<Rightarrow> (('d, 'h) FakeTelephonyAdapter, 'd, 'h) TelephonyAdapter" where
  "fake_telephony gen_ID =
     \<lparr>tel_Move = fake_Move, tel_Hangup = fake_Hangup,
      tel_SessionVariablesSet = fake_SessionVariablesSet,
      tel_SessionVariablesGet = fake_SessionVariablesGet,
      tel_RecordingStart = fake_RecordingStart gen_ID,
      tel_RecordingStop = fake_RecordingStop,
      tel_OnDTMF = fake_OnDTMF, tel_OnHangup = fake_OnHangup\<rparr>"

text \<open>
  Faked events: \<open>fakeSendDTMF\<close> takes one reading of the clock before it waits and uses
  it for both times; the send blocks while an event is waiting.
\<close>

definition fake_send :: "telephony_event \<Rightarrow> (unit, ('d, 'h) FakeTelephonyAdapter) io" where
  "fake_send e = (\<lambda>f.
     (case send_chan e (f_events f) of
        Ret c \<Rightarrow> (Ret (), f\<lparr>f_events := c\<rparr>)
      | Panic m \<Rightarrow> (Panic m, f)
      | Block \<Rightarrow> (Block, f)))"

definition fakeSendDTMF :: "string \<Rightarrow> i64 \<Rightarrow> (unit, ('d, 'h) FakeTelephonyAdapter) io" where
  "fakeSendDTMF digit now = fake_send
     (EvDTMF \<lparr>dt_Seq = 0, dt_PressedAt = now, dt_ReleasedAt = now, dt_Digit = digit\<rparr>)"

definition fakeHangup :: "(unit, ('d, 'h) FakeTelephonyAdapter) io" where
  "fakeHangup = fake_send (EvHangup \<lparr>he_Reason = []\<rparr>)"

text \<open>One round of the loop of \<open>Run\<close>: the callback it calls, if any; a nil callback panics.\<close>

datatype ('d, 'h) callback = CallDTMF 'd DTMFEvent | CallHangup 'h CallHangupEvent | NoCall

definition fake_Run_round :: "(('d, 'h) callback, ('d, 'h) FakeTelephonyAdapter) io" where
  "fake_Run_round = (\<lambda>f.
     (case recv_chan (f_events f) of
        Ret (x, c) \<Rightarrow>
          (let f' = f\<lparr>f_events := c\<rparr> in
           case x of
             Some (EvDTMF e) \<Rightarrow>
               (case f_dtmfHandler f of Some cb \<Rightarrow> (Ret (CallDTMF cb e), f') | None \<Rightarrow> (nil_deref, f'))
           | Some (EvHangup e) \<Rightarrow>
               (case f_hangupHandler f of Some cb \<Rightarrow> (Ret (CallHangup cb e), f') | None \<Rightarrow> (nil_deref, f'))
           | _ \<Rightarrow> (Ret NoCall, f'))
      | Panic m \<Rightarrow> (Panic m, f)
      | Block \<Rightarrow> (Block, f)))"

subsection \<open>The dummy phone\<close>

text \<open>
  \<open>EmulateHangup\<close> waits, calls the hangup callback if there is one, waits and cancels
  the phone's context; the calls it makes are listed. Four methods are not implemented.
\<close>

record ('d, 'h) PhoneSystem =
  ph_closed :: bool
  ph_cancelled :: bool
  ph_onHangup :: "'h option"
  ph_onDtmf :: "'d option"
  ph_calls :: "('d, 'h) callback list"

definition phone_New :: "('d, 'h) PhoneSystem" where
  "phone_New = \<lparr>ph_closed = False, ph_cancelled = False, ph_onHangup = None, ph_onDtmf = None,
     ph_calls = []\<rparr>"

definition phone_OnDTMF :: "'d \<Rightarrow> (goerr option, ('d, 'h) PhoneSystem) io" where
  "phone_OnDTMF cb = (\<lambda>p.
     (if ph_onDtmf p \<noteq> None then (Ret (Some (Errorf ''dtmf event handler already set'')), p)
      else (Ret None, p\<lparr>ph_onDtmf := Some cb\<rparr>)))"

definition phone_OnHangup :: "'h \<Rightarrow> (goerr option, ('d, 'h) PhoneSystem) io" where
  "phone_OnHangup cb = (\<lambda>p.
     (if ph_onHangup p \<noteq> None then (Ret (Some (Errorf ''hangup event handler already set'')), p)
      else (Ret None, p\<lparr>ph_onHangup := Some cb\<rparr>)))"

definition EmulateHangup :: "string \<Rightarrow> (goerr option, ('d, 'h) PhoneSystem) io" where
  "EmulateHangup reason = (\<lambda>p.
     (if ph_closed p then (Ret (Some (Errorf ''telephony: already shutdown'')), p)
      else (Ret None, p\<lparr>ph_cancelled := True,
        ph_calls := ph_calls p @ (case ph_onHangup p of
          None \<Rightarrow> [] | Some cb \<Rightarrow> [CallHangup cb \<lparr>he_Reason = reason\<rparr>])\<rparr>)))"

text \<open>\<open>EmulateDTMF\<close>: every digit with its two clock readings; a nil callback panics.\<close>

definition EmulateDTMF_digit :: "string \<Rightarrow> i64 \<Rightarrow> i64 \<Rightarrow> (unit, ('d, 'h) PhoneSystem) io" where
  "EmulateDTMF_digit digit t1 t2 = (\<lambda>p.
     (case ph_onDtmf p of
        None \<Rightarrow> (nil_deref, p)
      | Some cb \<Rightarrow> (Ret (), p\<lparr>ph_calls := ph_calls p @
          [CallDTMF cb \<lparr>dt_Seq = 0, dt_PressedAt = t1, dt_ReleasedAt = t2, dt_Digit = digit\<rparr>]\<rparr>)))"

fun EmulateDTMF :: "(string \<times> i64 \<times> i64) list \<Rightarrow> (unit, ('d, 'h) PhoneSystem) io" where
  "EmulateDTMF [] = return_io ()"
| "EmulateDTMF ((c, t1, t2) # cs) = bind_io (EmulateDTMF_digit c t1 t2) (\<lambda>_. EmulateDTMF cs)"

definition phone_Hangup :: "CallHangupRequest option \<Rightarrow> (goerr option, ('d, 'h) PhoneSystem) io" where
  "phone_Hangup req = (case req of None \<Rightarrow> lift_go nil_deref | Some r \<Rightarrow> EmulateHangup (ch_Reason r))"

definition phone_Move ::
    "ApplicationMoveRequest option \<Rightarrow> (goerr + ApplicationMoveResponse option, ('d, 'h) PhoneSystem) io" where
  "phone_Move req = bind_io (EmulateHangup ApplicationMoveRequest_MethodName) (\<lambda>err.
     return_io (case err of Some e \<Rightarrow> Inl e | None \<Rightarrow> Inr (Some \<lparr>mr_NextApplicationID = []\<rparr>)))"

definition dummyphone :: "(('d, 'h) PhoneSystem, 'd, 'h) TelephonyAdapter" where
  "dummyphone =
     \<lparr>tel_Move = phone_Move, tel_Hangup = phone_Hangup,
      tel_SessionVariablesSet = (\<lambda>r. lift_go (Panic ''implement me'')),
      tel_SessionVariablesGet = (\<lambda>r. lift_go (Panic ''implement me'')),
      tel_RecordingStart = (\<lambda>r. lift_go (Panic ''implement me'')),
      tel_RecordingStop = (\<lambda>i. lift_go (Panic ''implement me'')),
      tel_OnDTMF = phone_OnDTMF, tel_OnHangup = phone_OnHangup\<rparr>"

subsection \<open>The callback slots\<close>

text \<open>
  What a client relies on when it registers a callback: a free slot takes it, a taken
  slot keeps what it has and reports an error.
\<close>

locale callback_slot =
  fixes register :: "'cb \<Rightarrow> (goerr option, 's) io"
    and slot :: "'s \<Rightarrow> 'cb option"
  assumes register_free: "slot s = None \<Longrightarrow> \<exists>s'. register cb s = (Ret None, s') \<and> slot s' = Some cb"
    and register_taken: "slot s = Some cb' \<Longrightarrow> \<exists>e. register cb s = (Ret (Some e), s)"
begin

fun register_all :: "'cb list \<Rightarrow> 's \<Rightarrow> 's" where
  "register_all [] s = s"
| "register_all (cb # cbs) s = register_all cbs (snd (register cb s))"

lemma register_all_taken: "slot s = Some cb \<Longrightarrow> register_all cbs s = s"
proof (induction cbs arbitrary: s)
  case (Cons c cbs)
  from register_taken [OF Cons.prems, of c] obtain e where "register c s = (Ret (Some e), s)" by blast
  with Cons show ?case by simp
qed simp

lemma first_registration_stays:
  assumes "slot s = None" and "cbs \<noteq> []"
  shows "slot (register_all cbs s) = Some (hd cbs)"
proof -
  from assms(2) obtain cb rest where cbs: "cbs = cb # rest" by (cases cbs) auto
  from register_free [OF assms(1), of cb] obtain s'
    where "register cb s = (Ret None, s')" "slot s' = Some cb" by blast
  with cbs show ?thesis by (simp add: register_all_taken)
qed

end

interpretation fake_dtmf: callback_slot fake_OnDTMF f_dtmfHandler
  by unfold_locales (simp_all add: fake_OnDTMF_def)

interpretation fake_hangup: callback_slot fake_OnHangup f_hangupHandler
  by unfold_locales (simp_all add: fake_OnHangup_def)

interpretation phone_dtmf: callback_slot phone_OnDTMF ph_onDtmf
  by unfold_locales (simp_all add: phone_OnDTMF_def)

interpretation phone_hangup: callback_slot phone_OnHangup ph_onHangup
  by unfold_locales (simp_all add: phone_OnHangup_def)

subsection \<open>Session variables\<close>

text \<open>The contract of the two variable operations: a map that is updated and read by keys.\<close>

locale variable_store =
  fixes vset :: "(string \<times> json) list \<Rightarrow> 's \<Rightarrow> 's"
    and vget :: "string list \<Rightarrow> 's \<Rightarrow> (string \<times> json) list"
    and lookup :: "'s \<Rightarrow> string \<rightharpoonup> json"
  assumes lookup_vset: "lookup (vset kvs s) = lookup s ++ map_of (rev kvs)"
    and map_of_vget: "map_of (vget ks s) = lookup s |` set ks"
begin

lemma get_after_set: "map_of (vget ks (vset kvs s)) = (lookup s ++ map_of (rev kvs)) |` set ks"
  by (simp add: map_of_vget lookup_vset)

lemma get_after_sets:
  "map_of (vget ks (vset kvs2 (vset kvs1 s))) =
     (lookup s ++ map_of (rev (kvs1 @ kvs2))) |` set ks"
  by (simp add: map_of_vget lookup_vset)

end

lemma map_of_get_vars:
  "map_of (get_vars vars ks out) = map_of out ++ (map_of vars |` set ks)"
  by (induction ks arbitrary: out)
     (auto simp: fun_eq_iff map_add_def restrict_map_def split: option.split)

interpretation fake_vars: variable_store map_put_all "\<lambda>ks vars. get_vars vars ks []" map_of
  by unfold_locales (simp_all add: map_of_map_put_all map_of_get_vars)

lemma sorted_get_vars: "sorted_keys out \<Longrightarrow> sorted_keys (get_vars vars ks out)"
  by (induction ks arbitrary: out) (simp_all add: split: option.split)

text \<open>
  Session variables: after setting variables, reading a list of keys returns a map
  (in the order it is marshalled) that holds exactly the listed keys that are set, each
  with the last value set, and leaves the adapter as it was.
\<close>

theorem variables_set_get:
  assumes "f_vars f = Some vars" and "sv_Data sreq = Some kvs" and "gv_Keys greq = Some ks"
  shows "\<exists>f' out. fake_SessionVariablesSet (Some sreq) f = (Ret None, f')
     \<and> fake_SessionVariablesGet (Some greq) f' = (Ret (Inr (Some out)), f')
     \<and> sorted_keys out \<and> map_of out = (map_of vars ++ map_of (rev kvs)) |` set ks
     \<and> f' = f\<lparr>f_vars := f_vars f'\<rparr>"
  using fake_vars.get_after_set [where ks = ks and kvs = kvs and s = vars] assms
  by (simp add: fake_SessionVariablesSet_def fake_SessionVariablesGet_def go_entries_def
      sorted_get_vars)

theorem variables_set_get_witness:
  "\<exists>f' out. fake_SessionVariablesSet (Some \<lparr>sv_Data = Some [(''a'', JInt 1), (''b'', JNull)]\<rparr>)
       (newFakeTelephonyAdapter :: (nat, nat) FakeTelephonyAdapter) = (Ret None, f')
     \<and> fake_SessionVariablesGet (Some \<lparr>gv_Keys = Some [''b'', ''c'']\<rparr>) f' = (Ret (Inr (Some out)), f')
     \<and> sorted_keys out \<and> map_of out = [''b'' \<mapsto> JNull]
     \<and> f' = newFakeTelephonyAdapter\<lparr>f_vars := f_vars f'\<rparr>"
proof -
  have *: "((map_of [] ++ map_of (rev [(''a'', JInt 1), (''b'', JNull)])) |` set [''b'', ''c'']) = [''b'' \<mapsto> JNull]"
    by (auto simp: fun_eq_iff restrict_map_def)
  show ?thesis
    using variables_set_get [of newFakeTelephonyAdapter "[]" "\<lparr>sv_Data = Some [(''a'', JInt 1), (''b'', JNull)]\<rparr>"
        "[(''a'', JInt 1), (''b'', JNull)]" "\<lparr>gv_Keys = Some [''b'', ''c'']\<rparr>" "[''b'', ''c'']"]
    unfolding * by (simp add: newFakeTelephonyAdapter_def)
qed

end
