(* ===== verification/Client.thy ===== *)
theory Client
  imports Ping Telephony
begin

section \<open>The protocol client (proto/protov1/handler.go)\<close>

text \<open>
  \<open>ClientHandler\<close>: its state rides on the session's record, together with the state of
  its telephony adapter. Its mutex is a flag: a section entered while it is held blocks,
  and the deferred unlock also runs when the section panics. The context stored in
  \<open>ch.shc\<close> is the session's own, so the record keeps only whether it is set and the
  operations take it as an argument.
\<close>

record ('tr, 'tel) client = "'tr session" +
  ch_locked :: bool
  ch_initialized :: bool
  ch_shc_set :: bool
  ch_dtmfSeq :: i64
  ch_pinger :: bool
  ch_tel :: 'tel

record ClientHandlerConfig =
  cfg_Call :: CallInfo
  cfg_App :: AppInfo
  cfg_Metadata :: "(string \<times> json) list option"
  cfg_PingInterval :: i64
  cfg_SampleRate :: int

definition with_mu ::
    "('a, ('tr, 'tel, 'z) client_scheme) io \<Rightarrow> ('a, ('tr, 'tel, 'z) client_scheme) io" where
  "with_mu body = (\<lambda>w.
     (if ch_locked w then (Block, w)
      else case body (w\<lparr>ch_locked := True\<rparr>) of
        (Block, w') \<Rightarrow> (Block, w')
      | (r, w') \<Rightarrow> (r, w'\<lparr>ch_locked := False\<rparr>)))"

definition on_tel ::
    "('a, 'tel) io \<Rightarrow> ('a, ('tr, 'tel, 'z) client_scheme) io" where
  "on_tel f = (\<lambda>w. case f (ch_tel w) of (r, t) \<Rightarrow> (r, w\<lparr>ch_tel := t\<rparr>))"

subsection \<open>Initialisation and termination\<close>

definition sessionInitialize ::
    "('tr, 'tel, 'z) client_scheme SHC \<Rightarrow> SessionInitializeRequest
       \<Rightarrow> (goerr + SessionInitializeResponse, ('tr, 'tel, 'z) client_scheme) io" where
  "sessionInitialize h req = with_mu (\<lambda>w.
     (if ch_initialized w then (Ret (Inl (Errorf ''session already initialized'')), w)
      else bind_io (shc_Request h SessionInitializeRequest_MethodName (any_SessionInitializeRequest req))
        (\<lambda>r1. case r1 of
           Inl err \<Rightarrow> return_io (Inl err)
         | Inr r1 \<Rightarrow>
        (case As (dec_struct set_SessionInitializeResponse) zero_SessionInitializeResponse (Result r1) of
           Inl err \<Rightarrow> return_io (Inl err)
         | Inr r2 \<Rightarrow> (\<lambda>w1.
             bind_io (shc_Notify h SessionUpdatedEvent_EventName
                 (any_SessionUpdatedEvent \<lparr>su_AudioCodec = sr_AudioCodec r2\<rparr>))
               (\<lambda>_. return_io (Inr r2))
               (w1\<lparr>ch_initialized := True, ch_shc_set := True\<rparr>)))) w))"

definition sessionTerminateAndClose :: "'w SHC \<Rightarrow> string \<Rightarrow> (goerr option, 'w) io" where
  "sessionTerminateAndClose hc reason = shc_Close hc (Some
     (bind_io (shc_Request hc SessionTerminateRequest_MethodName
         (any_SessionTerminateRequest \<lparr>st_Reason = reason\<rparr>))
       (\<lambda>r. return_io (case r of Inl err \<Rightarrow> Some err | Inr _ \<Rightarrow> None))))"

definition Terminate ::
    "('tr, 'tel, 'z) client_scheme SHC \<Rightarrow> string \<Rightarrow> (goerr option, ('tr, 'tel, 'z) client_scheme) io" where
  "Terminate h reason = with_mu (\<lambda>w.
     (if \<not> ch_initialized w
      then (Ret (Some (Errorf ''termination failed: session not initialized'')), w)
      else sessionTerminateAndClose h reason w))"

definition check ::
    "('tr, 'tel, 'z) client_scheme SHC \<Rightarrow> Request \<Rightarrow> (goerr option, ('tr, 'tel, 'z) client_scheme) io" where
  "check h req = with_mu (\<lambda>w.
     (Ret (if \<not> ch_initialized w then Some (Errorf ''session not initialized'') else None), w))"

subsection \<open>The callbacks given to the telephony adapter\<close>

datatype client_callback = NotifyDTMF | NotifyHangup

definition onDTMF ::
    "('tr, 'tel, 'z) client_scheme SHC \<Rightarrow> DTMFEvent \<Rightarrow> (unit, ('tr, 'tel, 'z) client_scheme) io" where
  "onDTMF h e = (\<lambda>w.
     (let seq = ch_dtmfSeq w + 1 in
      bind_io (shc_Notify h DTMFEvent_EventName (any_DTMFEvent (e\<lparr>dt_Seq := sint (seq - 1)\<rparr>)))
        (\<lambda>_. return_io ()) (w\<lparr>ch_dtmfSeq := seq\<rparr>)))"

definition onHangup :: "'w SHC \<Rightarrow> CallHangupEvent \<Rightarrow> (unit, 'w) io" where
  "onHangup h e =
     bind_io (shc_Notify h CallHangupEvent_EventName (any_CallHangupEvent e)) (\<lambda>_.
     bind_io (shc_Request h SessionTerminateRequest_MethodName
         (any_SessionTerminateRequest \<lparr>st_Reason = ''hangup''\<rparr>)) (\<lambda>_. return_io ()))"

subsection \<open>OnBegin\<close>

definition client_OnBegin ::
    "('tel, client_callback, client_callback) TelephonyAdapter \<Rightarrow> ClientHandlerConfig
       \<Rightarrow> (('tr, 'tel, 'z) client_scheme SHC \<Rightarrow> (goerr option, ('tr, 'tel, 'z) client_scheme) io)
       \<Rightarrow> ('tr, 'tel, 'z) client_scheme SHC \<Rightarrow> (goerr option, ('tr, 'tel, 'z) client_scheme) io" where
  "client_OnBegin tel config onAudio h =
     bind_io (sessionInitialize h
         \<lparr>si_AppInfo = cfg_App config, si_CallInfo = cfg_Call config,
          si_AudioCodecOfferings = Some [newL16Codec (cfg_SampleRate config)],
          si_Metadata = cfg_Metadata config\<rparr>) (\<lambda>r.
     (case r of Inl err \<Rightarrow> return_io (Some err) | Inr _ \<Rightarrow>
     bind_io (onAudio h) (\<lambda>e1.
     (case e1 of Some err \<Rightarrow> return_io (Some err) | None \<Rightarrow>
     bind_io (on_tel (tel_OnDTMF tel NotifyDTMF)) (\<lambda>e2.
     (case e2 of Some err \<Rightarrow> return_io (Some (Wrapf ''failed to setup DTMF'' err)) | None \<Rightarrow>
     bind_io (on_tel (tel_OnHangup tel NotifyHangup)) (\<lambda>e3.
     (case e3 of Some err \<Rightarrow> return_io (Some (Wrapf ''failed to setup hangup event'' err)) | None \<Rightarrow>
       (\<lambda>w. (Ret None, w\<lparr>ch_pinger := True\<rparr>))))))))))"

subsection \<open>The request types\<close>

definition plain_type :: "string \<Rightarrow> 'a decoder \<Rightarrow> 'a \<Rightarrow> ('a, 'w) ReqType" where
  "plain_type n dec zero =
     \<lparr>rt_MethodName = n, rt_Unmarshal = unmarshal_ptr dec zero, rt_Validate = None,
      rt_OnAfterReply = None\<rparr>"

definition CallHangupRequest_type :: "(CallHangupRequest, 'w) ReqType" where
  "CallHangupRequest_type =
     \<lparr>rt_MethodName = CallHangupRequest_MethodName,
      rt_Unmarshal = unmarshal_ptr (dec_struct set_CallHangupRequest) zero_CallHangupRequest,
      rt_Validate = Some (validate_ptr CallHangupRequest_Validate),
      rt_OnAfterReply = Some (\<lambda>r hc. sessionTerminateAndClose hc ''call.hangup'')\<rparr>"

definition ApplicationMoveRequest_type :: "(ApplicationMoveRequest, 'w) ReqType" where
  "ApplicationMoveRequest_type =
     \<lparr>rt_MethodName = ApplicationMoveRequest_MethodName,
      rt_Unmarshal = unmarshal_ptr (dec_struct set_ApplicationMoveRequest) zero_ApplicationMoveRequest,
      rt_Validate = None,
      rt_OnAfterReply = Some (\<lambda>r hc. sessionTerminateAndClose hc ''application.move'')\<rparr>"

definition SessionTerminateRequest_type :: "(SessionTerminateRequest, 'w) ReqType" where
  "SessionTerminateRequest_type =
     \<lparr>rt_MethodName = SessionTerminateRequest_MethodName,
      rt_Unmarshal = unmarshal_ptr (dec_struct set_SessionTerminateRequest) zero_SessionTerminateRequest,
      rt_Validate = Some (validate_ptr SessionTerminateRequest_Validate),
      rt_OnAfterReply = Some (\<lambda>r hc. return_io None)\<rparr>"

definition RecordingStopRequest_type :: "(RecordingStopRequest, 'w) ReqType" where
  "RecordingStopRequest_type =
     \<lparr>rt_MethodName = RecordingStopRequest_MethodName,
      rt_Unmarshal = unmarshal_ptr (dec_struct set_RecordingStopRequest) zero_RecordingStopRequest,
      rt_Validate = Some (validate_ptr RecordingStopRequest_Validate),
      rt_OnAfterReply = None\<rparr>"

text \<open>A result pointer in an \<open>any\<close>; a nil pointer marshals to null, and its \<open>Validate\<close> reads through it.\<close>

definition any_ptr :: "('a \<Rightarrow> any) \<Rightarrow> verdict \<Rightarrow> 'a option \<Rightarrow> any" where
  "any_ptr f nil_verdict p = (case p of None \<Rightarrow> AVal (Inr JNull) nil_verdict | Some x \<Rightarrow> f x)"

definition empty_or_error :: "goerr option \<Rightarrow> goerr + unit" where
  "empty_or_error err = (case err of Some e \<Rightarrow> Inl e | None \<Rightarrow> Inr ())"

subsection \<open>The client's request handlers\<close>

definition call_hangup_handler ::
    "('tel, 'd, 'h) TelephonyAdapter \<Rightarrow> (CallHangupRequest, unit, ('tr, 'tel, 'z) client_scheme) typedRequestHandler" where
  "call_hangup_handler tel =
     \<lparr>th_type = CallHangupRequest_type, th_res = (\<lambda>_. any_EmptyResponse),
      th_h = (\<lambda>r hc req. bind_io (on_tel (tel_Hangup tel req)) (\<lambda>e. return_io (empty_or_error e)))\<rparr>"

definition application_move_handler ::
    "('tel, 'd, 'h) TelephonyAdapter \<Rightarrow>
     (ApplicationMoveRequest, ApplicationMoveResponse option, ('tr, 'tel, 'z) client_scheme) typedRequestHandler" where
  "application_move_handler tel =
     \<lparr>th_type = ApplicationMoveRequest_type, th_res = any_ptr any_ApplicationMoveResponse NoValidate,
      th_h = (\<lambda>r hc req. on_tel (tel_Move tel req))\<rparr>"

definition buffer_clear_handler ::
    "(AudioBufferClearRequest, AudioBufferClearResponse, 'w) typedRequestHandler" where
  "buffer_clear_handler =
     \<lparr>th_type = plain_type AudioBufferClearRequest_MethodName (dec_struct set_no_fields) AudioBufferClearRequest,
      th_res = any_AudioBufferClearResponse,
      th_h = (\<lambda>r hc req. bind_io (shc_ClearReadBuffer hc) (\<lambda>n. return_io
        (map_sum id (\<lambda>n. \<lparr>bc_Len = n\<rparr>) n)))\<rparr>"

definition session_set_handler ::
    "('tel, 'd, 'h) TelephonyAdapter \<Rightarrow> (SessionSetRequest, unit, ('tr, 'tel, 'z) client_scheme) typedRequestHandler" where
  "session_set_handler tel =
     \<lparr>th_type = plain_type SessionSetRequest_MethodName (dec_struct set_SessionSetRequest) zero_SessionSetRequest,
      th_res = (\<lambda>_. any_EmptyResponse),
      th_h = (\<lambda>r hc req. bind_io (on_tel (tel_SessionVariablesSet tel req))
        (\<lambda>e. return_io (empty_or_error e)))\<rparr>"

definition session_get_handler ::
    "('tel, 'd, 'h) TelephonyAdapter \<Rightarrow>
     (SessionGetRequest, (string \<times> json) list option, ('tr, 'tel, 'z) client_scheme) typedRequestHandler" where
  "session_get_handler tel =
     \<lparr>th_type = plain_type SessionGetRequest_MethodName (dec_struct set_SessionGetRequest) zero_SessionGetRequest,
      th_res = (\<lambda>m. any_struct (enc_map m) NoValidate),
      th_h = (\<lambda>r hc req. on_tel (tel_SessionVariablesGet tel req))\<rparr>"

definition recording_start_handler ::
    "('tel, 'd, 'h) TelephonyAdapter \<Rightarrow>
     (RecordingStartRequest, RecordingStartResponse option, ('tr, 'tel, 'z) client_scheme) typedRequestHandler" where
  "recording_start_handler tel =
     \<lparr>th_type = plain_type RecordingStartRequest_MethodName (dec_struct set_RecordingStartRequest)
        zero_RecordingStartRequest,
      th_res = any_ptr any_RecordingStartResponse ValidatePanics,
      th_h = (\<lambda>r hc req. on_tel (tel_RecordingStart tel req))\<rparr>"

definition recording_stop_handler ::
    "('tel, 'd, 'h) TelephonyAdapter \<Rightarrow> (RecordingStopRequest, unit, ('tr, 'tel, 'z) client_scheme) typedRequestHandler" where
  "recording_stop_handler tel =
     \<lparr>th_type = RecordingStopRequest_type, th_res = (\<lambda>_. any_EmptyResponse),
      th_h = (\<lambda>r hc req. case req of
          None \<Rightarrow> lift_go nil_deref
        | Some q \<Rightarrow> bind_io (on_tel (tel_RecordingStop tel (rp_ID q))) (\<lambda>e. return_io (empty_or_error e)))\<rparr>"

definition terminate_refusal :: ResponseError where
  "terminate_refusal = NotImplemented
     ''session.terminate is not supported. please use application.move or call.hangup instead''"

definition client_requests ::
    "(('tr, 'tel, 'z) client_scheme \<Rightarrow> i64) \<Rightarrow> ('tel, client_callback, client_callback) TelephonyAdapter
       \<Rightarrow> ('tr, 'tel, 'z) client_scheme RequestHandler list" where
  "client_requests now tel =
     [NewPingHandler now,
      Middleware check (HandleRequest (call_hangup_handler tel)),
      Middleware check (HandleRequest (application_move_handler tel)),
      HandleWithError SessionTerminateRequest_type terminate_refusal,
      Middleware check (HandleRequest buffer_clear_handler),
      Middleware check (HandleRequest (session_set_handler tel)),
      Middleware check (HandleRequest (session_get_handler tel)),
      Middleware check (HandleRequest (recording_start_handler tel)),
      Middleware check (HandleRequest (recording_stop_handler tel))]"

definition NewClientHandler ::
    "(('tr, 'tel, 'z) client_scheme \<Rightarrow> i64) \<Rightarrow> ('tel, client_callback, client_callback) TelephonyAdapter
       \<Rightarrow> ClientHandlerConfig
       \<Rightarrow> (('tr, 'tel, 'z) client_scheme SHC \<Rightarrow> (goerr option, ('tr, 'tel, 'z) client_scheme) io)
       \<Rightarrow> ('tr, 'tel, 'z) client_scheme SessionHandler" where
  "NewClientHandler now tel config onAudio =
     NewHandler (Some (client_OnBegin tel config onAudio)) (map ArgRequest (client_requests now tel))"

subsection \<open>Dispatch\<close>

lemmas client_defs = client_requests_def NewPingHandler_def ping_handler_def PingRequest_type_def
  call_hangup_handler_def CallHangupRequest_type_def application_move_handler_def
  ApplicationMoveRequest_type_def buffer_clear_handler_def plain_type_def session_set_handler_def
  session_get_handler_def recording_start_handler_def recording_stop_handler_def
  RecordingStopRequest_type_def HandleWithError_def SessionTerminateRequest_type_def

lemmas client_names = PingRequest_MethodName_def CallHangupRequest_MethodName_def
  ApplicationMoveRequest_MethodName_def SessionTerminateRequest_MethodName_def
  AudioBufferClearRequest_MethodName_def SessionSetRequest_MethodName_def
  SessionGetRequest_MethodName_def RecordingStartRequest_MethodName_def
  RecordingStopRequest_MethodName_def

lemma client_dispatch:
  "Method req = ''ping'' \<Longrightarrow>
     OnRequest (NewClientHandler now tel config onAudio) h req = rh_Handle (NewPingHandler now) h req"
  "Method req = ''session.terminate'' \<Longrightarrow>
     OnRequest (NewClientHandler now tel config onAudio) h req =
       rh_Handle (HandleWithError SessionTerminateRequest_type terminate_refusal) h req"
  "Method req = ''call.hangup'' \<Longrightarrow>
     OnRequest (NewClientHandler now tel config onAudio) h req =
       rh_Handle (Middleware check (HandleRequest (call_hangup_handler tel))) h req"
  "Method req = ''application.move'' \<Longrightarrow>
     OnRequest (NewClientHandler now tel config onAudio) h req =
       rh_Handle (Middleware check (HandleRequest (application_move_handler tel))) h req"
  "Method req = ''audio.buffer.clear'' \<Longrightarrow>
     OnRequest (NewClientHandler now tel config onAudio) h req =
       rh_Handle (Middleware check (HandleRequest buffer_clear_handler)) h req"
  "Method req = ''session.set'' \<Longrightarrow>
     OnRequest (NewClientHandler now tel config onAudio) h req =
       rh_Handle (Middleware check (HandleRequest (session_set_handler tel))) h req"
  "Method req = ''session.get'' \<Longrightarrow>
     OnRequest (NewClientHandler now tel config onAudio) h req =
       rh_Handle (Middleware check (HandleRequest (session_get_handler tel))) h req"
  "Method req = ''recording.start'' \<Longrightarrow>
     OnRequest (NewClientHandler now tel config onAudio) h req =
       rh_Handle (Middleware check (HandleRequest (recording_start_handler tel))) h req"
  "Method req = ''recording.stop'' \<Longrightarrow>
     OnRequest (NewClientHandler now tel config onAudio) h req =
       rh_Handle (Middleware check (HandleRequest (recording_stop_handler tel))) h req"
  by (simp_all add: NewClientHandler_def NewHandler_simps client_defs client_names)

definition guarded_methods :: "string list" where
  "guarded_methods = [''call.hangup'', ''application.move'', ''audio.buffer.clear'', ''session.set'',
     ''session.get'', ''recording.start'', ''recording.stop'']"

lemma check_uninitialized:
  "\<not> ch_initialized w \<Longrightarrow> \<not> ch_locked w \<Longrightarrow>
   check h req w = (Ret (Some (Errorf ''session not initialized'')), w)"
  by (cases w) (simp add: check_def with_mu_def)

lemma check_initialized:
  "ch_initialized w \<Longrightarrow> \<not> ch_locked w \<Longrightarrow> check h req w = (Ret None, w)"
  by (cases w) (simp add: check_def with_mu_def)

text \<open>
  C20. Before the session is initialised, every request that reaches the telephony
  adapter or the audio stream is refused with the error \<open>session not initialized\<close>,
  whatever its parameters are, and nothing changes.
\<close>

theorem uninitialized_client_refuses:
  assumes "\<not> ch_initialized w" and "\<not> ch_locked w" and "Method req \<in> set guarded_methods"
  shows "OnRequest (NewClientHandler now tel config onAudio) h req w
    = (Ret (Some (Errorf ''session not initialized'')), w)"
  using assms(3) check_uninitialized [OF assms(1,2), of h req]
  by (auto simp: guarded_methods_def client_dispatch)

text \<open>A client world for the witnesses: the fake adapter, an unused transport.\<close>

definition sample_client :: "(unit, (client_callback, client_callback) FakeTelephonyAdapter) client" where
  "sample_client =
     \<lparr>s_id = ''s1'', s_state = SessionStateActive, s_transport = None,
      s_pending = no_pendings,
      s_once = OnceNew, s_trigger = False, s_final = False,
      ch_locked = False, ch_initialized = False, ch_shc_set = False, ch_dtmfSeq = 0,
      ch_pinger = False, ch_tel = newFakeTelephonyAdapter\<rparr>"

definition sample_config :: ClientHandlerConfig where
  "sample_config = \<lparr>cfg_Call = zero_CallInfo, cfg_App = \<lparr>ai_ID = ''app''\<rparr>, cfg_Metadata = None,
     cfg_PingInterval = 0, cfg_SampleRate = 8000\<rparr>"

theorem uninitialized_client_refuses_witness:
  "\<forall>h. OnRequest (NewClientHandler (\<lambda>w. 5) (fake_telephony (\<lambda>f. ''r1'')) sample_config (\<lambda>h. return_io None))
     h (NewRequest ''x'' ''call.hangup'' ANil) sample_client
   = (Ret (Some (Errorf ''session not initialized'')), sample_client)"
  by (intro allI, rule uninitialized_client_refuses)
     (simp_all add: sample_client_def guarded_methods_def constructor_defs)

subsection \<open>Requests without params\<close>

definition crashing_methods :: "string list" where
  "crashing_methods = [''call.hangup'', ''application.move'', ''session.set'', ''session.get'', ''recording.stop'']"

lemma client_nil_params:
  assumes "Params req = ANil"
    and "Method req \<in> {''ping'', ''session.terminate''}
      \<or> Method req \<in> set crashing_methods \<and> ch_initialized w \<and> \<not> ch_locked w"
  shows "\<exists>w'. OnRequest (NewClientHandler now (fake_telephony gen) config onAudio) h req w = (nil_deref, w')"
proof -
  have checked: "check h req w = (Ret None, w)" if "ch_initialized w" "\<not> ch_locked w"
    using that by (rule check_initialized)
  note nil_defs = Handle_def client_defs validate_params_def validate_ptr_def fake_telephony_def
    on_tel_def fake_Move_def fake_SessionVariablesSet_def fake_SessionVariablesGet_def bind_io_apply
  from assms(2) consider "Method req = ''ping''" | "Method req = ''session.terminate''"
    | "Method req \<in> set crashing_methods" "check h req w = (Ret None, w)"
    using checked by auto
  then show ?thesis
  proof cases
    case 1
    then show ?thesis by (simp add: client_dispatch nil_defs assms(1))
  next
    case 2
    then show ?thesis by (simp add: client_dispatch nil_defs assms(1))
  next
    case 3
    then show ?thesis by (auto simp: crashing_methods_def client_dispatch nil_defs assms(1))
  qed
qed

text \<open>
  C34. A valid request without params crashes the client: the frame parses and
  validates, its missing params decode into a nil pointer, and \<open>Validate\<close> or the adapter
  reads through it; the panic reaches the top of the goroutine. For \<open>ping\<close> and
  \<open>session.terminate\<close> this needs no initialised session.
\<close>

theorem request_without_params_panics:
  assumes "m = ''ping'' \<or> m = ''session.terminate''
      \<or> m \<in> set crashing_methods \<and> ch_initialized w \<and> \<not> ch_locked w"
  shows "\<exists>req w'. receive_package now1 \<lparr>dp_Data = JsonText (bare_request m), dp_ReceivedAt = 7\<rparr>
        = Ret (Some (MRequest req))
     \<and> handleRequest env (Some (NewClientHandler now (fake_telephony gen) config onAudio)) req w
        = (nil_deref, w')"
proof -
  have "m \<noteq> []" using assms by (auto simp: crashing_methods_def)
  let ?req = "(NewRequest ''x'' m ANil)\<lparr>receivedAt := 7\<rparr>"
  have "Params ?req = ANil" "Method ?req = m" by (simp_all add: constructor_defs)
  with client_nil_params [of ?req w now gen config onAudio "session_SHC env"] assms obtain w'
    where "OnRequest (NewClientHandler now (fake_telephony gen) config onAudio) (session_SHC env) ?req w
      = (nil_deref, w')" by auto
  then have "handleRequest env (Some (NewClientHandler now (fake_telephony gen) config onAudio)) ?req w
      = (nil_deref, w')" by (simp add: handleRequest_def)
  with receive_bare_request [OF \<open>m \<noteq> []\<close>, of now1 7] show ?thesis by auto
qed

lemma session_get_crashing:
  "''session.get'' = ''ping'' \<or> ''session.get'' = ''session.terminate''
    \<or> ''session.get'' \<in> set crashing_methods \<and> ch_initialized (sample_client\<lparr>ch_initialized := True\<rparr>)
      \<and> \<not> ch_locked (sample_client\<lparr>ch_initialized := True\<rparr>)"
  by (simp add: crashing_methods_def sample_client_def)

theorem request_without_params_panics_witness:
  "\<forall>env. \<exists>req w'. receive_package 0 \<lparr>dp_Data = JsonText (bare_request ''session.get''), dp_ReceivedAt = 7\<rparr>
        = Ret (Some (MRequest req))
     \<and> handleRequest env (Some (NewClientHandler (\<lambda>w. 5) (fake_telephony (\<lambda>f. ''r1'')) sample_config
          (\<lambda>h. return_io None))) req (sample_client\<lparr>ch_initialized := True\<rparr>) = (nil_deref, w')"
  using request_without_params_panics [of "''session.get''" "sample_client\<lparr>ch_initialized := True\<rparr>" 0 _
      "\<lambda>w. 5" "\<lambda>f. ''r1''" sample_config "\<lambda>h. return_io None", OF session_get_crashing]
  apply -
  apply (rule allI)
  apply assumption
  done

subsection \<open>Initialisation happens once\<close>

lemma sendMessage_client_frame:
  fixes s :: "('tr, 'tel, 'z) client_scheme"
  assumes "sendMessage env m s = (r, s')"
  shows "ch_initialized s' = ch_initialized s \<and> ch_locked s' = ch_locked s
    \<and> ch_dtmfSeq s' = ch_dtmfSeq s \<and> ch_tel s' = ch_tel s"
  using sendMessage_frame [OF assms] by auto

lemma await_response_client_frame:
  fixes t :: "('tr, 'tel, 'z) client_scheme"
  assumes run: "await_response env req pr t = (r, t')"
  shows "ch_initialized t' = ch_initialized (others env t)"
proof (cases "ctx_done env (others env t)")
  case None
  define g where "g = recv_chan (pr_chans (s_pending (others env t)) (pr_ch pr))"
  from run None have run: "(case g of
        Ret (Some resp, c) \<Rightarrow>
          (Ret (case Error resp of Some e \<Rightarrow> Inl (ResponseErr e) | None \<Rightarrow> Inr resp),
           (others env t)\<lparr>s_pending := (s_pending (others env t))\<lparr>pr_chans :=
             (pr_chans (s_pending (others env t)))(pr_ch pr := c)\<rparr>\<rparr>)
      | _ \<Rightarrow> (Block, others env t)) = (r, t')"
    by (simp add: await_response_def Let_def g_def)
  show ?thesis
  proof (cases g)
    case (Ret x)
    with run show ?thesis by (cases x; cases "fst x") auto
  qed (use run in auto)
qed (use run in \<open>auto simp: await_response_def Let_def\<close>)

lemma Session_Request_client_frame:
  fixes s :: "('tr, 'tel, 'z) client_scheme"
  assumes run: "Session_Request env n p s = (r, s')"
    and others: "\<And>v. ch_initialized (others env v) = ch_initialized v"
  shows "ch_initialized s' = ch_initialized s"
proof -
  obtain pr q where q: "newPendingRequest (req_ID (NewRequest (fresh_ID env s) n p)) (s_pending s) = (pr, q)"
    by (cases "newPendingRequest (req_ID (NewRequest (fresh_ID env s) n p)) (s_pending s)") auto
  obtain g t where g: "sendMessage env (MRequest (NewRequest (fresh_ID env s) n p)) (s\<lparr>s_pending := q\<rparr>) = (g, t)"
    by (cases "sendMessage env (MRequest (NewRequest (fresh_ID env s) n p)) (s\<lparr>s_pending := q\<rparr>)") auto
  have t: "ch_initialized t = ch_initialized s"
    using sendMessage_client_frame [OF g] by simp
  have wait: "ch_initialized t' = ch_initialized t"
    if "await_response env req pr t = (r', t')" for req r' t'
    using await_response_client_frame [OF that] others by simp
  show ?thesis
    using run t wait g
    by (auto simp: Session_Request_def Let_def q bind_io_apply split: go.splits option.splits)
qed

text \<open>
  C19. Initialisation is a one-way switch: when \<open>sessionInitialize\<close> returns on a session
  that was not initialised, the mutex is free again, the client is initialised exactly
  if a decodable response came back, and then no later call sends anything: it fails
  with \<open>session already initialized\<close>. Other goroutines cannot change the flag meanwhile,
  since they would need the mutex.
\<close>

theorem sessionInitialize_once:
  fixes w w' :: "('tr, 'tel, 'z) client_scheme"
  assumes run: "sessionInitialize (session_SHC env) req w = (Ret r, w')"
    and fresh: "\<not> ch_initialized w"
    and mutex: "\<forall>v :: ('tr, 'tel, 'z) client_scheme. ch_initialized (others env v) = ch_initialized v"
  shows "\<not> ch_locked w' \<and> (ch_initialized w' \<longleftrightarrow> (\<exists>x. r = Inr x))
    \<and> (ch_initialized w' \<longrightarrow>
        sessionInitialize h' req' w' = (Ret (Inl (Errorf ''session already initialized'')), w'))"
proof -
  let ?body = "\<lambda>w. if ch_initialized w then (Ret (Inl (Errorf ''session already initialized'')), w)
      else bind_io (shc_Request (session_SHC env) SessionInitializeRequest_MethodName (any_SessionInitializeRequest req))
        (\<lambda>r1. case r1 of Inl err \<Rightarrow> return_io (Inl err)
         | Inr r1 \<Rightarrow>
        (case As (dec_struct set_SessionInitializeResponse) zero_SessionInitializeResponse (Result r1) of
           Inl err \<Rightarrow> return_io (Inl err)
         | Inr r2 \<Rightarrow> (\<lambda>w1.
             bind_io (shc_Notify (session_SHC env) SessionUpdatedEvent_EventName
                 (any_SessionUpdatedEvent \<lparr>su_AudioCodec = sr_AudioCodec r2\<rparr>))
               (\<lambda>_. return_io (Inr r2)) (w1\<lparr>ch_initialized := True, ch_shc_set := True\<rparr>)))) w"
  have unlocked: "\<not> ch_locked w"
    using run by (auto simp: sessionInitialize_def with_mu_def)
  obtain g v where body: "?body (w\<lparr>ch_locked := True\<rparr>) = (g, v)" by (cases "?body (w\<lparr>ch_locked := True\<rparr>)") auto
  have gv: "g = Ret r" "w' = v\<lparr>ch_locked := False\<rparr>"
    using run unlocked body by (auto simp: sessionInitialize_def with_mu_def split: go.splits)
  have "ch_initialized v \<longleftrightarrow> (\<exists>x. r = Inr x)"
  proof -
    have notify: "ch_initialized t' = ch_initialized t" if "EventDispatch env n p t = (r', t')"
      for n p r' and t t' :: "('tr, 'tel, 'z) client_scheme"
      using that sendMessage_client_frame [of env _ t r' t'] by (auto simp: EventDispatch_def)
    have request: "ch_initialized t' = ch_initialized t" if "Session_Request env n p t = (r', t')"
      for n p r' and t t' :: "('tr, 'tel, 'z) client_scheme"
      using Session_Request_client_frame [OF that] mutex by blast
    show ?thesis
      using body gv fresh
      by (auto simp: bind_io_apply split: go.splits sum.splits prod.splits dest!: notify request) metis+
  qed
  then have "ch_initialized w' \<longleftrightarrow> (\<exists>x. r = Inr x)" using gv by simp
  moreover have "\<not> ch_locked w'" using gv by simp
  moreover have "sessionInitialize h' req' w' = (Ret (Inl (Errorf ''session already initialized'')), w')"
    if "ch_initialized w'"
    using that gv by (cases w') (simp add: sessionInitialize_def with_mu_def)
  ultimately show ?thesis by blast
qed

text \<open>A session whose peer accepts the initialisation, for the witness.\<close>

definition init_response :: Response where
  "init_response = newResponseWithVersion ''1'' ''a'' (ADyn (JObj [(''audio_codec'', JNull)])) None"

definition answering_env :: "(unit, (unit, 'tel) client) env" where
  "answering_env =
     \<lparr>tr_Write = (\<lambda>d t. (Ret None, t)), fresh_ID = (\<lambda>w. ''a''),
      others = (\<lambda>w. snd (resolvePending init_response w)),
      ctx_done = (\<lambda>w. None), audio_ClearReadBuffer = return_io (Inr 0)\<rparr>"

lemma answering_others: "ch_initialized (others answering_env w) = ch_initialized w"
  by (simp add: answering_env_def resolvePending_def split: go.split)

lemma answering_request:
  assumes "s_pending w = no_pendings" and "s_transport w = Some ()" and "n \<noteq> []"
  shows "\<exists>w'. Session_Request answering_env n (any_struct j NoValidate) w = (Ret (Inr init_response), w')
     \<and> s_transport w' = Some ()"
  using assms
  by (simp add: Session_Request_def answering_env_def init_response_def resolvePending_def
        newPendingRequest_def no_pendings_def Let_def sendMessage_def write_transport_def
        constructor_defs Request_Validate_def validateBase_def Version_def wrap_verdict_def
        marshal_Request_def any_field_def await_response_def resolvePendingRequest_def
        send_chan_def recv_chan_def make_chan_def)

lemma answering_notify:
  assumes "s_transport w = Some ()" and "n \<noteq> []"
  shows "\<exists>w'. EventDispatch answering_env n (any_struct j NoValidate) w = (Ret None, w')"
  using assms
  by (simp add: EventDispatch_def answering_env_def Let_def sendMessage_def write_transport_def
        constructor_defs Event_Validate_def validateBase_def Version_def wrap_verdict_def
        marshal_Event_def any_field_def)

lemma init_response_As:
  "As (dec_struct set_SessionInitializeResponse) zero_SessionInitializeResponse (Result init_response)
    = Inr \<lparr>sr_AudioCodec = None\<rparr>"
  by (simp add: init_response_def As_def constructor_defs set_SessionInitializeResponse_def
      zero_SessionInitializeResponse_def payload_simps)

lemma answering_initialize:
  assumes "s_pending w = no_pendings" and "s_transport w = Some ()" and "\<not> ch_initialized w" and "\<not> ch_locked w"
  shows "\<exists>w'. sessionInitialize (session_SHC answering_env) req w = (Ret (Inr \<lparr>sr_AudioCodec = None\<rparr>), w')"
proof -
  from answering_request [of "w\<lparr>ch_locked := True\<rparr>" SessionInitializeRequest_MethodName] assms obtain w1
    where w1: "Session_Request answering_env SessionInitializeRequest_MethodName (any_SessionInitializeRequest req)
      (w\<lparr>ch_locked := True\<rparr>) = (Ret (Inr init_response), w1)" "s_transport w1 = Some ()"
    by (auto simp: any_SessionInitializeRequest_def SessionInitializeRequest_MethodName_def)
  from answering_notify [of "w1\<lparr>ch_initialized := True, ch_shc_set := True\<rparr>" SessionUpdatedEvent_EventName] w1(2)
  obtain w2 where w2: "EventDispatch answering_env SessionUpdatedEvent_EventName
      (any_SessionUpdatedEvent \<lparr>su_AudioCodec = None\<rparr>) (w1\<lparr>ch_initialized := True, ch_shc_set := True\<rparr>)
      = (Ret None, w2)"
    by (auto simp: any_SessionUpdatedEvent_def SessionUpdatedEvent_EventName_def)
  show ?thesis
    using assms by (simp add: sessionInitialize_def with_mu_def w1(1) w2 init_response_As)
qed

theorem sessionInitialize_once_witness:
  "\<exists>w'. sessionInitialize (session_SHC answering_env) (zero_SessionInitializeRequest)
        (sample_client\<lparr>s_transport := Some ()\<rparr>) = (Ret (Inr \<lparr>sr_AudioCodec = None\<rparr>), w')
     \<and> ch_initialized w' \<and> \<not> ch_locked w'"
proof -
  obtain w' where w': "sessionInitialize (session_SHC answering_env) zero_SessionInitializeRequest
        (sample_client\<lparr>s_transport := Some ()\<rparr>) = (Ret (Inr \<lparr>sr_AudioCodec = None\<rparr>), w')"
    using answering_initialize [of "sample_client\<lparr>s_transport := Some ()\<rparr>" zero_SessionInitializeRequest]
    by (auto simp: sample_client_def)
  have "\<not> ch_initialized (sample_client\<lparr>s_transport := Some ()\<rparr>)" by (simp add: sample_client_def)
  from sessionInitialize_once [OF w' this, of "session_SHC answering_env" zero_SessionInitializeRequest] w'
  show ?thesis by (auto simp: answering_others)
qed

subsection \<open>Requests of an initialised client\<close>

text \<open>
  C21. Hanging up: an initialised client answers a valid \<open>call.hangup\<close> request with the
  empty response after the adapter has hung up, and only then, when the reply was sent,
  closes the session; the callback of that close, which runs before the shutdown is
  triggered, sends the request \<open>session.terminate\<close> with the reason \<open>call.hangup\<close>.
\<close>

theorem call_hangup_replies_then_closes:
  assumes "ch_initialized w" and "\<not> ch_locked w" and "Method req = ''call.hangup''"
    and "Params req = received_any (any_CallHangupRequest q)" and "ch_Reason q \<noteq> []"
  shows "OnRequest (NewClientHandler now (fake_telephony gen) config onAudio) h req w =
    bind_io (shc_Respond h (Ok req any_EmptyResponse)) (\<lambda>e.
      case e of Some err \<Rightarrow> return_io (Some (Wrapf ''failed to respond'' err))
      | None \<Rightarrow> shc_Close h (Some (bind_io
            (shc_Request h ''session.terminate'' (any_SessionTerminateRequest \<lparr>st_Reason = ''call.hangup''\<rparr>))
            (\<lambda>r. return_io (case r of Inl err \<Rightarrow> Some err | Inr _ \<Rightarrow> None)))))
    (w\<lparr>ch_tel := (ch_tel w)\<lparr>f_hangup := True\<rparr>\<rparr>)"
proof -
  have result: "handler_result (call_hangup_handler (fake_telephony gen)) h req w =
      (Ret (Inr (Some q, any_EmptyResponse)), w\<lparr>ch_tel := (ch_tel w)\<lparr>f_hangup := True\<rparr>\<rparr>)"
    using assms CallHangupRequest.received_payload [of q "verdict_of (CallHangupRequest_Validate q)"]
    by (simp add: handler_result_def call_hangup_handler_def CallHangupRequest_type_def
        any_CallHangupRequest_def CallHangupRequest.unmarshal_sent validate_params_def validate_ptr_def
        CallHangupRequest_Validate_def on_tel_def fake_telephony_def fake_Hangup_def empty_or_error_def
        any_EmptyResponse_def)
  show ?thesis
    using assms check_initialized [OF assms(1,2), of h req]
    by (simp add: client_dispatch Handle_split result reply_and_hook_def)
      (simp add: call_hangup_handler_def CallHangupRequest_type_def sessionTerminateAndClose_def
        SessionTerminateRequest_MethodName_def)
qed

text \<open>
  For the witness, a real session: its transport keeps what is written, the peer answers
  the request with the ID \<open>a\<close> while it waits, and the closer finalises what was triggered.
\<close>

definition terminated_response :: Response where
  "terminated_response = newResponseWithVersion ''1'' ''a'' (ADyn (JObj [])) None"

definition hangup_env :: "(wire list, (wire list, 'tel) client) env" where
  "hangup_env =
     \<lparr>tr_Write = (\<lambda>d t. (Ret None, t @ [d])), fresh_ID = (\<lambda>w. ''a''),
      others = (\<lambda>w. (snd (resolvePending terminated_response w))\<lparr>s_final := s_trigger w\<rparr>),
      ctx_done = (\<lambda>w. None), audio_ClearReadBuffer = return_io (Inr 0)\<rparr>"

definition hangup_client :: "(wire list, (client_callback, client_callback) FakeTelephonyAdapter) client" where
  "hangup_client =
     \<lparr>s_id = ''s1'', s_state = SessionStateActive, s_transport = Some [], s_pending = no_pendings,
      s_once = OnceNew, s_trigger = False, s_final = False,
      ch_locked = False, ch_initialized = True, ch_shc_set = True, ch_dtmfSeq = 0,
      ch_pinger = True, ch_tel = newFakeTelephonyAdapter\<rparr>"

definition hangup_frames :: "wire list" where
  "hangup_frames =
     [wire_of_json (JObj [(''version'', JStr ''1''), (''response'', JStr ''x''), (''result'', JObj [])]),
      wire_of_json (JObj [(''version'', JStr ''1''), (''id'', JStr ''a''), (''method'', JStr ''session.terminate''),
        (''params'', JObj [(''reason'', JStr ''call.hangup'')])])]"

theorem call_hangup_replies_then_closes_witness:
  "\<exists>w'. OnRequest (NewClientHandler (\<lambda>w. 5) (fake_telephony (\<lambda>f. ''r1'')) sample_config (\<lambda>h. return_io None))
       (session_SHC hangup_env)
       (NewRequest ''x'' ''call.hangup'' (received_any (any_CallHangupRequest \<lparr>ch_Reason = ''bye''\<rparr>))) hangup_client
     = (Ret None, w')
     \<and> s_transport w' = Some hangup_frames \<and> f_hangup (ch_tel w') \<and> s_trigger w' \<and> s_final w'"
proof -
  let ?w = "hangup_client" and ?h = "session_SHC hangup_env"
  let ?req = "NewRequest ''x'' ''call.hangup'' (received_any (any_CallHangupRequest \<lparr>ch_Reason = ''bye''\<rparr>))"
  let ?cb = "bind_io (shc_Request ?h ''session.terminate'' (any_SessionTerminateRequest \<lparr>st_Reason = ''call.hangup''\<rparr>))
    (\<lambda>r. return_io (case r of Inl err \<Rightarrow> Some err | Inr _ \<Rightarrow> None))"
  define v where "v = ?w\<lparr>ch_tel := (ch_tel ?w)\<lparr>f_hangup := True\<rparr>, s_transport := Some [hd hangup_frames]\<rparr>"
  have "ch_initialized ?w" "\<not> ch_locked ?w" by (simp_all add: hangup_client_def)
  moreover have "Method ?req = ''call.hangup''"
    "Params ?req = received_any (any_CallHangupRequest \<lparr>ch_Reason = ''bye''\<rparr>)"
    by (simp_all add: constructor_defs)
  ultimately have run: "OnRequest (NewClientHandler (\<lambda>w. 5) (fake_telephony (\<lambda>f. ''r1'')) sample_config
      (\<lambda>h. return_io None)) ?h ?req ?w =
    bind_io (shc_Respond ?h (Ok ?req any_EmptyResponse)) (\<lambda>e.
      case e of Some err \<Rightarrow> return_io (Some (Wrapf ''failed to respond'' err)) | None \<Rightarrow> shc_Close ?h (Some ?cb))
    (?w\<lparr>ch_tel := (ch_tel ?w)\<lparr>f_hangup := True\<rparr>\<rparr>)"
    by (rule call_hangup_replies_then_closes) simp
  have reply: "shc_Respond ?h (Ok ?req any_EmptyResponse) (?w\<lparr>ch_tel := (ch_tel ?w)\<lparr>f_hangup := True\<rparr>\<rparr>) = (Ret None, v)"
    by (simp add: v_def hangup_client_def hangup_env_def hangup_frames_def sendMessage_def write_transport_def
        constructor_defs Response_Validate_def validateBase_def Version_def wrap_verdict_def
        marshal_Response_def any_field_def any_EmptyResponse_def)
  have "\<exists>u. Session_Request hangup_env ''session.terminate'' (any_SessionTerminateRequest \<lparr>st_Reason = ''call.hangup''\<rparr>)
      (v\<lparr>s_once := OnceRunning\<rparr>) = (Ret (Inr terminated_response), u)
     \<and> s_transport u = Some hangup_frames \<and> f_hangup (ch_tel u) \<and> \<not> s_trigger u"
    by (simp add: v_def hangup_client_def hangup_env_def hangup_frames_def Session_Request_def Let_def
        terminated_response_def resolvePending_def newPendingRequest_def no_pendings_def sendMessage_def
        write_transport_def constructor_defs Request_Validate_def validateBase_def Version_def wrap_verdict_def
        marshal_Request_def any_field_def any_SessionTerminateRequest_def enc_SessionTerminateRequest_def
        SessionTerminateRequest_Validate_def payload_simps await_response_def
        resolvePendingRequest_def send_chan_def recv_chan_def make_chan_def)
  then obtain u where u: "Session_Request hangup_env ''session.terminate''
      (any_SessionTerminateRequest \<lparr>st_Reason = ''call.hangup''\<rparr>) (v\<lparr>s_once := OnceRunning\<rparr>)
      = (Ret (Inr terminated_response), u)"
    and after: "s_transport u = Some hangup_frames" "f_hangup (ch_tel u)" "\<not> s_trigger u" by blast
  have fresh: "s_state v = SessionStateActive" "s_once v = OnceNew" by (simp_all add: v_def hangup_client_def)
  have settled: "ctx_done hangup_env w = None" "s_final (others hangup_env w) = s_trigger w"
    "s_transport (others hangup_env w) = s_transport w" "s_trigger (others hangup_env w) = s_trigger w"
    "ch_tel (others hangup_env w) = ch_tel w" for w
    by (simp_all add: hangup_env_def resolvePending_def split: go.split)
  have "shc_Close ?h (Some ?cb) v = (Ret None, others hangup_env (u\<lparr>s_trigger := True, s_once := OnceDone\<rparr>))"
    using after(3) by (simp add: Session_Close_def doClose_def fresh u settled close_signal_def Let_def)
  then have "\<exists>w'. shc_Close ?h (Some ?cb) v = (Ret None, w')
     \<and> s_transport w' = Some hangup_frames \<and> f_hangup (ch_tel w') \<and> s_trigger w' \<and> s_final w'"
    using after by (simp add: settled)
  with run reply show ?thesis by (simp add: bind_io_apply)
qed

subsection \<open>DTMF numbering\<close>

fun dtmf_run ::
    "('tr, 'tel, 'z) client_scheme SHC \<Rightarrow> DTMFEvent list \<Rightarrow> (unit, ('tr, 'tel, 'z) client_scheme) io" where
  "dtmf_run h [] = return_io ()"
| "dtmf_run h (e # es) = bind_io (onDTMF h e) (\<lambda>_. dtmf_run h es)"

definition numbered :: "int \<Rightarrow> DTMFEvent list \<Rightarrow> DTMFEvent list" where
  "numbered k es = map (\<lambda>(i, e). e\<lparr>dt_Seq := k + int i\<rparr>) (List.enumerate 0 es)"

lemma numbered_simps [simp]:
  "numbered k [] = []" "numbered k (e # es) = e\<lparr>dt_Seq := k\<rparr> # numbered (k + 1) es"
proof -
  have "map (\<lambda>(i, e). e\<lparr>dt_Seq := k + int i\<rparr>) (List.enumerate (Suc n) es) =
      map (\<lambda>(i, e). e\<lparr>dt_Seq := (k + 1) + int i\<rparr>) (List.enumerate n es)" for n
    by (induction es arbitrary: n) (simp_all add: ac_simps)
  from this [of 0] show "numbered k (e # es) = e\<lparr>dt_Seq := k\<rparr> # numbered (k + 1) es"
    by (simp add: numbered_def)
qed (simp add: numbered_def)

text \<open>
  C22. DTMF events the adapter reports one after the other are notified in that order
  with consecutive sequence numbers starting at the counter, so at 0 for a new client,
  as long as the int64 counter does not overflow; whatever number the adapter had put
  into an event is replaced. Notifying appends to the log and leaves the counter alone.
\<close>

theorem dtmf_events_are_numbered:
  fixes w :: "('tr, 'tel, 'z) client_scheme" and log :: "('tr, 'tel, 'z) client_scheme \<Rightarrow> (string \<times> any) list"
  assumes notify: "\<forall>n p v. \<exists>r v'. shc_Notify h n p v = (Ret r, v') \<and> log v' = log v @ [(n, p)]
      \<and> ch_dtmfSeq v' = ch_dtmfSeq v"
    and frame: "\<forall>v k. log (v\<lparr>ch_dtmfSeq := k\<rparr>) = log v"
    and range: "sint (ch_dtmfSeq w) + int (length es) < 2 ^ 63"
  shows "\<exists>w'. dtmf_run h es w = (Ret (), w') \<and>
     log w' = log w @ map (\<lambda>e. (''dtmf'', any_DTMFEvent e)) (numbered (sint (ch_dtmfSeq w)) es)"
  using range
proof (induction es arbitrary: w)
  case Nil
  then show ?case by simp
next
  case (Cons e es)
  let ?v = "w\<lparr>ch_dtmfSeq := ch_dtmfSeq w + 1\<rparr>"
  obtain r w1 where w1: "shc_Notify h ''dtmf'' (any_DTMFEvent (e\<lparr>dt_Seq := sint (ch_dtmfSeq w)\<rparr>)) ?v = (Ret r, w1)"
      "log w1 = log ?v @ [(''dtmf'', any_DTMFEvent (e\<lparr>dt_Seq := sint (ch_dtmfSeq w)\<rparr>))]"
      "ch_dtmfSeq w1 = ch_dtmfSeq ?v"
    using notify by blast
  have seq: "sint (ch_dtmfSeq w1) = sint (ch_dtmfSeq w) + 1"
  proof -
    have "- (2 ^ 63) \<le> sint (ch_dtmfSeq w)" using sint_ge [of "ch_dtmfSeq w"] by simp
    then have "sint (ch_dtmfSeq w + 1) = sint (ch_dtmfSeq w) + 1"
      using Cons.prems by (subst sint_word_ariths) (auto intro!: signed_take_bit_int_eq_self)
    with w1(3) show ?thesis by simp
  qed
  have "sint (ch_dtmfSeq w1) + int (length es) < 2 ^ 63" using Cons.prems seq by simp
  from Cons.IH [OF this] obtain w' where w': "dtmf_run h es w1 = (Ret (), w')"
      "log w' = log w1 @ map (\<lambda>e. (''dtmf'', any_DTMFEvent e)) (numbered (sint (ch_dtmfSeq w1)) es)" by blast
  show ?case
    using w1(1,2) w'(1) w'(2) [unfolded seq] frame
    by (simp add: onDTMF_def Let_def DTMFEvent_EventName_def)
qed

text \<open>A context that logs notifications in the rest of the record.\<close>

definition logging_SHC :: "('tr, 'tel, (string \<times> any) list) client_scheme SHC" where
  "logging_SHC =
     \<lparr>shc_Request = (\<lambda>n p. return_io (Inl ErrRequestTimeout)), shc_Respond = (\<lambda>r. return_io None),
      shc_Notify = (\<lambda>n p w. (Ret None, client.more_update (\<lambda>l. l @ [(n, p)]) w)),
      shc_ClearReadBuffer = return_io (Inr 0), shc_Close = (\<lambda>cb. return_io None),
      shc_State = (\<lambda>w. SessionStateActive)\<rparr>"

theorem dtmf_events_are_numbered_witness:
  "client.more (snd (dtmf_run logging_SHC [zero_DTMFEvent, zero_DTMFEvent\<lparr>dt_Seq := 9\<rparr>]
      (client.extend sample_client [])))
   = [(''dtmf'', any_DTMFEvent zero_DTMFEvent), (''dtmf'', any_DTMFEvent (zero_DTMFEvent\<lparr>dt_Seq := 1\<rparr>))]"
proof -
  let ?w = "client.extend sample_client ([] :: (string \<times> any) list)"
  have "\<exists>w'. dtmf_run logging_SHC [zero_DTMFEvent, zero_DTMFEvent\<lparr>dt_Seq := 9\<rparr>] ?w = (Ret (), w') \<and>
     client.more w' = client.more ?w @ map (\<lambda>e. (''dtmf'', any_DTMFEvent e))
       (numbered (sint (ch_dtmfSeq ?w)) [zero_DTMFEvent, zero_DTMFEvent\<lparr>dt_Seq := 9\<rparr>])"
    by (rule dtmf_events_are_numbered)
      (simp_all add: logging_SHC_def sample_client_def client.defs)
  then show ?thesis by (auto simp: sample_client_def client.defs zero_DTMFEvent_def)
qed

end
