(* ===== verification/WsControl.thy ===== *)
theory WsControl
  imports Replies
begin

section \<open>The control channel of the websocket transport (control.go, msg.go)\<close>

text \<open>
  \<open>controlChannel\<close> sits between the session and the transport's goroutines. Each method
  runs under the channel's mutex; here it is one operation on the record, \<open>Block\<close> meaning
  that it waits on a full channel while it holds the mutex (\<open>WsTransport\<close> has the mutex).
  The frame types are those of RFC 6455.
\<close>

datatype frame_type = TextMessage | BinaryMessage | CloseMessage | PingMessage | PongMessage | OtherFrame int

record wsMessage =
  mt :: frame_type
  data :: wire
  timeout :: i64

definition isControl :: "frame_type \<Rightarrow> bool" where
  "isControl t \<longleftrightarrow> t = CloseMessage \<or> t = PingMessage \<or> t = PongMessage"

definition controlTimeout :: "wsMessage \<Rightarrow> i64" where
  "controlTimeout m = (if timeout m = 0 then 1000000000 else timeout m)"

definition text_message :: "wire \<Rightarrow> wsMessage" where
  "text_message d = \<lparr>mt = TextMessage, data = d, timeout = 0\<rparr>"

record controlChannel =
  cc_closed :: bool
  cc_once :: once
  cc_input :: "DataPackage chan"
  cc_output :: "wsMessage chan"

definition newControlChannel :: "wsMessage chan \<Rightarrow> controlChannel" where
  "newControlChannel out =
     \<lparr>cc_closed = False, cc_once = OnceNew, cc_input = make_chan 16, cc_output = out\<rparr>"

definition closed_pipe :: goerr where
  "closed_pipe = Wrapf ''control channel is closed'' IoErrClosedPipe"

definition writeIn :: "DataPackage \<Rightarrow> (goerr option, controlChannel) io" where
  "writeIn p = (\<lambda>cc.
     (if cc_closed cc then (Ret (Some closed_pipe), cc)
      else case send_chan p (cc_input cc) of
        Ret c \<Rightarrow> (Ret None, cc\<lparr>cc_input := c\<rparr>)
      | Panic m \<Rightarrow> (Panic m, cc)
      | Block \<Rightarrow> (Block, cc)))"

definition writeOut :: "wire \<Rightarrow> (goerr option, controlChannel) io" where
  "writeOut d = (\<lambda>cc.
     (if cc_closed cc then (Ret (Some closed_pipe), cc)
      else case send_chan (text_message d) (cc_output cc) of
        Ret c \<Rightarrow> (Ret None, cc\<lparr>cc_output := c\<rparr>)
      | Panic m \<Rightarrow> (Panic m, cc)
      | Block \<Rightarrow> (Block, cc)))"

definition readChan :: "controlChannel \<Rightarrow> DataPackage chan" where
  "readChan cc = cc_input cc"

definition cc_close :: "(unit, controlChannel) io" where
  "cc_close = (\<lambda>cc.
     (if cc_once cc \<noteq> OnceNew then (Ret (), cc)
      else case close_chan (cc_input cc) of
        Ret c \<Rightarrow> (Ret (), cc\<lparr>cc_once := OnceDone, cc_closed := True, cc_input := c\<rparr>)
      | Panic m \<Rightarrow> (Panic m, cc\<lparr>cc_once := OnceDone, cc_closed := True\<rparr>)
      | Block \<Rightarrow> (Block, cc)))"

text \<open>
  \<open>sendMessage\<close> of transport.go, over the connection's \<open>WriteControl\<close> and \<open>WriteMessage\<close>:
  control frames get a deadline of their own, frames of any other type are dropped.
\<close>

definition ws_sendMessage ::
    "(frame_type \<Rightarrow> wire \<Rightarrow> i64 \<Rightarrow> (goerr option, 'c) io) \<Rightarrow> (frame_type \<Rightarrow> wire \<Rightarrow> (goerr option, 'c) io)
       \<Rightarrow> wsMessage \<Rightarrow> (goerr option, 'c) io" where
  "ws_sendMessage WriteControl WriteMessage msg =
     (if isControl (mt msg)
      then bind_io (WriteControl (mt msg) (data msg) (controlTimeout msg))
        (\<lambda>e. return_io (map_option (Wrapf ''control'') e))
      else if mt msg = TextMessage
      then bind_io (WriteMessage (mt msg) (data msg)) (\<lambda>e. return_io (map_option (Wrapf ''text'') e))
      else if mt msg = BinaryMessage
      then bind_io (WriteMessage (mt msg) (data msg)) (\<lambda>e. return_io (map_option (Wrapf ''binary'') e))
      else return_io None)"

text \<open>Errors after which the transport's loops end quietly.\<close>

definition isErrOk :: "goerr option \<Rightarrow> bool" where
  "isErrOk err = (case err of
     None \<Rightarrow> True
   | Some e \<Rightarrow> errors_Is e WsErrCloseSent \<or> errors_Is e NetErrClosed \<or> errors_Is e IoErrClosedPipe)"

lemma isErrOk_closed_pipe: "isErrOk (Some closed_pipe)"
  by (simp add: isErrOk_def closed_pipe_def)

subsection \<open>The contracts it keeps\<close>

text \<open>\<open>writeOut\<close> is the transport's \<open>Write\<close>; what it accepted are the text frames queued.\<close>

definition cc_written :: "controlChannel \<Rightarrow> wire list" where
  "cc_written cc = map data (ch_buf (cc_output cc))"

interpretation ws_tr: transport_write writeOut cc_written
  by unfold_locales
     (auto simp: writeOut_def cc_written_def send_chan_def text_message_def split: if_splits go.splits)

text \<open>\<open>writeIn\<close> and a reader of \<open>ReadChan\<close> are the two ends of a first-in first-out channel.\<close>

definition cc_send :: "DataPackage \<Rightarrow> controlChannel \<Rightarrow> controlChannel option" where
  "cc_send p cc = (case writeIn p cc of (Ret None, cc') \<Rightarrow> Some cc' | _ \<Rightarrow> None)"

definition cc_recv :: "controlChannel \<Rightarrow> (DataPackage \<times> controlChannel) option" where
  "cc_recv cc = (case recv_chan (readChan cc) of
     Ret (Some p, c) \<Rightarrow> Some (p, cc\<lparr>cc_input := c\<rparr>) | _ \<Rightarrow> None)"

definition cc_room :: "controlChannel \<Rightarrow> bool" where
  "cc_room cc \<longleftrightarrow> \<not> cc_closed cc \<and> has_room (cc_input cc)"

interpretation ws_in: fifo cc_send cc_recv "\<lambda>cc. ch_buf (cc_input cc)" cc_room
  by unfold_locales
     (auto simp: cc_send_def cc_recv_def cc_room_def writeIn_def readChan_def has_room_def
       send_chan_def recv_chan_def)

text \<open>A channel reached by its operations: closed exactly when its input is, after its Once.\<close>

definition cc_ok :: "controlChannel \<Rightarrow> bool" where
  "cc_ok cc \<longleftrightarrow> (cc_closed cc \<longleftrightarrow> ch_closed (cc_input cc)) \<and> (cc_closed cc \<longleftrightarrow> cc_once cc = OnceDone)
     \<and> cc_once cc \<noteq> OnceRunning \<and> \<not> ch_closed (cc_output cc)
     \<and> chan_ok (cc_input cc) \<and> ch_cap (cc_input cc) = 16"

datatype cc_op = OpWriteIn DataPackage | OpWriteOut wire | OpRead | OpClose

fun cc_apply :: "cc_op \<Rightarrow> controlChannel \<Rightarrow> unit go \<times> controlChannel" where
  "cc_apply (OpWriteIn p) cc = (case writeIn p cc of
     (Ret _, cc') \<Rightarrow> (Ret (), cc') | (Panic m, cc') \<Rightarrow> (Panic m, cc') | (Block, cc') \<Rightarrow> (Block, cc'))"
| "cc_apply (OpWriteOut d) cc = (case writeOut d cc of
     (Ret _, cc') \<Rightarrow> (Ret (), cc') | (Panic m, cc') \<Rightarrow> (Panic m, cc') | (Block, cc') \<Rightarrow> (Block, cc'))"
| "cc_apply OpRead cc = (case recv_chan (readChan cc) of
     Ret (x, c) \<Rightarrow> (Ret (), cc\<lparr>cc_input := c\<rparr>) | Panic m \<Rightarrow> (Panic m, cc) | Block \<Rightarrow> (Block, cc))"
| "cc_apply OpClose cc = cc_close cc"

fun cc_run :: "cc_op list \<Rightarrow> controlChannel \<Rightarrow> unit go list \<times> controlChannel" where
  "cc_run [] cc = ([], cc)"
| "cc_run (op # ops) cc = (case cc_apply op cc of (r, cc') \<Rightarrow>
     (case cc_run ops cc' of (rs, cc'') \<Rightarrow> (r # rs, cc'')))"

lemma cc_ok_new: "\<not> ch_closed out \<Longrightarrow> cc_ok (newControlChannel out)"
  by (simp add: cc_ok_def newControlChannel_def)

lemma cc_apply_ok:
  assumes "cc_ok cc" and "cc_apply op cc = (r, cc')"
  shows "cc_ok cc' \<and> \<not> panics r"
proof (cases op)
  case (OpWriteIn p)
  with assms show ?thesis
    by (auto simp: writeIn_def send_chan_def cc_ok_def chan_ok_def split: if_splits)
next
  case (OpWriteOut d)
  with assms show ?thesis
    by (auto simp: writeOut_def send_chan_def cc_ok_def chan_ok_def split: if_splits)
next
  case OpRead
  with assms show ?thesis
    by (auto simp: readChan_def recv_chan_def cc_ok_def chan_ok_def split: if_splits list.splits)
next
  case OpClose
  with assms show ?thesis
    by (cases "cc_once cc") (auto simp: cc_close_def close_chan_def cc_ok_def chan_ok_def split: if_splits)
qed

text \<open>
  The control channel is safe in any order of operations: no sequence of writes in
  either direction, reads and (repeated) closes panics, though \<open>close\<close> closes the channel
  that \<open>writeIn\<close> sends on, and at most 16 packages are ever buffered.
\<close>

theorem control_channel_never_panics:
  assumes "cc_run ops (newControlChannel (make_chan 16)) = (rs, cc)"
  shows "(\<forall>r \<in> set rs. \<not> panics r) \<and> length (ch_buf (cc_input cc)) \<le> 16"
proof -
  have "cc_ok cc0 \<Longrightarrow> cc_run ops cc0 = (rs, cc) \<Longrightarrow> (\<forall>r \<in> set rs. \<not> panics r) \<and> cc_ok cc" for cc0
  proof (induction ops arbitrary: cc0 rs)
    case (Cons op ops)
    then show ?case using cc_apply_ok [OF Cons.prems(1)]
      by (auto split: prod.splits) blast+
  qed simp
  from this [OF cc_ok_new [of "make_chan 16"] assms] show ?thesis
    by (auto simp: cc_ok_def chan_ok_def)
qed

theorem control_channel_never_panics_witness:
  "list_all (\<lambda>r. \<not> panics r) (fst (cc_run [OpWriteIn \<lparr>dp_Data = OtherText ''a'', dp_ReceivedAt = 1\<rparr>,
       OpClose, OpClose, OpWriteIn \<lparr>dp_Data = OtherText ''b'', dp_ReceivedAt = 2\<rparr>, OpRead, OpRead]
      (newControlChannel (make_chan 16))))"
  unfolding list_all_iff
  using control_channel_never_panics [OF prod.collapse [symmetric]] by blast

end
