(* ===== verification/Direct.thy ===== *)
theory Direct
  imports Session
begin

section \<open>The direct transport (transport/direct/channel.go)\<close>

text \<open>
  Two in-memory channels of capacity one and a shared close signal. Each side writes to
  one channel and reads the other. The \<open>select\<close> of \<open>Write\<close> picks among its ready cases,
  so the outcomes of a write are a list: empty when it blocks.
\<close>

datatype side = T1 | T2

record direct =
  d_chA :: "DataPackage chan"
  d_chB :: "DataPackage chan"
  d_closed :: bool

definition direct_New :: direct where
  "direct_New = \<lparr>d_chA = make_chan 1, d_chB = make_chan 1, d_closed = False\<rparr>"

text \<open>Side \<open>T1\<close> has fields \<open>a, b\<close> as made, side \<open>T2\<close> has them swapped.\<close>

fun out_chan :: "side \<Rightarrow> direct \<Rightarrow> DataPackage chan" where
  "out_chan T1 d = d_chA d"
| "out_chan T2 d = d_chB d"

fun in_chan :: "side \<Rightarrow> direct \<Rightarrow> DataPackage chan" where
  "in_chan T1 d = d_chB d"
| "in_chan T2 d = d_chA d"

fun set_out :: "side \<Rightarrow> DataPackage chan \<Rightarrow> direct \<Rightarrow> direct" where
  "set_out T1 c d = d\<lparr>d_chA := c\<rparr>"
| "set_out T2 c d = d\<lparr>d_chB := c\<rparr>"

fun set_in :: "side \<Rightarrow> DataPackage chan \<Rightarrow> direct \<Rightarrow> direct" where
  "set_in T1 c d = d\<lparr>d_chB := c\<rparr>"
| "set_in T2 c d = d\<lparr>d_chA := c\<rparr>"

fun other_side :: "side \<Rightarrow> side" where
  "other_side T1 = T2"
| "other_side T2 = T1"

definition direct_Write_outcomes :: "side \<Rightarrow> wire \<Rightarrow> direct \<Rightarrow> (goerr option \<times> direct) list" where
  "direct_Write_outcomes sd data d =
     (if d_closed d then [(Some (Errorf ''transport is closed''), d)] else []) @
     (case send_chan \<lparr>dp_Data = data, dp_ReceivedAt = 0\<rparr> (out_chan sd d) of
        Ret c \<Rightarrow> [(None, set_out sd c d)]
      | _ \<Rightarrow> [])"

text \<open>\<open>closer.close\<close> under its Once: closing twice is harmless.\<close>

definition direct_Close :: "direct \<Rightarrow> goerr option \<times> direct" where
  "direct_Close d = (None, d\<lparr>d_closed := True\<rparr>)"

definition direct_Recv :: "side \<Rightarrow> direct \<Rightarrow> (DataPackage option \<times> direct) go" where
  "direct_Recv sd d = bind_go (recv_chan (in_chan sd d)) (\<lambda>(x, c). Ret (x, set_in sd c d))"

text \<open>A write in which the scheduler prefers the close case or the send case.\<close>

definition direct_Write :: "bool \<Rightarrow> side \<Rightarrow> wire \<Rightarrow> (goerr option, direct) io" where
  "direct_Write prefer_closed sd data d =
     (case (if prefer_closed then direct_Write_outcomes sd data d
            else rev (direct_Write_outcomes sd data d)) of
        [] \<Rightarrow> (Block, d)
      | (r, d') # _ \<Rightarrow> (Ret r, d'))"

definition direct_written :: "side \<Rightarrow> direct \<Rightarrow> wire list" where
  "direct_written sd d = map dp_Data (ch_buf (out_chan sd d))"

lemma in_chan_out [simp]: "in_chan (other_side sd) d = out_chan sd d"
  by (cases sd) simp_all

lemma out_chan_set [simp]:
  "out_chan sd (set_out sd c d) = c" "in_chan sd (set_in sd c d) = c"
  "in_chan sd (set_out sd c d) = in_chan sd d" "out_chan sd (set_in sd c d) = out_chan sd d"
  "d_closed (set_out sd c d) = d_closed d" "d_closed (set_in sd c d) = d_closed d"
  by (cases sd; simp)+

lemma direct_Write_cases:
  "direct_Write pc sd w d =
     (let room = has_room (out_chan sd d);
          sent = (Ret None, set_out sd (out_chan sd d
            \<lparr>ch_buf := ch_buf (out_chan sd d) @ [\<lparr>dp_Data = w, dp_ReceivedAt = 0\<rparr>]\<rparr>) d);
          err = (Ret (Some (Errorf ''transport is closed'')), d)
      in if d_closed d \<and> (pc \<or> \<not> room) then err
         else if room then sent else (Block, d))"
  by (auto simp: direct_Write_def direct_Write_outcomes_def send_chan_def has_room_def Let_def)

interpretation direct_tr: transport_write "direct_Write pc sd" "direct_written sd" for pc sd
  by unfold_locales
     (auto simp: direct_Write_cases direct_written_def Let_def split: if_splits)

text \<open>One direction, from a side's \<open>Write\<close> to the other side's \<open>ReadChan\<close>.\<close>

definition direct_dir_send :: "side \<Rightarrow> wire \<Rightarrow> direct \<Rightarrow> direct option" where
  "direct_dir_send sd w d = (case direct_Write False sd w d of (Ret None, d') \<Rightarrow> Some d' | _ \<Rightarrow> None)"

definition direct_dir_recv :: "side \<Rightarrow> direct \<Rightarrow> (wire \<times> direct) option" where
  "direct_dir_recv sd d =
     (case direct_Recv (other_side sd) d of Ret (Some p, d') \<Rightarrow> Some (dp_Data p, d') | _ \<Rightarrow> None)"

lemma out_chan_set_in_other [simp]: "out_chan sd (set_in (other_side sd) c d) = c"
  by (cases sd) simp_all

interpretation direct_fifo: fifo "direct_dir_send sd" "direct_dir_recv sd" "direct_written sd"
    "\<lambda>d. has_room (out_chan sd d)" for sd
  by unfold_locales
     (auto simp: direct_dir_send_def direct_dir_recv_def direct_Write_cases direct_written_def
        direct_Recv_def recv_chan_def Let_def split: list.splits)

text \<open>Neither data channel is ever closed; each holds at most one package.\<close>

definition direct_ok :: "direct \<Rightarrow> bool" where
  "direct_ok d \<longleftrightarrow> (\<forall>sd. \<not> ch_closed (out_chan sd d) \<and> ch_cap (out_chan sd d) = 1 \<and>
     length (ch_buf (out_chan sd d)) \<le> 1)"

lemma direct_ok_New [simp]: "direct_ok direct_New"
proof -
  have "\<not> ch_closed (out_chan sd direct_New) \<and> ch_cap (out_chan sd direct_New) = 1 \<and>
      length (ch_buf (out_chan sd direct_New)) \<le> 1" for sd
    by (cases sd) (simp_all add: direct_New_def)
  then show ?thesis by (simp add: direct_ok_def)
qed

lemma direct_ok_Close: "direct_ok d \<Longrightarrow> direct_ok (snd (direct_Close d))"
proof -
  have "out_chan sd (d\<lparr>d_closed := True\<rparr>) = out_chan sd d" for sd by (cases sd) simp_all
  then show "direct_ok d \<Longrightarrow> direct_ok (snd (direct_Close d))"
    by (simp add: direct_ok_def direct_Close_def)
qed

lemma out_chan_set_out: "out_chan sd' (set_out sd c d) = (if sd' = sd then c else out_chan sd' d)"
  by (cases sd; cases sd') simp_all

lemma out_chan_set_in:
  "out_chan sd' (set_in sd c d) = (if sd' = other_side sd then c else out_chan sd' d)"
  by (cases sd; cases sd') simp_all

lemma direct_ok_Write:
  "direct_ok d \<Longrightarrow> (r, d') \<in> set (direct_Write_outcomes sd w d) \<Longrightarrow> direct_ok d'"
  by (auto simp: direct_ok_def direct_Write_outcomes_def send_chan_def out_chan_set_out
      split: if_splits)

lemma direct_ok_Recv:
  assumes "direct_ok d" and "direct_Recv sd d = Ret (x, d')"
  shows "direct_ok d'"
proof -
  have same: "in_chan sd d = out_chan (other_side sd) d" by (cases sd) simp_all
  have len: "length (ch_buf (out_chan (other_side sd) d)) \<le> 1"
    using assms(1) by (simp add: direct_ok_def)
  show ?thesis
  proof (cases "ch_buf (out_chan (other_side sd) d)")
    case Nil
    with assms show ?thesis
      by (auto simp: direct_ok_def direct_Recv_def bind_go_eq_Ret recv_chan_def same)
  next
    case (Cons y ys)
    then have "ys = []" using len by simp
    with Cons assms show ?thesis
      by (auto simp: direct_ok_def direct_Recv_def bind_go_eq_Ret recv_chan_def out_chan_set_in same
          split: if_splits)
  qed
qed

text \<open>
  C28. The direct transport is a reliable in-order path: over any interleaving of writes of
  one side and reads of the other, what was delivered followed by what is still buffered
  is exactly what was accepted, and at most one message is in flight.
\<close>

theorem direct_in_order:
  assumes "chan_run (direct_dir_send sd) (direct_dir_recv sd) ops direct_New = (acc, del, d)"
  shows "acc = del @ direct_written sd d \<and> length (direct_written sd d) \<le> 1"
proof -
  have empty: "direct_written sd direct_New = []"
    by (cases sd) (simp_all add: direct_written_def direct_New_def)
  have inv: "direct_ok c \<Longrightarrow> chan_run (direct_dir_send sd) (direct_dir_recv sd) ops c = (acc, del, d) \<Longrightarrow>
      direct_ok d" for c acc del
  proof (induction ops arbitrary: c acc del)
    case Nil
    then show ?case by simp
  next
    case (Cons op ops)
    have snd_ok: "direct_ok c'" if "direct_dir_send sd x c = Some c'" for x c'
    proof -
      from that obtain r where "(r, c') \<in> set (direct_Write_outcomes sd x c)"
        by (auto simp: direct_dir_send_def direct_Write_def split: prod.splits list.splits
            go.splits option.splits dest: arg_cong [where f = set])
      with Cons.prems(1) show ?thesis by (rule direct_ok_Write)
    qed
    have rcv_ok: "direct_ok c'" if "direct_dir_recv sd c = Some (x, c')" for x c'
      using that Cons.prems(1)
      by (auto simp: direct_dir_recv_def split: go.splits option.splits prod.splits
          intro: direct_ok_Recv)
    show ?case
      using Cons by (cases op) (auto split: option.splits prod.splits dest: snd_ok rcv_ok)
  qed
  have "direct_ok d" using inv [OF direct_ok_New assms] .
  then show ?thesis
    using direct_fifo.run_prefix [OF assms empty]
    by (auto simp: direct_ok_def direct_written_def)
qed

lemma direct_in_order_witness:
  "direct_written T1 (snd (snd (chan_run (direct_dir_send T1) (direct_dir_recv T1)
       [ChSend (OtherText ''a''), ChRecv, ChSend (OtherText ''b''), ChSend (OtherText ''c'')]
       direct_New))) = [OtherText ''b'']"
proof -
  have run: "chan_run (direct_dir_send T1) (direct_dir_recv T1)
       [ChSend (OtherText ''a''), ChRecv, ChSend (OtherText ''b''), ChSend (OtherText ''c'')]
       direct_New = ([OtherText ''a'', OtherText ''b''], [OtherText ''a''],
         direct_New\<lparr>d_chA := (make_chan 1)\<lparr>ch_buf := [\<lparr>dp_Data = OtherText ''b'', dp_ReceivedAt = 0\<rparr>]\<rparr>\<rparr>)"
    by (simp add: direct_dir_send_def direct_dir_recv_def direct_Write_cases direct_Recv_def
        recv_chan_def has_room_def Let_def direct_New_def)
  from direct_in_order [OF run] show ?thesis unfolding run by simp
qed

text \<open>
  After \<open>Close\<close> on either side every \<open>Write\<close> can fail with the closed error and none
  blocks, but while the buffer has room a \<open>Write\<close> may still report success; and the peer's
  reader is never told: with nothing buffered its receive blocks instead of reporting a
  closed channel.
\<close>

theorem direct_after_close:
  assumes "direct_ok d"
  defines "d' \<equiv> snd (direct_Close d)"
  shows "(Some (Errorf ''transport is closed''), d') \<in> set (direct_Write_outcomes sd w d')
     \<and> (direct_written sd d' = [] \<longrightarrow>
         (\<exists>d2. (None, d2) \<in> set (direct_Write_outcomes sd w d') \<and> direct_written sd d2 = [w]))
     \<and> (direct_written (other_side sd) d' = [] \<longrightarrow> direct_Recv sd d' = Block)
     \<and> direct_Recv sd d' \<noteq> Ret (None, d'')"
proof -
  have ok: "direct_ok d'" using assms direct_ok_Close by simp
  have closed: "d_closed d'" by (simp add: d'_def direct_Close_def)
  have same: "in_chan sd d' = out_chan (other_side sd) d'" by (cases sd) simp_all
  have open_in: "\<not> ch_closed (out_chan x d')" "ch_cap (out_chan x d') = 1" for x
    using ok by (simp_all add: direct_ok_def)
  have "(Some (Errorf ''transport is closed''), d') \<in> set (direct_Write_outcomes sd w d')"
    using closed by (simp add: direct_Write_outcomes_def)
  moreover have "\<exists>d2. (None, d2) \<in> set (direct_Write_outcomes sd w d') \<and> direct_written sd d2 = [w]"
    if "direct_written sd d' = []"
    using that open_in [of sd] by (simp add: direct_Write_outcomes_def send_chan_def direct_written_def)
  moreover have "direct_Recv sd d' = Block" if "direct_written (other_side sd) d' = []"
    using that open_in [of "other_side sd"]
    by (simp add: direct_Recv_def recv_chan_def same direct_written_def)
  moreover have "direct_Recv sd d' \<noteq> Ret (None, d'')"
    using open_in [of "other_side sd"]
    by (auto simp: direct_Recv_def recv_chan_def same bind_go_eq_Ret split: list.splits)
  ultimately show ?thesis by blast
qed

lemma direct_after_close_witness:
  "(Some (Errorf ''transport is closed''), snd (direct_Close direct_New))
     \<in> set (direct_Write_outcomes T1 (OtherText ''x'') (snd (direct_Close direct_New)))
   \<and> direct_Recv T2 (snd (direct_Close direct_New)) = Block"
proof -
  have "direct_written sd (snd (direct_Close direct_New)) = []" for sd
    by (cases sd) (simp_all add: direct_Close_def direct_written_def direct_New_def)
  then show ?thesis
    using direct_after_close [OF direct_ok_New, of T1 "OtherText ''x''"]
      direct_after_close [OF direct_ok_New, of T2 "OtherText ''x''"] by simp
qed

end
