(* ===== verification/WellFormed.thy ===== *)
theory WellFormed
  imports Client WsControl Direct
begin

section \<open>Everything a session writes is a valid message\<close>

text \<open>
  The type discipline of the wire: a frame is acceptable when the peer's own parser,
  \<open>ParseValidMessage\<close>, returns a message for it. Every write of a session goes through
  \<open>sendMessage\<close>, so over any transport with the write contract every operation of the
  session, and every handler built from the operations its context offers, keeps the
  frames written acceptable. The protocol client is such a handler; its activities are
  collected in one data type at the end of the theory, so that the property is about any
  sequence of them: incoming packages, \<open>OnBegin\<close>, the telephony adapter's callbacks,
  \<open>Terminate\<close>, the pinger, and anything the application does with its session context.
\<close>

definition accepted_frame :: "wire \<Rightarrow> bool" where
  "accepted_frame f \<longleftrightarrow> (case ParseValidMessage f of Ret (Inr m) \<Rightarrow> True | _ \<Rightarrow> False)"

definition frames_ok :: "('tr \<Rightarrow> wire list) \<Rightarrow> ('tr, 'u) session_scheme \<Rightarrow> bool" where
  "frames_ok written s \<longleftrightarrow> (\<forall>t. s_transport s = Some t \<longrightarrow> list_all accepted_frame (written t))"

text \<open>An operation that keeps a property of the world, whether it returns, panics or blocks.\<close>

definition keeps :: "('w \<Rightarrow> bool) \<Rightarrow> ('a, 'w) io \<Rightarrow> bool" where
  "keeps P m \<longleftrightarrow> (\<forall>w. P w \<longrightarrow> P (snd (m w)))"

named_theorems keeps_intros \<open>operations that keep a property\<close>

lemma keepsD: "keeps P m \<Longrightarrow> P w \<Longrightarrow> m w = (r, w') \<Longrightarrow> P w'"
  by (metis keeps_def snd_conv)

lemma keeps_return [keeps_intros]: "keeps P (return_io x)"
  by (simp add: keeps_def)

lemma keeps_lift [keeps_intros]: "keeps P (lift_go g)"
  by (simp add: keeps_def)

lemma keeps_bind [keeps_intros]:
  assumes "keeps P m" and "\<And>x. keeps P (f x)"
  shows "keeps P (bind_io m f)"
  unfolding keeps_def
proof (intro allI impI)
  fix w assume "P w"
  obtain r w1 where m: "m w = (r, w1)" by (cases "m w")
  have w1: "P w1" using keepsD [OF assms(1) \<open>P w\<close> m] .
  show "P (snd (bind_io m f w))"
    using w1 assms(2) m by (cases r) (simp_all add: keeps_def)
qed

lemma keeps_option [keeps_intros]:
  "(x = None \<Longrightarrow> keeps P f) \<Longrightarrow> (\<And>y. x = Some y \<Longrightarrow> keeps P (g y)) \<Longrightarrow>
   keeps P (case x of None \<Rightarrow> f | Some y \<Rightarrow> g y)"
  by (cases x) simp_all

lemma keeps_sum [keeps_intros]:
  "(\<And>y. x = Inl y \<Longrightarrow> keeps P (f y)) \<Longrightarrow> (\<And>y. x = Inr y \<Longrightarrow> keeps P (g y)) \<Longrightarrow>
   keeps P (case x of Inl y \<Rightarrow> f y | Inr y \<Rightarrow> g y)"
  by (cases x) simp_all

text \<open>A context all of whose operations keep the property.\<close>

definition shc_keeps :: "('w \<Rightarrow> bool) \<Rightarrow> 'w SHC \<Rightarrow> bool" where
  "shc_keeps P h \<longleftrightarrow> (\<forall>n x. keeps P (shc_Request h n x)) \<and> (\<forall>r. keeps P (shc_Respond h r))
     \<and> (\<forall>n x. keeps P (shc_Notify h n x)) \<and> keeps P (shc_ClearReadBuffer h)
     \<and> (\<forall>cb. (\<forall>f. cb = Some f \<longrightarrow> keeps P f) \<longrightarrow> keeps P (shc_Close h cb))"

lemma shc_keepsD:
  assumes "shc_keeps P h"
  shows "keeps P (shc_Request h n x)" "keeps P (shc_Respond h r)" "keeps P (shc_Notify h n x)"
    "keeps P (shc_ClearReadBuffer h)" "keeps P f \<Longrightarrow> keeps P (shc_Close h (Some f))" "keeps P (shc_Close h None)"
  using assms by (simp_all add: shc_keeps_def)

lemma keeps_Handle:
  assumes "shc_keeps P h" and "\<And>params. keeps P (th_h t req h params)"
    and "\<And>prh params. rt_OnAfterReply (th_type t) = Some prh \<Longrightarrow> keeps P (prh params h)"
  shows "keeps P (Handle t h req)"
  unfolding Handle_def by (intro keeps_intros assms shc_keepsD [OF assms(1)])

lemma keeps_Middleware:
  "keeps P (fn h req) \<Longrightarrow> keeps P (rh_Handle nxt h req) \<Longrightarrow> keeps P (rh_Handle (Middleware fn nxt) h req)"
  unfolding Middleware_simps by (intro keeps_intros)

subsection \<open>The session's operations\<close>

text \<open>What a session relies on: its transport's \<open>Write\<close>, and that other goroutines keep the property too.\<close>

definition env_keeps :: "(('tr, 'u) session_scheme \<Rightarrow> bool) \<Rightarrow> ('tr, ('tr, 'u) session_scheme) env \<Rightarrow> bool" where
  "env_keeps P env \<longleftrightarrow> (\<forall>s. P s \<longrightarrow> P (others env s)) \<and> keeps P (audio_ClearReadBuffer env)"

lemma frames_ok_simps [simp]:
  "frames_ok written (s\<lparr>s_state := x1\<rparr>) = frames_ok written s"
  "frames_ok written (s\<lparr>s_pending := x2\<rparr>) = frames_ok written s"
  "frames_ok written (s\<lparr>s_once := x3\<rparr>) = frames_ok written s"
  "frames_ok written (s\<lparr>s_trigger := x4\<rparr>) = frames_ok written s"
  "frames_ok written (s\<lparr>s_final := x4\<rparr>) = frames_ok written s"
  by (simp_all add: frames_ok_def)

context transport_write
begin

lemma write_transport_keeps:
  assumes "tr_Write env = wr" and "accepted_frame w"
  shows "keeps (frames_ok written) (write_transport env w)"
  unfolding keeps_def
proof (intro allI impI, goal_cases)
  case (1 s)
  then have ok: "frames_ok written s" .
  show ?case
  proof (cases "s_transport s")
    case None
    then show ?thesis using ok by (simp add: write_transport_def)
  next
    case (Some t)
    obtain r t' where wr: "wr w t = (r, t')" by (cases "wr w t")
    have "list_all accepted_frame (written t)" using ok Some by (simp add: frames_ok_def)
    then have "list_all accepted_frame (written t')"
      using write_accepted [of w t t'] write_refused [of w t r t'] wr assms(2) by (cases "r = Ret None") auto
    then show ?thesis using Some wr assms(1) by (simp add: write_transport_def frames_ok_def)
  qed
qed

lemma sendMessage_keeps:
  assumes "tr_Write env = wr"
  shows "keeps (frames_ok written) (sendMessage env m)"
proof (cases "Validate m")
  case (Ret v)
  show ?thesis
  proof (cases v)
    case (Some e)
    then show ?thesis using Ret by (simp add: keeps_def sendMessage_def)
  next
    case None
    show ?thesis
    proof (cases "marshal_message m")
      case (Inl e)
      then show ?thesis using Ret None by (simp add: keeps_def sendMessage_def)
    next
      case (Inr j)
      then have "accepted_frame (wire_of_json j)"
        using sent_message_parses [of m j] Ret None by (simp add: accepted_frame_def)
      from write_transport_keeps [OF assms this] show ?thesis
        using Ret None Inr by (simp add: keeps_def sendMessage_valid)
    qed
  qed
qed (simp_all add: keeps_def sendMessage_def)

lemma session_SHC_keeps:
  assumes "tr_Write env = wr" and "env_keeps (frames_ok written) env"
  shows "shc_keeps (frames_ok written) (session_SHC env)"
proof -
  let ?P = "frames_ok written"
  note send = sendMessage_keeps [OF assms(1)]
  have oth: "?P s \<Longrightarrow> ?P (others env s)" for s using assms(2) by (simp add: env_keeps_def)
  have await: "keeps ?P (await_response env req pr)" for req pr
    using oth by (auto simp: keeps_def await_response_def Let_def split: option.split go.split prod.split)
  have req: "keeps ?P (Session_Request env n x)" for n x
  proof -
    have "keeps ?P (bind_io (sendMessage env (MRequest r)) (\<lambda>err. case err of
        Some e \<Rightarrow> return_io (Inl (Wrap2 ErrRequestFailed e)) | None \<Rightarrow> await_response env r pr))" for r pr
      by (intro keeps_intros send await)
    then show ?thesis
      by (auto simp: keeps_def Session_Request_def Let_def split: prod.split)
  qed
  have event: "keeps ?P (EventDispatch env n x)" for n x
    using send by (simp add: keeps_def EventDispatch_def)
  have doclose: "keeps ?P (doClose cb)" if "\<And>f. cb = Some f \<Longrightarrow> keeps ?P f" for cb
  proof -
    have "keeps ?P (case cb of None \<Rightarrow> return_io None | Some f \<Rightarrow> f)"
      using that by (cases cb) (simp_all add: keeps_intros)
    then show ?thesis
      unfolding keeps_def doClose_def
      by (auto split: go.split prod.split once.split) (metis frames_ok_simps(3) snd_conv)+
  qed
  have close: "keeps ?P (Session_Close env cb)" if "\<And>f. cb = Some f \<Longrightarrow> keeps ?P f" for cb
    unfolding Session_Close_def
  proof (rule keeps_bind)
    show "keeps ?P (doClose cb)" by (rule doclose) (rule that)
  qed (auto simp: keeps_def Let_def oth split: option.split)
  show ?thesis
    using send req event close assms(2) by (auto simp: shc_keeps_def env_keeps_def)
qed

lemma handleRequest_keeps:
  assumes "tr_Write env = wr" and "env_keeps (frames_ok written) env"
    and "keeps (frames_ok written) (OnRequest h (session_SHC env) req)"
  shows "keeps (frames_ok written) (handleRequest env (Some h) req)"
  unfolding handleRequest_def option.case
  by (intro keeps_intros assms(3) shc_keepsD [OF session_SHC_keeps [OF assms(1,2)]])

end

subsection \<open>The protocol client\<close>

lemma frames_ok_client [simp]:
  "frames_ok written (w\<lparr>ch_locked := b1\<rparr>) = frames_ok written w"
  "frames_ok written (w\<lparr>ch_initialized := b2\<rparr>) = frames_ok written w"
  "frames_ok written (w\<lparr>ch_shc_set := b3\<rparr>) = frames_ok written w"
  "frames_ok written (w\<lparr>ch_pinger := b4\<rparr>) = frames_ok written w"
  "frames_ok written (w\<lparr>ch_tel := t\<rparr>) = frames_ok written w"
  "frames_ok written (w\<lparr>ch_dtmfSeq := q\<rparr>) = frames_ok written w"
  by (simp_all add: frames_ok_def)

lemma keeps_with_mu [keeps_intros]: "keeps (frames_ok written) m \<Longrightarrow> keeps (frames_ok written) (with_mu m)"
  unfolding keeps_def
proof (intro allI impI, goal_cases)
  case (1 w)
  then have "frames_ok written (w\<lparr>ch_locked := True\<rparr>)" by (simp add: frames_ok_def)
  then have "frames_ok written (snd (m (w\<lparr>ch_locked := True\<rparr>)))" using 1 by blast
  then show ?case using 1
    by (auto simp: with_mu_def frames_ok_def split: prod.split go.split)
qed

lemma keeps_on_tel [keeps_intros]: "keeps (frames_ok written) (on_tel f)"
  by (auto simp: keeps_def on_tel_def frames_ok_def split: prod.split)

lemma keeps_check [keeps_intros]: "keeps (frames_ok written) (check h req)"
  unfolding check_def by (intro keeps_with_mu) (simp add: keeps_def)

lemma keeps_sessionTerminateAndClose:
  "shc_keeps P h \<Longrightarrow> keeps P (sessionTerminateAndClose h reason)"
  unfolding sessionTerminateAndClose_def by (intro keeps_intros shc_keepsD)

lemma keeps_answer_ping: "keeps P (answer_ping now r h q)"
  by (auto simp: keeps_def answer_ping_def Let_def split: option.split)

lemma keeps_typed:
  assumes "shc_keeps P h" and "\<And>params. keeps P (th_h t req h params)"
    and "rt_OnAfterReply (th_type t) = None \<or> (\<exists>reason. rt_OnAfterReply (th_type t) =
      Some (\<lambda>params hc. sessionTerminateAndClose hc reason)) \<or>
      rt_OnAfterReply (th_type t) = Some (\<lambda>params hc. return_io None)"
  shows "keeps P (rh_Handle (HandleRequest t) h req)"
  unfolding HandleRequest_Handle
  using assms by (intro keeps_Handle) (auto intro: keeps_sessionTerminateAndClose keeps_return)

lemma keeps_checked:
  assumes "shc_keeps (frames_ok written) h" and "\<And>params. keeps (frames_ok written) (th_h t req h params)"
    and "rt_OnAfterReply (th_type t) = None \<or> (\<exists>reason. rt_OnAfterReply (th_type t) =
      Some (\<lambda>params hc. sessionTerminateAndClose hc reason))"
  shows "keeps (frames_ok written) (rh_Handle (Middleware check (HandleRequest t)) h req)"
  using assms by (intro keeps_Middleware keeps_check keeps_typed) auto

lemma client_requests_keep:
  assumes shc: "shc_keeps (frames_ok written) h" and "r \<in> set (client_requests now tel)"
  shows "keeps (frames_ok written) (rh_Handle r h req)"
proof -
  note checked = keeps_checked [OF shc] and io = keeps_return keeps_lift keeps_bind keeps_on_tel
  consider "r = HandleRequest (ping_handler now)"
    | "r = Middleware check (HandleRequest (call_hangup_handler tel))"
    | "r = Middleware check (HandleRequest (application_move_handler tel))"
    | "r = HandleWithError SessionTerminateRequest_type terminate_refusal"
    | "r = Middleware check (HandleRequest buffer_clear_handler)"
    | "r = Middleware check (HandleRequest (session_set_handler tel))"
    | "r = Middleware check (HandleRequest (session_get_handler tel))"
    | "r = Middleware check (HandleRequest (recording_start_handler tel))"
    | "r = Middleware check (HandleRequest (recording_stop_handler tel))"
    using assms(2) by (simp only: client_requests_def NewPingHandler_def list.set insert_iff empty_iff) blast
  then show ?thesis
  proof cases
    case 1
    show ?thesis unfolding 1
      by (rule keeps_typed [OF shc]) (simp_all add: ping_handler_def PingRequest_type_def keeps_answer_ping)
  next
    case 2
    show ?thesis unfolding 2
      by (rule checked) (auto simp: call_hangup_handler_def CallHangupRequest_type_def intro!: io)
  next
    case 3
    show ?thesis unfolding 3
      by (rule checked) (auto simp: application_move_handler_def ApplicationMoveRequest_type_def intro!: io)
  next
    case 4
    show ?thesis unfolding 4 HandleWithError_def
      by (rule keeps_typed [OF shc]) (simp_all add: SessionTerminateRequest_type_def keeps_return)
  next
    case 5
    show ?thesis unfolding 5
      by (rule checked) (auto simp: buffer_clear_handler_def plain_type_def intro!: io shc_keepsD [OF shc])
  next
    case 6
    show ?thesis unfolding 6
      by (rule checked) (auto simp: session_set_handler_def plain_type_def intro!: io)
  next
    case 7
    show ?thesis unfolding 7
      by (rule checked) (auto simp: session_get_handler_def plain_type_def intro!: io)
  next
    case 8
    show ?thesis unfolding 8
      by (rule checked) (auto simp: recording_start_handler_def plain_type_def intro!: io)
  next
    case 9
    show ?thesis unfolding 9
      by (rule checked) (auto simp: recording_stop_handler_def RecordingStopRequest_type_def
          intro!: io split: option.split)
  qed
qed

lemma client_OnRequest_keeps:
  assumes "shc_keeps (frames_ok written) h"
  shows "keeps (frames_ok written) (OnRequest (NewClientHandler now tel config onAudio) h req)"
proof -
  let ?args = "map ArgRequest (client_requests now tel)"
  have "rh_Handle r h req = rh_Handle r h req \<and> r \<in> set (client_requests now tel)"
    if "map_of (rev (concat (map request_entry ?args))) (Method req) = Some r" for r
    using map_of_SomeD [OF that] by auto
  then show ?thesis
    unfolding NewClientHandler_def NewHandler_simps
    by (intro keeps_option keeps_return) (auto intro: client_requests_keep [OF assms])
qed

lemma client_OnBegin_keeps:
  assumes shc: "shc_keeps (frames_ok written) h" and audio: "keeps (frames_ok written) (onAudio h)"
  shows "keeps (frames_ok written) (OnBegin (NewClientHandler now tel config onAudio) h)"
proof -
  have ready: "keeps (frames_ok written) (\<lambda>w. m (w\<lparr>ch_initialized := True, ch_shc_set := True\<rparr>))"
    if "keeps (frames_ok written) m" for m :: "(goerr + SessionInitializeResponse, ('a, 'b, 'c) client_scheme) io"
    using that by (simp add: keeps_def)
  have body: "keeps (frames_ok written) (\<lambda>w. if ch_initialized w then (Ret (Inl e), w) else m w)"
    if "keeps (frames_ok written) m" for m :: "(goerr + SessionInitializeResponse, ('a, 'b, 'c) client_scheme) io" and e
    using that by (simp add: keeps_def)
  have init: "keeps (frames_ok written) (sessionInitialize h req)" for req
    unfolding sessionInitialize_def
    by (intro keeps_with_mu body keeps_bind shc_keepsD(1) [OF shc] keeps_sum keeps_return ready
        shc_keepsD(3) [OF shc])
  show ?thesis
    unfolding NewClientHandler_def NewHandler_simps option.case client_OnBegin_def
    by (intro keeps_intros init audio) (simp add: keeps_def frames_ok_def)
qed

lemma client_OnEvent_keeps:
  "keeps P (OnEvent (NewClientHandler now tel config onAudio) h evt)"
proof -
  have "concat (map event_entry (map ArgRequest rs)) = []" for rs :: "('a, 'b, 'c) client_scheme RequestHandler list"
    by (induction rs) simp_all
  then show ?thesis unfolding NewClientHandler_def NewHandler_simps by (simp only:) (simp add: keeps_return)
qed

lemma resolvePending_keeps: "keeps (frames_ok written) (resolvePending r)"
  by (auto simp: keeps_def resolvePending_def split: go.split)

context transport_write
begin

lemma client_keeps:
  assumes env: "tr_Write env = wr" "env_keeps (frames_ok written) env"
    and audio: "keeps (frames_ok written) (onAudio (session_SHC env))"
  shows "keeps (frames_ok written) (handleIncomingMessage env (Some (NewClientHandler now tel config onAudio)) m)"
    and "keeps (frames_ok written) (OnBegin (NewClientHandler now tel config onAudio) (session_SHC env))"
proof -
  note shc = session_SHC_keeps [OF env]
  show "keeps (frames_ok written) (OnBegin (NewClientHandler now tel config onAudio) (session_SHC env))"
    by (rule client_OnBegin_keeps [where onAudio = onAudio, OF shc audio])
  show "keeps (frames_ok written) (handleIncomingMessage env (Some (NewClientHandler now tel config onAudio)) m)"
  proof (cases m)
    case (MRequest r)
    then show ?thesis by (simp add: handleRequest_keeps [OF env] client_OnRequest_keeps [OF shc])
  next
    case (MEvent e)
    then show ?thesis
      by (simp add: handleEvent_def keeps_bind keeps_return client_OnEvent_keeps)
  next
    case (MResponse r)
    then show ?thesis by (simp add: resolvePending_keeps)
  qed
qed

end

subsection \<open>Everything the client does\<close>

text \<open>
  What can happen at a protocol client: a package arrives and the reader passes it on, the
  session begins, the program asks for termination, the telephony adapter reports a DTMF
  digit or a hangup, the pinger runs, and the application uses the session context itself,
  with any payload (the audio tracker's events are notifications of this kind).
\<close>

datatype client_activity =
    Package DataPackage
  | Begin
  | TerminateSession string
  | DTMF DTMFEvent
  | HungUp CallHangupEvent
  | Pinger "pinger_event list"
  | AppRequest string any
  | AppNotify string any
  | AppClose

definition handle_package ::
    "('tr, ('tr, 'u) session_scheme) env \<Rightarrow> (('tr, 'u) session_scheme \<Rightarrow> i64)
       \<Rightarrow> ('tr, 'u) session_scheme SessionHandler option \<Rightarrow> DataPackage
       \<Rightarrow> (unit, ('tr, 'u) session_scheme) io" where
  "handle_package env now handler p = (\<lambda>s.
     bind_io (lift_go (receive_package (now s) p)) (\<lambda>r.
       (case r of None \<Rightarrow> return_io () | Some m \<Rightarrow> handleIncomingMessage env handler m)) s)"

definition ignore :: "('a, 'w) io \<Rightarrow> (unit, 'w) io" where
  "ignore m = bind_io m (\<lambda>_. return_io ())"

definition client_act ::
    "('tr, ('tr, 'tel, 'z) client_scheme) env \<Rightarrow> (('tr, 'tel, 'z) client_scheme \<Rightarrow> i64)
       \<Rightarrow> ('tel, client_callback, client_callback) TelephonyAdapter \<Rightarrow> ClientHandlerConfig
       \<Rightarrow> (('tr, 'tel, 'z) client_scheme SHC \<Rightarrow> (goerr option, ('tr, 'tel, 'z) client_scheme) io)
       \<Rightarrow> client_activity \<Rightarrow> (unit, ('tr, 'tel, 'z) client_scheme) io" where
  "client_act env now tel config onAudio a =
     (let h = session_SHC env; handler = NewClientHandler now tel config onAudio in
      case a of
        Package p \<Rightarrow> handle_package env now (Some handler) p
      | Begin \<Rightarrow> ignore (OnBegin handler h)
      | TerminateSession reason \<Rightarrow> ignore (Terminate h reason)
      | DTMF e \<Rightarrow> onDTMF h e
      | HungUp e \<Rightarrow> onHangup h e
      | Pinger es \<Rightarrow> StartPinger now (cfg_PingInterval config) h es
      | AppRequest n x \<Rightarrow> ignore (shc_Request h n x)
      | AppNotify n x \<Rightarrow> ignore (shc_Notify h n x)
      | AppClose \<Rightarrow> ignore (shc_Close h None))"

text \<open>
  A sequence of activities, each in a goroutine of its own: what one leaves behind when it
  returns, panics or blocks is where the next begins.
\<close>

fun client_run ::
    "('tr, ('tr, 'tel, 'z) client_scheme) env \<Rightarrow> (('tr, 'tel, 'z) client_scheme \<Rightarrow> i64)
       \<Rightarrow> ('tel, client_callback, client_callback) TelephonyAdapter \<Rightarrow> ClientHandlerConfig
       \<Rightarrow> (('tr, 'tel, 'z) client_scheme SHC \<Rightarrow> (goerr option, ('tr, 'tel, 'z) client_scheme) io)
       \<Rightarrow> client_activity list \<Rightarrow> ('tr, 'tel, 'z) client_scheme \<Rightarrow> ('tr, 'tel, 'z) client_scheme" where
  "client_run env now tel config onAudio [] s = s"
| "client_run env now tel config onAudio (a # as) s =
     client_run env now tel config onAudio as (snd (client_act env now tel config onAudio a s))"

lemma keeps_ignore: "keeps P m \<Longrightarrow> keeps P (ignore m)"
  unfolding ignore_def by (intro keeps_intros)

lemma keeps_Terminate:
  assumes "shc_keeps (frames_ok written) h"
  shows "keeps (frames_ok written) (Terminate h reason)"
proof -
  have "keeps (frames_ok written) (sessionTerminateAndClose h reason)"
    by (rule keeps_sessionTerminateAndClose [OF assms])
  then show ?thesis unfolding Terminate_def by (intro keeps_with_mu) (simp add: keeps_def)
qed

lemma keeps_onDTMF:
  assumes "shc_keeps (frames_ok written) h"
  shows "keeps (frames_ok written) (onDTMF h e)"
proof -
  have "keeps (frames_ok written) (ignore (shc_Notify h n x))" for n x
    by (rule keeps_ignore [OF shc_keepsD(3) [OF assms]])
  then show ?thesis by (simp add: keeps_def onDTMF_def ignore_def Let_def)
qed

lemma keeps_onHangup: "shc_keeps P h \<Longrightarrow> keeps P (onHangup h e)"
  unfolding onHangup_def by (intro keeps_intros shc_keepsD)

lemma keeps_ping:
  assumes "shc_keeps P h"
  shows "keeps P (ping now h lastRTT)"
  unfolding keeps_def
proof (intro allI impI, goal_cases)
  case (1 w)
  let ?q = "(NewPingRequest (now w))\<lparr>pq_RTT := lastRTT\<rparr>"
  obtain r w' where r: "shc_Request h PingRequest_MethodName (any_PingRequest ?q) w = (r, w')" by fastforce
  have "snd (ping now h lastRTT w) = w'"
    by (cases r) (simp_all add: ping_def Let_def r split: sum.split)
  then show ?case using keepsD [OF shc_keepsD(1) [OF assms] 1 r] by simp
qed

lemma keeps_pinger_loop: "shc_keeps P h \<Longrightarrow> keeps P (pinger_loop now h lastRTT es)"
proof (induction now h lastRTT es rule: pinger_loop.induct)
  case (3 now h lastRTT es)
  then show ?case by (auto intro!: keeps_bind keeps_ping)
qed (simp_all add: keeps_return)

lemma keeps_StartPinger: "shc_keeps P h \<Longrightarrow> keeps P (StartPinger now d h es)"
  unfolding StartPinger_def by (simp add: keeps_lift keeps_pinger_loop)

context transport_write
begin

lemma client_act_keeps:
  assumes env: "tr_Write env = wr" "env_keeps (frames_ok written) env"
    and audio: "keeps (frames_ok written) (onAudio (session_SHC env))"
  shows "keeps (frames_ok written) (client_act env now tel config onAudio a)"
proof -
  note shc = session_SHC_keeps [OF env]
  note client = client_keeps [where onAudio = onAudio, OF env audio]
  have package: "keeps (frames_ok written)
      (handle_package env now (Some (NewClientHandler now tel config onAudio)) p)" for p
  proof -
    have "keeps (frames_ok written) (bind_io (lift_go g) (\<lambda>r. (case r of None \<Rightarrow> return_io ()
        | Some m \<Rightarrow> handleIncomingMessage env (Some (NewClientHandler now tel config onAudio)) m)))" for g
      by (intro keeps_intros client(1))
    then show ?thesis unfolding keeps_def handle_package_def by blast
  qed
  show ?thesis
  proof (cases a)
    case (Pinger es)
    show ?thesis unfolding Pinger client_act_def Let_def client_activity.case
      by (rule keeps_StartPinger [OF shc])
  next
    case (Package p)
    show ?thesis unfolding Package client_act_def Let_def client_activity.case by (rule package)
  next
    case Begin
    show ?thesis unfolding Begin client_act_def Let_def client_activity.case
      by (rule keeps_ignore [OF client(2)])
  next
    case (TerminateSession r)
    show ?thesis unfolding TerminateSession client_act_def Let_def client_activity.case
      by (rule keeps_ignore [OF keeps_Terminate [OF shc]])
  next
    case (DTMF e)
    show ?thesis unfolding DTMF client_act_def Let_def client_activity.case
      by (rule keeps_onDTMF [OF shc])
  next
    case (HungUp e)
    show ?thesis unfolding HungUp client_act_def Let_def client_activity.case
      by (rule keeps_onHangup [OF shc])
  next
    case (AppRequest n x)
    show ?thesis unfolding AppRequest client_act_def Let_def client_activity.case
      by (rule keeps_ignore [OF shc_keepsD(1) [OF shc]])
  next
    case (AppNotify n x)
    show ?thesis unfolding AppNotify client_act_def Let_def client_activity.case
      by (rule keeps_ignore [OF shc_keepsD(3) [OF shc]])
  next
    case AppClose
    show ?thesis unfolding AppClose client_act_def Let_def client_activity.case
      by (rule keeps_ignore [OF shc_keepsD(6) [OF shc]])
  qed
qed

lemma client_run_keeps:
  assumes env: "tr_Write env = wr" "env_keeps (frames_ok written) env"
    and audio: "keeps (frames_ok written) (onAudio (session_SHC env))"
    and "frames_ok written s"
  shows "frames_ok written (client_run env now tel config onAudio as s)"
  using assms(4)
proof (induction as arbitrary: s)
  case (Cons a as)
  have "frames_ok written (snd (client_act env now tel config onAudio a s))"
    using client_act_keeps [where onAudio = onAudio, OF env audio] Cons.prems by (simp add: keeps_def)
  then show ?case using Cons.IH by simp
qed simp

end

text \<open>
  C9. Type safety of the wire: whatever sequence of activities a protocol client goes
  through (packages arriving, \<open>OnBegin\<close>, \<open>Terminate\<close>, DTMF and hangup callbacks, pings,
  requests and notifications of the application with any payload, \<open>Close\<close>), and whether
  each returns, fails, panics or blocks, every text frame it queues on its websocket is
  accepted by the receiver's \<open>ParseValidMessage\<close>.
\<close>

theorem client_writes_only_valid_frames:
  fixes s :: "(controlChannel, 'tel, 'z) client_scheme"
  assumes "tr_Write env = writeOut" and "env_keeps (frames_ok cc_written) env"
    and "keeps (frames_ok cc_written) (onAudio (session_SHC env))" and "frames_ok cc_written s"
    and "s_transport (client_run env now tel config onAudio as s) = Some t" and "f \<in> set (cc_written t)"
  shows "\<exists>m. ParseValidMessage f = Ret (Inr m)"
proof -
  have "accepted_frame f"
    using ws_tr.client_run_keeps [where onAudio = onAudio, OF assms(1-4)] assms(5,6)
    by (fastforce simp: frames_ok_def list_all_iff)
  then show ?thesis by (simp add: accepted_frame_def split: go.splits sum.splits)
qed

text \<open>A client with an empty queue, and the environment it runs in, for the witnesses.\<close>

definition recording_env :: "'tel itself \<Rightarrow> (controlChannel, (controlChannel, 'tel) client) env" where
  "recording_env ty = \<lparr>tr_Write = writeOut, fresh_ID = (\<lambda>_. ''a''), others = id, ctx_done = (\<lambda>_. None),
     audio_ClearReadBuffer = return_io (Inr 0)\<rparr>"

definition ws_client :: "(controlChannel, (client_callback, client_callback) FakeTelephonyAdapter) client" where
  "ws_client =
     \<lparr>s_id = ''s1'', s_state = SessionStateActive, s_transport = Some (newControlChannel (make_chan 16)),
      s_pending = no_pendings, s_once = OnceNew, s_trigger = False, s_final = False,
      ch_locked = False, ch_initialized = False, ch_shc_set = False, ch_dtmfSeq = 0,
      ch_pinger = False, ch_tel = newFakeTelephonyAdapter\<rparr>"

text \<open>A notification, a request that waits for ever, a refused call and an invalid notification.\<close>

definition busy_day :: "client_activity list" where
  "busy_day = [AppNotify ''note'' ANil, AppRequest ''ask'' ANil, TerminateSession ''bye'', AppNotify [] ANil]"

lemma writeOut_queued:
  assumes "Validate m = Ret None" "marshal_message m = Inr j" "tr_Write env = writeOut"
    and "s_transport s = Some (newControlChannel c)" "has_room c" "\<not> ch_closed c"
  shows "sendMessage env m s = (Ret None, s\<lparr>s_transport :=
     Some (newControlChannel (c\<lparr>ch_buf := ch_buf c @ [text_message (wire_of_json j)]\<rparr>))\<rparr>)"
  using assms by (simp add: sendMessage_valid write_transport_def writeOut_def newControlChannel_def send_chan_def
      has_room_def)

lemma busy_messages:
  "Validate (MEvent (NewEvent ''a'' ''note'' ANil)) = Ret None"
  "Validate (MRequest (NewRequest ''a'' ''ask'' ANil)) = Ret None"
  "\<exists>e. Validate (MEvent (NewEvent ''a'' [] ANil)) = Ret (Some e)"
  "\<exists>j. marshal_message (MEvent (NewEvent ''a'' ''note'' ANil)) = Inr j"
  "\<exists>j. marshal_message (MRequest (NewRequest ''a'' ''ask'' ANil)) = Inr j"
  by (simp_all add: constructor_defs Request_Validate_def Event_Validate_def validateBase_def Version_def
      wrap_verdict_def marshal_Request_def marshal_Event_def any_field_def)

lemma busy_day_frames:
  "\<exists>t f g. s_transport (client_run (recording_env TYPE((client_callback, client_callback) FakeTelephonyAdapter))
       (\<lambda>w. 5) (fake_telephony (\<lambda>f. ''r'')) sample_config (\<lambda>h. return_io None) busy_day ws_client) = Some t
     \<and> cc_written t = [f, g]"
proof -
  define env where "env = recording_env TYPE((client_callback, client_callback) FakeTelephonyAdapter)"
  have env: "tr_Write env = writeOut" "fresh_ID env s = ''a''" "others env s = s" "ctx_done env s = None" for s
    by (simp_all add: env_def recording_env_def)
  define msg1 ask where "msg1 = MEvent (NewEvent ''a'' ''note'' ANil)"
    and "ask = MRequest (NewRequest ''a'' ''ask'' ANil)"
  obtain e j1 j2 where m: "Validate (MEvent (NewEvent ''a'' [] ANil)) = Ret (Some e)"
    "marshal_message msg1 = Inr j1" "marshal_message ask = Inr j2"
    using busy_messages(3-5) unfolding msg1_def ask_def by blast
  have v: "Validate msg1 = Ret None" "Validate ask = Ret None"
    using busy_messages(1,2) by (simp_all add: msg1_def ask_def)
  define c1 where "c1 = (make_chan 16)\<lparr>ch_buf := [text_message (wire_of_json j1)]\<rparr>"
  define c2 where "c2 = c1\<lparr>ch_buf := ch_buf c1 @ [text_message (wire_of_json j2)]\<rparr>"
  define s1 where "s1 = ws_client\<lparr>s_transport := Some (newControlChannel c1)\<rparr>"
  have 1: "sendMessage env msg1 ws_client = (Ret None, s1)"
    using writeOut_queued [OF v(1) m(2) env(1), of ws_client "make_chan 16"]
    by (simp add: ws_client_def s1_def c1_def has_room_def make_chan_def)
  obtain pr p where new: "newPendingRequest ''a'' (s_pending s1) = (pr, p)" by fastforce
  have empty: "recv_chan (pr_chans p (pr_ch pr)) = Block"
    using new by (auto simp: newPendingRequest_def Let_def recv_chan_def make_chan_def)
  define s2 where "s2 = s1\<lparr>s_pending := p, s_transport := Some (newControlChannel c2)\<rparr>"
  have 2: "sendMessage env ask (s1\<lparr>s_pending := p\<rparr>) = (Ret None, s2)"
    using writeOut_queued [OF v(2) m(3) env(1), of "s1\<lparr>s_pending := p\<rparr>" c1]
    by (simp add: s1_def s2_def c2_def c1_def has_room_def make_chan_def)
  have flags: "ch_locked s2 = False" "ch_initialized s2 = False" "s_pending s2 = p"
    by (simp_all add: s2_def s1_def ws_client_def)
  let ?act = "client_act env (\<lambda>w. 5) (fake_telephony (\<lambda>f. ''r'')) sample_config (\<lambda>h. return_io None)"
  have "snd (?act (AppNotify ''note'' ANil) ws_client) = s1"
    using 1 by (simp add: client_act_def ignore_def EventDispatch_def env msg1_def)
  moreover have "snd (?act (AppRequest ''ask'' ANil) s1) = s2"
  proof -
    have id: "req_ID (NewRequest ''a'' ''ask'' ANil) = ''a''" by (simp add: constructor_defs)
    have "Session_Request env ''ask'' ANil s1 = (Block, s2)"
      using 2 by (simp add: Session_Request_def env Let_def id new ask_def await_response_def flags empty)
    then show ?thesis by (simp add: client_act_def ignore_def)
  qed
  moreover have "snd (?act (TerminateSession ''bye'') s2) = s2"
    using flags by (simp add: client_act_def ignore_def Terminate_def with_mu_def bind_io_apply s2_def s1_def)
  moreover have "snd (?act (AppNotify [] ANil) s2) = s2"
    using m(1) by (simp add: client_act_def ignore_def EventDispatch_def env sendMessage_invalid)
  ultimately have "client_run env (\<lambda>w. 5) (fake_telephony (\<lambda>f. ''r'')) sample_config (\<lambda>h. return_io None)
      busy_day ws_client = s2" by (simp add: busy_day_def)
  then show ?thesis
    by (simp add: env_def s2_def c2_def c1_def cc_written_def newControlChannel_def)
qed

theorem client_writes_only_valid_frames_witness:
  "\<exists>t f g. s_transport (client_run (recording_env TYPE((client_callback, client_callback) FakeTelephonyAdapter))
       (\<lambda>w. 5) (fake_telephony (\<lambda>f. ''r'')) sample_config (\<lambda>h. return_io None) busy_day ws_client) = Some t
     \<and> cc_written t = [f, g] \<and> (\<exists>m. ParseValidMessage f = Ret (Inr m)) \<and> (\<exists>m. ParseValidMessage g = Ret (Inr m))"
proof -
  let ?env = "recording_env TYPE((client_callback, client_callback) FakeTelephonyAdapter)"
  obtain t f g where t: "s_transport (client_run ?env (\<lambda>w. 5) (fake_telephony (\<lambda>f. ''r'')) sample_config
      (\<lambda>h. return_io None) busy_day ws_client) = Some t" and w: "cc_written t = [f, g]"
    using busy_day_frames by blast
  have ok: "tr_Write ?env = writeOut" "env_keeps (frames_ok cc_written) ?env"
      "keeps (frames_ok cc_written) (return_io None)" "frames_ok cc_written ws_client"
    by (simp_all add: recording_env_def env_keeps_def keeps_return frames_ok_def ws_client_def
        newControlChannel_def cc_written_def make_chan_def)
  have "\<exists>m. ParseValidMessage x = Ret (Inr m)" if "x \<in> set (cc_written t)" for x
    using client_writes_only_valid_frames [of ?env "\<lambda>h. return_io None" ws_client, OF ok t that] .
  with t w show ?thesis by auto
qed

end
