(* ===== verification/Hops.thy ===== *)
theory Hops
  imports WellFormed
begin

section \<open>A request and its answer across all layers\<close>

text \<open>
  What end-to-end properties share: a valid request that is marshalled, framed, parsed and
  stamped with its receive time; and a typed handler's result that is validated,
  marshalled, queued, parsed and decoded by the peer.
\<close>

definition arrived :: "string \<Rightarrow> string \<Rightarrow> any \<Rightarrow> i64 \<Rightarrow> Request" where
  "arrived i n x t = (NewRequest i n (received_any x))\<lparr>receivedAt := t\<rparr>"

lemma arrived_simps [simp]:
  "receivedAt (arrived i n x t) = t" "Params (arrived i n x t) = received_any x"
  "req_ID (arrived i n x t) = i" "Method (arrived i n x t) = n"
  by (simp_all add: arrived_def constructor_defs)

lemma arrived_valid: "i \<noteq> [] \<Longrightarrow> n \<noteq> [] \<Longrightarrow> Request_Validate (arrived i n x t) = Ret None"
  by (simp add: arrived_def constructor_defs Request_Validate_def validateBase_def Version_def)

lemma request_arrives:
  assumes v: "Request_Validate (NewRequest i n x) = Ret None" and "t \<noteq> 0"
    and m: "marshal_message (MRequest (NewRequest i n x)) = Inr j"
  shows "receive_package now1 \<lparr>dp_Data = wire_of_json j, dp_ReceivedAt = t\<rparr> = Ret (Some (MRequest (arrived i n x t)))"
proof -
  have "parseMessage (wire_of_json j) = Inr (received (MRequest (NewRequest i n x)))"
    using v m by (intro sent_parses) simp_all
  moreover have "Validate (received (MRequest (NewRequest i n x))) = Ret None"
    using v by (intro received_valid) simp
  ultimately have "ParseValidMessage (wire_of_json j) = Ret (Inr (received (MRequest (NewRequest i n x))))"
    by (rule ParseValidMessage_valid)
  then show ?thesis
    using assms(2) by (simp add: receive_package_def arrived_def constructor_defs)
qed

lemma ok_response_parses:
  assumes "sendable (Ok req x) j"
  shows "ParseValidMessage (wire_of_json j) = Ret (Inr (received (MResponse (Ok req x))))"
proof -
  have v: "Validate (MResponse (Ok req x)) = Ret None" and m: "marshal_message (MResponse (Ok req x)) = Inr j"
    using assms by (simp_all add: sendable_def)
  from sent_parses [OF v m] received_valid [OF v] show ?thesis by (rule ParseValidMessage_valid)
qed

lemma answered_over_websocket:
  assumes "i \<noteq> []" and "n \<noteq> []"
    and disp: "OnRequest h (session_SHC env) (arrived i n x t) = Handle th (session_SHC env) (arrived i n x t)"
    and hook: "rt_OnAfterReply (th_type th) = None"
    and run: "handler_result th (session_SHC env) (arrived i n x t) s = (Ret (Inr (params, y)), s1)"
    and y: "marshal_any y = Inr k" "validate_any y = Ret None"
    and env: "tr_Write env = writeOut" and tr: "s_transport s1 = Some cc"
    and room: "\<not> cc_closed cc" "has_room (cc_output cc)"
  shows "\<exists>cc' frame resp. handleRequest env (Some h) (arrived i n x t) s = (Ret (), s1\<lparr>s_transport := Some cc'\<rparr>)
    \<and> writeOut frame cc = (Ret None, cc') \<and> cc_written cc' = cc_written cc @ [frame]
    \<and> ParseValidMessage frame = Ret (Inr (MResponse resp)) \<and> Response_ID resp = i
    \<and> Error resp = None \<and> Result resp = received_any y"
proof -
  obtain j where j: "sendable (Ok (arrived i n x t) y) j"
    using sendable_Ok [OF arrived_valid [OF assms(1,2)] y] by blast
  obtain cc' where acc: "writeOut (wire_of_json j) cc = (Ret None, cc')"
    using room by (simp add: writeOut_def send_chan_def has_room_def)
  have "sendable (reply_for (arrived i n x t) (Inr (params, y))) j" using j by (simp add: reply_for_def)
  from ws_tr.handleRequest_one_reply [OF env disp hook run tr this acc] ok_response_parses [OF j] acc
  show ?thesis
    by (intro exI [of _ cc'] exI [of _ "wire_of_json j"]
        exI [of _ "(Ok (arrived i n x t) y)\<lparr>receivedAt := 0, Result := received_any y, Error := None\<rparr>"]) simp
qed

end
