(* ===== verification/Audio.thy ===== *)
theory Audio
  imports Handlers GoChan
begin

section \<open>Audio channels, observers, loopback and copying (audio.go, audio_observe.go, audio/)\<close>

text \<open>
  The pair of ring buffers between session and transport, the observer around a session's
  side, the loopback buffer of the demo handlers and the copy loop. The ring buffer is
  a third-party package: its operations are a record of functions over an abstract
  buffer state \<open>'rb\<close>. Reading and writing return what \<open>io.Reader\<close> and \<open>io.Writer\<close> do: the
  bytes (or their number) together with an error that may be nil.
\<close>

type_synonym byte = "8 word"

type_synonym 'w reader = "nat \<Rightarrow> (byte list \<times> goerr option, 'w) io"
type_synonym 'w writer = "byte list \<Rightarrow> (int \<times> goerr option, 'w) io"

subsection \<open>The duplex channel\<close>

record 'rb ringbuffer =
  rb_New :: "int \<Rightarrow> 'rb"
  rb_Read :: "'rb reader"
  rb_Write :: "'rb writer"
  rb_Length :: "'rb \<Rightarrow> int"
  rb_Reset :: "'rb \<Rightarrow> 'rb"
  rb_CloseWithError :: "goerr \<Rightarrow> 'rb \<Rightarrow> 'rb"

datatype audio_side = SessionSide | TransportSide

record 'rb audio_channel =
  transportBuffer :: 'rb
  sessionBuffer :: 'rb

definition NewAudioChannel :: "'rb ringbuffer \<Rightarrow> int \<Rightarrow> 'rb audio_channel" where
  "NewAudioChannel rb audioBufferSize =
     \<lparr>transportBuffer = rb_New rb audioBufferSize, sessionBuffer = rb_New rb audioBufferSize\<rparr>"

text \<open>The fields \<open>reader\<close> and \<open>writer\<close> of an \<open>AudioChannelSide\<close>.\<close>

fun side_reader :: "audio_side \<Rightarrow> 'rb audio_channel \<Rightarrow> 'rb" where
  "side_reader TransportSide ac = transportBuffer ac"
| "side_reader SessionSide ac = sessionBuffer ac"

fun side_writer :: "audio_side \<Rightarrow> 'rb audio_channel \<Rightarrow> 'rb" where
  "side_writer TransportSide ac = sessionBuffer ac"
| "side_writer SessionSide ac = transportBuffer ac"

fun set_reader :: "audio_side \<Rightarrow> 'rb \<Rightarrow> 'rb audio_channel \<Rightarrow> 'rb audio_channel" where
  "set_reader TransportSide b ac = ac\<lparr>transportBuffer := b\<rparr>"
| "set_reader SessionSide b ac = ac\<lparr>sessionBuffer := b\<rparr>"

fun set_writer :: "audio_side \<Rightarrow> 'rb \<Rightarrow> 'rb audio_channel \<Rightarrow> 'rb audio_channel" where
  "set_writer TransportSide b ac = ac\<lparr>sessionBuffer := b\<rparr>"
| "set_writer SessionSide b ac = ac\<lparr>transportBuffer := b\<rparr>"

definition side_Read :: "'rb ringbuffer \<Rightarrow> audio_side \<Rightarrow> 'rb audio_channel reader" where
  "side_Read rb sd n = (\<lambda>ac. case rb_Read rb n (side_reader sd ac) of (r, b) \<Rightarrow> (r, set_reader sd b ac))"

definition side_Write :: "'rb ringbuffer \<Rightarrow> audio_side \<Rightarrow> 'rb audio_channel writer" where
  "side_Write rb sd p = (\<lambda>ac. case rb_Write rb p (side_writer sd ac) of (r, b) \<Rightarrow> (r, set_writer sd b ac))"

definition side_ClearReadBuffer ::
    "'rb ringbuffer \<Rightarrow> audio_side \<Rightarrow> (goerr + int, 'rb audio_channel) io" where
  "side_ClearReadBuffer rb sd = (\<lambda>ac.
     (let n = rb_Length rb (side_reader sd ac)
      in (Ret (Inr n), set_reader sd (rb_Reset rb (side_reader sd ac)) ac)))"

definition side_Close :: "'rb ringbuffer \<Rightarrow> audio_side \<Rightarrow> (goerr option, 'rb audio_channel) io" where
  "side_Close rb sd = (\<lambda>ac.
     (let ac1 = set_writer sd (rb_CloseWithError rb IoEOF (side_writer sd ac)) ac
      in (Ret None, set_reader sd (rb_CloseWithError rb IoEOF (side_reader sd ac1)) ac1)))"

subsection \<open>Observers\<close>

record 'w AudioStreamObserver =
  ob_OnRead :: "(int \<Rightarrow> 'w \<Rightarrow> 'w) option"
  ob_OnReadError :: "(goerr \<Rightarrow> 'w \<Rightarrow> 'w) option"
  ob_OnWrite :: "(int \<Rightarrow> 'w \<Rightarrow> 'w) option"
  ob_OnWriteError :: "(goerr \<Rightarrow> 'w \<Rightarrow> 'w) option"
  ob_OnBufferCleared :: "(int \<Rightarrow> 'w \<Rightarrow> 'w) option"

definition observe_result ::
    "(int \<Rightarrow> 'w \<Rightarrow> 'w) option \<Rightarrow> (goerr \<Rightarrow> 'w \<Rightarrow> 'w) option \<Rightarrow> int \<Rightarrow> goerr option \<Rightarrow> 'w \<Rightarrow> 'w" where
  "observe_result on_n on_err n err w =
     (case (err, on_err) of
        (Some e, Some f) \<Rightarrow> f e w
      | _ \<Rightarrow> (case on_n of Some g \<Rightarrow> g n w | None \<Rightarrow> w))"

definition observed_Read :: "'w AudioStreamObserver \<Rightarrow> 'w reader \<Rightarrow> 'w reader" where
  "observed_Read ob rd sz = bind_io (rd sz) (\<lambda>(p, err). (\<lambda>w.
     (Ret (p, err), observe_result (ob_OnRead ob) (ob_OnReadError ob) (int (length p)) err w)))"

definition observed_Write :: "'w AudioStreamObserver \<Rightarrow> 'w writer \<Rightarrow> 'w writer" where
  "observed_Write ob wr p = bind_io (wr p) (\<lambda>(n, err). (\<lambda>w.
     (Ret (n, err), observe_result (ob_OnWrite ob) (ob_OnWriteError ob) n err w)))"

definition observed_ClearReadBuffer ::
    "'w AudioStreamObserver \<Rightarrow> (goerr + int, 'w) io \<Rightarrow> (goerr + int, 'w) io" where
  "observed_ClearReadBuffer ob clr = bind_io clr (\<lambda>r. (\<lambda>w.
     (Ret r, case (r, ob_OnBufferCleared ob) of (Inr n, Some f) \<Rightarrow> f n w | _ \<Rightarrow> w)))"

subsection \<open>The loopback buffer\<close>

text \<open>A blocked \<open>Read\<close> waits on the condition variable and is tried again.\<close>

record loopback =
  lb_buf :: "byte list"
  lb_closed :: bool

definition NewLoopback :: loopback where
  "NewLoopback = \<lparr>lb_buf = [], lb_closed = False\<rparr>"

definition loopback_Write :: "loopback writer" where
  "loopback_Write p = (\<lambda>l.
     (if lb_closed l then (Ret (0, Some IoErrClosedPipe), l)
      else (Ret (int (length p), None), l\<lparr>lb_buf := lb_buf l @ p\<rparr>)))"

definition loopback_Read :: "loopback reader" where
  "loopback_Read n = (\<lambda>l.
     (if lb_buf l = [] \<and> \<not> lb_closed l then (Block, l)
      else if lb_buf l = [] \<and> lb_closed l then (Ret ([], Some IoEOF), l)
      else (Ret (take n (lb_buf l), None), l\<lparr>lb_buf := drop n (lb_buf l)\<rparr>)))"

definition loopback_Close :: "(goerr option, loopback) io" where
  "loopback_Close = (\<lambda>l. (Ret None, l\<lparr>lb_closed := True\<rparr>))"

subsection \<open>The copy loop\<close>

partial_function (option) CopyWithBuf ::
    "'w reader \<Rightarrow> 'w writer \<Rightarrow> nat \<Rightarrow> 'w \<Rightarrow> (goerr option go \<times> 'w) option" where
  "CopyWithBuf rd wr sz w =
     (case rd sz w of
        (Panic m, w1) \<Rightarrow> Some (Panic m, w1)
      | (Block, w1) \<Rightarrow> Some (Block, w1)
      | (Ret (p, Some err), w1) \<Rightarrow>
          if err = IoEOF then Some (Ret None, w1)
          else if err_text err = ''reset called'' then CopyWithBuf rd wr sz w1
          else Some (Ret (Some err), w1)
      | (Ret (p, None), w1) \<Rightarrow>
          (case wr p w1 of
             (Panic m, w2) \<Rightarrow> Some (Panic m, w2)
           | (Block, w2) \<Rightarrow> Some (Block, w2)
           | (Ret (n, Some err), w2) \<Rightarrow> Some (Ret (Some err), w2)
           | (Ret (n, None), w2) \<Rightarrow> CopyWithBuf rd wr sz w2))"

definition Copy :: "'w reader \<Rightarrow> 'w writer \<Rightarrow> nat \<Rightarrow> 'w \<Rightarrow> (goerr option go \<times> 'w) option" where
  "Copy rd wr sz = CopyWithBuf rd wr sz"

subsection \<open>The two directions of a channel\<close>

lemma side_simps [simp]:
  "side_reader sd (set_reader sd b ac) = b" "side_writer sd (set_writer sd b ac) = b"
  "side_writer sd (set_reader sd b ac) = side_writer sd ac"
  "side_reader sd (set_writer sd b ac) = side_reader sd ac"
  by (cases sd; simp)+

fun peer :: "audio_side \<Rightarrow> audio_side" where
  "peer SessionSide = TransportSide"
| "peer TransportSide = SessionSide"

lemma peer_simps [simp]:
  "side_reader (peer sd) ac = side_writer sd ac" "side_writer (peer sd) ac = side_reader sd ac"
  by (cases sd; simp)+

lemma side_independent [simp]:
  "side_reader sd (set_reader (peer sd) b ac) = side_reader sd ac"
  "side_reader (peer sd) (set_reader sd b ac) = side_reader (peer sd) ac"
  by (cases sd; simp)+

text \<open>
  The channel is duplex: what one side writes goes into the buffer its peer reads
  from, and only there; reading and clearing touch only the side's own read buffer;
  \<open>ClearReadBuffer\<close> returns how many bytes were buffered; closing either side closes both
  directions with \<open>io.EOF\<close>. This holds for any ring buffer.
\<close>

theorem audio_channel_duplex:
  "side_Write rb sd p ac =
      (case rb_Write rb p (side_reader (peer sd) ac) of (r, b) \<Rightarrow> (r, set_reader (peer sd) b ac))
   \<and> side_reader sd (set_reader (peer sd) b ac) = side_reader sd ac
   \<and> side_Read rb sd n ac =
      (case rb_Read rb n (side_reader sd ac) of (r, b) \<Rightarrow> (r, set_reader sd b ac))
   \<and> side_ClearReadBuffer rb sd ac =
      (Ret (Inr (rb_Length rb (side_reader sd ac))), set_reader sd (rb_Reset rb (side_reader sd ac)) ac)
   \<and> side_Close rb sd ac = (Ret None,
      \<lparr>transportBuffer = rb_CloseWithError rb IoEOF (transportBuffer ac),
       sessionBuffer = rb_CloseWithError rb IoEOF (sessionBuffer ac)\<rparr>)"
  by (cases sd; cases ac)
     (simp_all add: side_Write_def side_Read_def side_ClearReadBuffer_def side_Close_def Let_def)

subsection \<open>Observers are transparent\<close>

text \<open>
  An observed stream returns exactly what the stream returns; on a call that does
  not panic the observer is told once: the error if there is one and it has a callback
  for errors, otherwise the number of bytes, if it has a callback for those.
\<close>

theorem observer_transparent:
  "fst (observed_Read ob rd sz w) = fst (rd sz w)
   \<and> snd (observed_Read ob rd sz w) =
      (case rd sz w of
         (Ret (p, Some e), w1) \<Rightarrow> (case (ob_OnReadError ob, ob_OnRead ob) of
            (Some f, _) \<Rightarrow> f e w1 | (None, Some g) \<Rightarrow> g (int (length p)) w1 | (None, None) \<Rightarrow> w1)
       | (Ret (p, None), w1) \<Rightarrow> (case ob_OnRead ob of Some g \<Rightarrow> g (int (length p)) w1 | None \<Rightarrow> w1)
       | (_, w1) \<Rightarrow> w1)
   \<and> fst (observed_Write ob wr p w) = fst (wr p w)
   \<and> snd (observed_Write ob wr p w) =
      (case wr p w of
         (Ret (n, Some e), w1) \<Rightarrow> (case (ob_OnWriteError ob, ob_OnWrite ob) of
            (Some f, _) \<Rightarrow> f e w1 | (None, Some g) \<Rightarrow> g n w1 | (None, None) \<Rightarrow> w1)
       | (Ret (n, None), w1) \<Rightarrow> (case ob_OnWrite ob of Some g \<Rightarrow> g n w1 | None \<Rightarrow> w1)
       | (_, w1) \<Rightarrow> w1)"
  by (auto simp: observed_Read_def observed_Write_def bind_io_apply observe_result_def
      split: prod.split go.split option.split)

subsection \<open>Copying a loopback\<close>

lemma loopback_Read_closed:
  "lb_closed l \<Longrightarrow> loopback_Read n l =
     (if lb_buf l = [] then (Ret ([], Some IoEOF), l)
      else (Ret (take n (lb_buf l), None), l\<lparr>lb_buf := drop n (lb_buf l)\<rparr>))"
  by (simp add: loopback_Read_def)

definition pair_rd :: "'a reader \<Rightarrow> ('a \<times> 'b) reader" where
  "pair_rd rd n = (\<lambda>(a, b). case rd n a of (r, a') \<Rightarrow> (r, (a', b)))"

definition pair_wr :: "'b writer \<Rightarrow> ('a \<times> 'b) writer" where
  "pair_wr wr p = (\<lambda>(a, b). case wr p b of (r, b') \<Rightarrow> (r, (a, b')))"

lemma copy_loopback:
  assumes "0 < sz" and "lb_closed a" and "\<not> lb_closed b"
  shows "CopyWithBuf (pair_rd loopback_Read) (pair_wr loopback_Write) sz (a, b) =
    Some (Ret None, (a\<lparr>lb_buf := []\<rparr>, b\<lparr>lb_buf := lb_buf b @ lb_buf a\<rparr>))"
  using assms
proof (induction "length (lb_buf a)" arbitrary: a b rule: less_induct)
  case less
  show ?case
  proof (cases "lb_buf a = []")
    case True
    with less.prems show ?thesis
      by (subst CopyWithBuf.simps) (simp add: pair_rd_def loopback_Read_closed)
  next
    case False
    let ?a = "a\<lparr>lb_buf := drop sz (lb_buf a)\<rparr>" and ?b = "b\<lparr>lb_buf := lb_buf b @ take sz (lb_buf a)\<rparr>"
    have "CopyWithBuf (pair_rd loopback_Read) (pair_wr loopback_Write) sz (a, b) =
        CopyWithBuf (pair_rd loopback_Read) (pair_wr loopback_Write) sz (?a, ?b)"
      using False less.prems
      by (subst CopyWithBuf.simps) (simp add: pair_rd_def pair_wr_def loopback_Read_closed loopback_Write_def)
    also have "\<dots> = Some (Ret None, (?a\<lparr>lb_buf := []\<rparr>, ?b\<lparr>lb_buf := lb_buf ?b @ lb_buf ?a\<rparr>))"
      using False less.prems by (intro less.hyps) simp_all
    finally show ?thesis by simp
  qed
qed

text \<open>
  C32. Copying terminates and loses nothing: copying a closed loopback into an open one
  with a buffer of any positive size returns nil, with all bytes appended in order, and
  the source empty.
\<close>

theorem copy_moves_everything:
  assumes "0 < sz" and "lb_closed a" and "\<not> lb_closed b"
  shows "Copy (pair_rd loopback_Read) (pair_wr loopback_Write) sz (a, b) =
    Some (Ret None, (a\<lparr>lb_buf := []\<rparr>, b\<lparr>lb_buf := lb_buf b @ lb_buf a\<rparr>))"
  unfolding Copy_def using assms by (rule copy_loopback)

theorem copy_moves_everything_witness:
  "Copy (pair_rd loopback_Read) (pair_wr loopback_Write) 2
     (\<lparr>lb_buf = [1, 2, 3], lb_closed = True\<rparr>, NewLoopback)
   = Some (Ret None, (\<lparr>lb_buf = [], lb_closed = True\<rparr>, \<lparr>lb_buf = [1, 2, 3], lb_closed = False\<rparr>))"
  using copy_moves_everything [of 2 "\<lparr>lb_buf = [1, 2, 3], lb_closed = True\<rparr>" NewLoopback]
  by (simp add: NewLoopback_def)

text \<open>
  The loop drops bytes that arrive together with an error: whatever a read returns
  besides \<open>io.EOF\<close> is not written, although a reader may return both.
\<close>

theorem copy_drops_bytes_read_with_EOF:
  assumes "rd sz w = (Ret (p, Some IoEOF), w1)"
  shows "CopyWithBuf rd wr sz w = Some (Ret None, w1)"
  using assms by (subst CopyWithBuf.simps) simp

definition last_chunk :: "byte list \<Rightarrow> loopback reader" where
  "last_chunk p n = return_io (p, Some IoEOF)"

theorem copy_drops_bytes_read_with_EOF_witness:
  "CopyWithBuf (last_chunk [1, 2]) loopback_Write 8 NewLoopback = Some (Ret None, NewLoopback)"
  by (rule copy_drops_bytes_read_with_EOF) (simp add: last_chunk_def)

subsection \<open>Bytes through a loopback\<close>

text \<open>Byte by byte an open loopback is a first-in first-out channel without a bound.\<close>

definition loopback_send :: "byte \<Rightarrow> loopback \<Rightarrow> loopback option" where
  "loopback_send x l = (case loopback_Write [x] l of (Ret (n, None), l') \<Rightarrow> Some l' | _ \<Rightarrow> None)"

definition loopback_recv :: "loopback \<Rightarrow> (byte \<times> loopback) option" where
  "loopback_recv l = (case loopback_Read 1 l of (Ret ([x], None), l') \<Rightarrow> Some (x, l') | _ \<Rightarrow> None)"

interpretation loopback_fifo: fifo loopback_send loopback_recv lb_buf "\<lambda>l. \<not> lb_closed l"
  by unfold_locales
     (auto simp: loopback_send_def loopback_recv_def loopback_Write_def loopback_Read_def)

text \<open>
  A loopback returns its bytes in order: in any run of writes and reads of single
  bytes from a new loopback, also across a close, the bytes read are a prefix of the
  bytes accepted and the rest is still buffered.
\<close>

theorem loopback_in_order:
  assumes "chan_run loopback_send loopback_recv ops NewLoopback = (acc, del, l)"
  shows "acc = del @ lb_buf l"
  using loopback_fifo.run_prefix [OF assms] by (simp add: NewLoopback_def)

theorem loopback_in_order_witness:
  "chan_run loopback_send loopback_recv [ChRecv, ChSend 1, ChSend 2, ChRecv] NewLoopback
     = ([1, 2], [1], \<lparr>lb_buf = [2], lb_closed = False\<rparr>)
   \<and> [1, 2] = [1] @ lb_buf \<lparr>lb_buf = [2 :: byte], lb_closed = False\<rparr>"
proof
  show run: "chan_run loopback_send loopback_recv [ChRecv, ChSend 1, ChSend 2, ChRecv] NewLoopback
     = ([1, 2], [1], \<lparr>lb_buf = [2], lb_closed = False\<rparr>)"
    by (simp add: loopback_send_def loopback_recv_def loopback_Write_def loopback_Read_def NewLoopback_def)
  show "[1, 2] = [1] @ lb_buf \<lparr>lb_buf = [2 :: byte], lb_closed = False\<rparr>"
    by (rule loopback_in_order [OF run])
qed

end
