(* ===== verification/Duplex.thy ===== *)
theory Duplex
  imports Audio "HOL-Library.Sublist"
begin

section \<open>Copying in both directions (audio/stream.go, examples/loadtest)\<close>

text \<open>
  \<open>DuplexCopy\<close> runs the copy loop of \<open>Audio\<close> twice, in two goroutines. A loop is a program
  counter with what it has read and written so far, and the bytes that a \<open>Read\<close> returned
  together with an error, which the loop drops; a step is one call of \<open>Read\<close> or \<open>Write\<close>. The two loops and the rest of the program interleave freely. The echo loop of
  the load test copies a stream to itself.
\<close>

subsection \<open>One copy loop, call by call\<close>

datatype copy_pc = CpRead | CpWrite "byte list" | CpDone "goerr option" | CpPanicked

record copier =
  cp_pc :: copy_pc
  cp_read :: "byte list"
  cp_written :: "byte list"
  cp_dropped :: "byte list"

definition copier_new :: copier where
  "copier_new = \<lparr>cp_pc = CpRead, cp_read = [], cp_written = [], cp_dropped = []\<rparr>"

inductive copy_step :: "'w reader \<Rightarrow> 'w writer \<Rightarrow> nat \<Rightarrow> copier \<times> 'w \<Rightarrow> copier \<times> 'w \<Rightarrow> bool"
  for rd wr sz where
  cs_read: "cp_pc c = CpRead \<Longrightarrow> rd sz w = (Ret (p, None), w') \<Longrightarrow>
    copy_step rd wr sz (c, w) (c\<lparr>cp_pc := CpWrite p, cp_read := cp_read c @ p\<rparr>, w')"
| cs_eof: "cp_pc c = CpRead \<Longrightarrow> rd sz w = (Ret (p, Some IoEOF), w') \<Longrightarrow>
    copy_step rd wr sz (c, w) (c\<lparr>cp_pc := CpDone None, cp_dropped := cp_dropped c @ p\<rparr>, w')"
| cs_reset: "cp_pc c = CpRead \<Longrightarrow> rd sz w = (Ret (p, Some err), w') \<Longrightarrow> err \<noteq> IoEOF \<Longrightarrow>
    err_text err = ''reset called'' \<Longrightarrow> 
    copy_step rd wr sz (c, w) (c\<lparr>cp_dropped := cp_dropped c @ p\<rparr>, w')"
| cs_err: "cp_pc c = CpRead \<Longrightarrow> rd sz w = (Ret (p, Some err), w') \<Longrightarrow> err \<noteq> IoEOF \<Longrightarrow>
    err_text err \<noteq> ''reset called'' \<Longrightarrow>
    copy_step rd wr sz (c, w) (c\<lparr>cp_pc := CpDone (Some err), cp_dropped := cp_dropped c @ p\<rparr>, w')"
| cs_read_panic: "cp_pc c = CpRead \<Longrightarrow> rd sz w = (Panic m, w') \<Longrightarrow>
    copy_step rd wr sz (c, w) (c\<lparr>cp_pc := CpPanicked\<rparr>, w')"
| cs_write: "cp_pc c = CpWrite p \<Longrightarrow> wr p w = (Ret (n, None), w') \<Longrightarrow>
    copy_step rd wr sz (c, w) (c\<lparr>cp_pc := CpRead, cp_written := cp_written c @ p\<rparr>, w')"
| cs_write_err: "cp_pc c = CpWrite p \<Longrightarrow> wr p w = (Ret (n, Some err), w') \<Longrightarrow>
    copy_step rd wr sz (c, w) (c\<lparr>cp_pc := CpDone (Some err)\<rparr>, w')"
| cs_write_panic: "cp_pc c = CpWrite p \<Longrightarrow> wr p w = (Panic m, w') \<Longrightarrow>
    copy_step rd wr sz (c, w) (c\<lparr>cp_pc := CpPanicked\<rparr>, w')"

inductive_cases copy_stepE: "copy_step rd wr sz (c, w) (c', w')"

text \<open>What a loop has in its hands, and that it loses and reorders nothing else.\<close>

definition copier_ok :: "copier \<Rightarrow> bool" where
  "copier_ok c \<longleftrightarrow> (case cp_pc c of
      CpRead \<Rightarrow> cp_read c = cp_written c
    | CpWrite p \<Rightarrow> cp_read c = cp_written c @ p
    | _ \<Rightarrow> prefix (cp_written c) (cp_read c))"

fun copy_hand :: "copy_pc \<Rightarrow> byte list" where
  "copy_hand (CpWrite p) = p"
| "copy_hand _ = []"

fun copy_running :: "copy_pc \<Rightarrow> bool" where
  "copy_running (CpDone e) = False"
| "copy_running CpPanicked = False"
| "copy_running _ = True"

lemma copier_ok_running: "copier_ok c \<Longrightarrow> copy_running (cp_pc c) \<Longrightarrow> cp_read c = cp_written c @ copy_hand (cp_pc c)"
  by (cases "cp_pc c") (simp_all add: copier_ok_def)

lemma copier_ok_new [simp]: "copier_ok copier_new"
  by (simp add: copier_ok_def copier_new_def)

lemma copier_ok_step: "copy_step rd wr sz (c, w) (c', w') \<Longrightarrow> copier_ok c \<Longrightarrow> copier_ok c'"
  by (auto simp: copier_ok_def elim!: copy_stepE)

lemma copier_ok_prefix: "copier_ok c \<Longrightarrow> prefix (cp_written c) (cp_read c)"
  by (auto simp: copier_ok_def split: copy_pc.splits)

subsection \<open>The loop as a run of calls\<close>

text \<open>How a run of calls ends, for each outcome of the loop of \<open>Audio\<close>.\<close>

fun copy_ends ::
    "'w reader \<Rightarrow> 'w writer \<Rightarrow> nat \<Rightarrow> goerr option go \<Rightarrow> 'w \<Rightarrow> copier \<times> 'w \<Rightarrow> bool" where
  "copy_ends rd wr sz (Ret e) w' (c, w) \<longleftrightarrow> cp_pc c = CpDone e \<and> w = w'"
| "copy_ends rd wr sz (Panic m) w' (c, w) \<longleftrightarrow> cp_pc c = CpPanicked \<and> w = w'"
| "copy_ends rd wr sz Block w' (c, w) \<longleftrightarrow>
     cp_pc c = CpRead \<and> rd sz w = (Block, w') \<or> (\<exists>p. cp_pc c = CpWrite p \<and> wr p w = (Block, w'))"

definition copy_runs ::
    "'w reader \<Rightarrow> 'w writer \<Rightarrow> nat \<Rightarrow> copier \<times> 'w \<Rightarrow> goerr option go \<Rightarrow> 'w \<Rightarrow> bool" where
  "copy_runs rd wr sz s r w' \<longleftrightarrow> (\<exists>s'. (copy_step rd wr sz)\<^sup>*\<^sup>* s s' \<and> copy_ends rd wr sz r w' s')"

lemma copy_runs_now: "copy_ends rd wr sz r w' s \<Longrightarrow> copy_runs rd wr sz s r w'"
  unfolding copy_runs_def by blast

lemma copy_runs_step: "copy_step rd wr sz s s1 \<Longrightarrow> copy_runs rd wr sz s1 r w' \<Longrightarrow> copy_runs rd wr sz s r w'"
  unfolding copy_runs_def by (blast intro: run_step [where step = "copy_step rd wr sz"])

lemma copy_runs_one: "copy_step rd wr sz s s1 \<Longrightarrow> copy_ends rd wr sz r w' s1 \<Longrightarrow> copy_runs rd wr sz s r w'"
  by (blast intro: copy_runs_step copy_runs_now)

lemma copy_body_runs:
  assumes IH: "\<And>w y c. f rd wr sz w = Some y \<Longrightarrow> cp_pc c = CpRead \<Longrightarrow> copy_runs rd wr sz (c, w) (fst y) (snd y)"
    and body: "(case rd sz w of
        (Panic m, w1) \<Rightarrow> Some (Panic m, w1)
      | (Block, w1) \<Rightarrow> Some (Block, w1)
      | (Ret (p, Some err), w1) \<Rightarrow>
          if err = IoEOF then Some (Ret None, w1)
          else if err_text err = ''reset called'' then f rd wr sz w1
          else Some (Ret (Some err), w1)
      | (Ret (p, None), w1) \<Rightarrow>
          (case wr p w1 of
             (Panic m, w2) \<Rightarrow> Some (Panic m, w2)
           | (Block, w2) \<Rightarrow> Some (Block, w2)
           | (Ret (n, Some err), w2) \<Rightarrow> Some (Ret (Some err), w2)
           | (Ret (n, None), w2) \<Rightarrow> f rd wr sz w2)) = Some y"
    and at: "cp_pc c = CpRead"
  shows "copy_runs rd wr sz (c, w) (fst y) (snd y)"
proof (cases "rd sz w")
  case rd: (Pair g w1)
  show ?thesis
  proof (cases g)
    case (Panic m)
    then show ?thesis using body rd copy_runs_one [OF cs_read_panic [of c rd sz w m w1 wr]] at by auto
  next
    case Block
    then show ?thesis using body rd at by (intro copy_runs_now) auto
  next
    case (Ret pe)
    obtain p e where pe: "pe = (p, e)" by (cases pe)
    show ?thesis
    proof (cases e)
      case (Some err)
      consider "err = IoEOF" | "err \<noteq> IoEOF" "err_text err = ''reset called''"
        | "err \<noteq> IoEOF" "err_text err \<noteq> ''reset called''" by blast
      then show ?thesis
      proof cases
        case 1
        then show ?thesis
          using body rd Ret pe Some copy_runs_one [OF cs_eof [of c rd sz w p w1 wr]] at by auto
      next
        case 2
        then show ?thesis
          using body rd Ret pe Some copy_runs_step [OF cs_reset [of c rd sz w p err w1 wr]] at IH by auto
      next
        case 3
        then show ?thesis
          using body rd Ret pe Some copy_runs_one [OF cs_err [of c rd sz w p err w1 wr]] at by auto
      qed
    next
      case None
      let ?c1 = "c\<lparr>cp_pc := CpWrite p, cp_read := cp_read c @ p\<rparr>"
      have s1: "copy_step rd wr sz (c, w) (?c1, w1)"
        using rd Ret pe None at by (intro cs_read) auto
      have "copy_runs rd wr sz (?c1, w1) (fst y) (snd y)"
      proof (cases "wr p w1")
        case wr: (Pair g2 w2)
        show ?thesis
        proof (cases g2)
          case (Panic m)
          then show ?thesis using body rd Ret pe None wr
            copy_runs_one [OF cs_write_panic [of ?c1 p wr w1 m w2 rd sz]] by auto
        next
          case Block
          then show ?thesis using body rd Ret pe None wr by (intro copy_runs_now) auto
        next
          case ne: (Ret ne)
          obtain n e2 where ne2: "ne = (n, e2)" by (cases ne)
          show ?thesis
          proof (cases e2)
            case (Some err)
            then show ?thesis using body rd Ret pe None wr ne ne2
              copy_runs_one [OF cs_write_err [of ?c1 p wr w1 n err w2 rd sz]] by auto
          next
            case None2: None
            then have "f rd wr sz w2 = Some y" using body rd Ret pe None wr ne ne2 by simp
            then show ?thesis
              using copy_runs_step [OF cs_write [of ?c1 p wr w1 n w2 rd sz]] IH wr ne ne2 None2 by auto
          qed
        qed
      qed
      with s1 show ?thesis by (rule copy_runs_step)
    qed
  qed
qed

text \<open>
  The loop of \<open>Audio\<close> and the calls of this theory agree: a loop with an outcome has it by
  a run of these steps, with the same result and the same state of the world.
\<close>

lemma CopyWithBuf_runs:
  assumes "CopyWithBuf rd wr sz w = Some y" and "cp_pc c = CpRead"
  shows "copy_runs rd wr sz (c, w) (fst y) (snd y)"
proof -
  have "\<forall>c. cp_pc c = CpRead \<longrightarrow> copy_runs rd wr sz (c, w) (fst y) (snd y)"
    using assms(1)
  proof (rule CopyWithBuf.raw_induct [where P = "\<lambda>rd wr sz w y. \<forall>c. cp_pc c = CpRead \<longrightarrow>
      copy_runs rd wr sz (c, w) (fst y) (snd y)", rotated], goal_cases)
    case (1 f rd wr sz w y)
    then show ?case
      by (intro allI impI copy_body_runs [where f = f and rd = rd and wr = wr and sz = sz and w = w and y = y])
        blast+
  qed
  with assms(2) show ?thesis by blast
qed

subsection \<open>DuplexCopy\<close>

text \<open>
  Two loops, from stream \<open>A\<close> to \<open>B\<close> and back, over one world, which the rest of the
  program changes by \<open>env\<close>. A panic in either goroutine ends the process, so nothing
  happens after it.
\<close>

record 'w duplex =
  dx_w :: 'w
  dx_ab :: copier
  dx_ba :: copier

definition DuplexCopy :: "'w \<Rightarrow> 'w duplex" where
  "DuplexCopy w = \<lparr>dx_w = w, dx_ab = copier_new, dx_ba = copier_new\<rparr>"

definition dx_crashed :: "'w duplex \<Rightarrow> bool" where
  "dx_crashed d \<longleftrightarrow> cp_pc (dx_ab d) = CpPanicked \<or> cp_pc (dx_ba d) = CpPanicked"

inductive duplex_step ::
    "'w reader \<times> 'w writer \<Rightarrow> nat \<Rightarrow> 'w reader \<times> 'w writer \<Rightarrow> nat \<Rightarrow> ('w \<Rightarrow> 'w \<Rightarrow> bool)
       \<Rightarrow> 'w duplex \<Rightarrow> 'w duplex \<Rightarrow> bool"
  for A na B nb env where
  dx_ab: "\<not> dx_crashed d \<Longrightarrow> copy_step (fst A) (snd B) na (dx_ab d, dx_w d) (c, w) \<Longrightarrow>
    duplex_step A na B nb env d (d\<lparr>dx_w := w, dx_ab := c\<rparr>)"
| dx_ba: "\<not> dx_crashed d \<Longrightarrow> copy_step (fst B) (snd A) nb (dx_ba d, dx_w d) (c, w) \<Longrightarrow>
    duplex_step A na B nb env d (d\<lparr>dx_w := w, dx_ba := c\<rparr>)"
| dx_env: "\<not> dx_crashed d \<Longrightarrow> env (dx_w d) w \<Longrightarrow> duplex_step A na B nb env d (d\<lparr>dx_w := w\<rparr>)"

abbreviation duplex_reach ::
    "'w reader \<times> 'w writer \<Rightarrow> nat \<Rightarrow> 'w reader \<times> 'w writer \<Rightarrow> nat \<Rightarrow> ('w \<Rightarrow> 'w \<Rightarrow> bool) \<Rightarrow> 'w
       \<Rightarrow> 'w duplex \<Rightarrow> bool" where
  "duplex_reach A na B nb env w0 \<equiv> reach (\<lambda>d. d = DuplexCopy w0) (duplex_step A na B nb env)"

lemma duplex_ok_step:
  "duplex_step A na B nb env d d' \<Longrightarrow> copier_ok (dx_ab d) \<and> copier_ok (dx_ba d) \<Longrightarrow>
   copier_ok (dx_ab d') \<and> copier_ok (dx_ba d')"
  by (erule duplex_step.cases) (auto intro: copier_ok_step)

lemma duplex_ok:
  "duplex_reach A na B nb env w0 d \<Longrightarrow> copier_ok (dx_ab d) \<and> copier_ok (dx_ba d)"
  by (erule reach_invariant [where I = "\<lambda>d. copier_ok (dx_ab d) \<and> copier_ok (dx_ba d)"])
     (simp_all add: DuplexCopy_def duplex_ok_step)

subsection \<open>Echo through a loopback\<close>

text \<open>Streams of a pair of worlds.\<close>

definition on_fst :: "('a, 'w) io \<Rightarrow> ('a, 'w \<times> 'v) io" where
  "on_fst f = (\<lambda>(w, v). case f w of (r, w') \<Rightarrow> (r, (w', v)))"

definition on_snd :: "('a, 'v) io \<Rightarrow> ('a, 'w \<times> 'v) io" where
  "on_snd f = (\<lambda>(w, v). case f v of (r, v') \<Rightarrow> (r, (w, v')))"

definition loopback_end :: "(loopback \<times> 'v) reader \<times> (loopback \<times> 'v) writer" where
  "loopback_end = ((\<lambda>n. on_fst (loopback_Read n)), (\<lambda>p. on_fst (loopback_Write p)))"

definition stream_end :: "'v reader \<times> 'v writer \<Rightarrow> ('w \<times> 'v) reader \<times> ('w \<times> 'v) writer" where
  "stream_end S = ((\<lambda>n. on_snd (fst S n)), (\<lambda>p. on_snd (snd S p)))"

definition env_snd :: "('v \<Rightarrow> 'v \<Rightarrow> bool) \<Rightarrow> 'w \<times> 'v \<Rightarrow> 'w \<times> 'v \<Rightarrow> bool" where
  "env_snd env s s' \<longleftrightarrow> fst s' = fst s \<and> env (snd s) (snd s')"

text \<open>What went into the loopback has come out of it or is still in it.\<close>

definition echo_inv :: "(loopback \<times> 'v) duplex \<Rightarrow> bool" where
  "echo_inv d \<longleftrightarrow> \<not> lb_closed (fst (dx_w d)) \<and>
     cp_written (dx_ba d) = cp_read (dx_ab d) @ lb_buf (fst (dx_w d))"

lemma echo_read_side:
  assumes "copy_step (\<lambda>n. on_fst (loopback_Read n)) (\<lambda>p. on_snd (wr p)) n (c, (l, v)) (c', (l', v'))"
    and "\<not> lb_closed l"
  shows "\<not> lb_closed l' \<and> cp_read c @ lb_buf l = cp_read c' @ lb_buf l'"
  using assms by (auto simp: on_fst_def on_snd_def loopback_Read_def elim!: copy_stepE split: if_splits prod.splits)

lemma echo_write_side:
  assumes "copy_step (\<lambda>n. on_snd (rd n)) (\<lambda>p. on_fst (loopback_Write p)) n (c, (l, v)) (c', (l', v'))"
    and "\<not> lb_closed l"
  shows "\<not> lb_closed l' \<and> (\<exists>p. cp_written c' = cp_written c @ p \<and> lb_buf l' = lb_buf l @ p)"
  using assms by (auto simp: on_fst_def on_snd_def loopback_Write_def elim!: copy_stepE split: if_splits prod.splits)

lemma echo_inv_step:
  "duplex_step loopback_end na (stream_end S) nb (env_snd env) d d' \<Longrightarrow> echo_inv d \<Longrightarrow> echo_inv d'"
proof (induction rule: duplex_step.induct)
  case (dx_ab d c w)
  from dx_ab(2) have "copy_step (\<lambda>n. on_fst (loopback_Read n)) (\<lambda>p. on_snd (snd S p)) na
      (dx_ab d, (fst (dx_w d), snd (dx_w d))) (c, (fst w, snd w))"
    by (simp add: loopback_end_def stream_end_def)
  from echo_read_side [OF this] dx_ab(3) show ?case by (simp add: echo_inv_def)
next
  case (dx_ba d c w)
  from dx_ba(2) have "copy_step (\<lambda>n. on_snd (fst S n)) (\<lambda>p. on_fst (loopback_Write p)) nb
      (dx_ba d, (fst (dx_w d), snd (dx_w d))) (c, (fst w, snd w))"
    by (simp add: loopback_end_def stream_end_def)
  from echo_write_side [OF this] dx_ba(3) show ?case by (auto simp: echo_inv_def)
next
  case (dx_env d w)
  then show ?case by (simp add: echo_inv_def env_snd_def)
qed

lemma echo_inv_new: "echo_inv (DuplexCopy (NewLoopback, v))"
  by (simp add: echo_inv_def DuplexCopy_def copier_new_def NewLoopback_def)

lemma echo_inv_reach:
  "duplex_reach loopback_end na (stream_end S) nb (env_snd env) (NewLoopback, v) d \<Longrightarrow> echo_inv d"
  by (erule reach_invariant [where I = echo_inv]) (simp_all add: echo_inv_new echo_inv_step)

text \<open>
  C24. Audio echoed through a loopback comes back unchanged and in order: in every
  interleaving of the two copy loops of \<open>DuplexCopy\<close> between a new loopback and any
  stream, with the rest of the program acting on that stream as it likes, what was
  written to the stream is a prefix of what was read from it, and while neither loop has
  ended the only bytes missing are those in the loops' hands and in the loopback. Bytes
  that the stream returns together with an error are dropped and not counted as read.
\<close>

theorem echo_in_order:
  assumes "duplex_reach loopback_end na (stream_end S) nb (env_snd env) (NewLoopback, v) d"
  shows "prefix (cp_written (dx_ab d)) (cp_read (dx_ba d))
    \<and> (copy_running (cp_pc (dx_ab d)) \<and> copy_running (cp_pc (dx_ba d)) \<longrightarrow>
        cp_read (dx_ba d) = cp_written (dx_ab d) @ copy_hand (cp_pc (dx_ab d))
          @ lb_buf (fst (dx_w d)) @ copy_hand (cp_pc (dx_ba d)))"
proof -
  have ok: "copier_ok (dx_ab d)" "copier_ok (dx_ba d)" and inv: "echo_inv d"
    using duplex_ok [OF assms] echo_inv_reach [OF assms] by simp_all
  have "prefix (cp_written (dx_ab d)) (cp_read (dx_ab d))" "prefix (cp_written (dx_ba d)) (cp_read (dx_ba d))"
    using ok copier_ok_prefix by blast+
  moreover have "prefix (cp_read (dx_ab d)) (cp_written (dx_ba d))"
    using inv by (simp add: echo_inv_def)
  ultimately have "prefix (cp_written (dx_ab d)) (cp_read (dx_ba d))"
    by (meson prefix_order.trans)
  then show ?thesis using ok inv by (simp add: copier_ok_running echo_inv_def)
qed

text \<open>A stream that always has the byte 7 and takes everything, for the witness.\<close>

definition seven_stream :: "unit reader \<times> unit writer" where
  "seven_stream = ((\<lambda>n. return_io ([7], None)), (\<lambda>p. return_io (int (length p), None)))"

definition echoed :: "(loopback \<times> unit) duplex" where
  "echoed = \<lparr>dx_w = (NewLoopback, ()), dx_ab = \<lparr>cp_pc = CpRead, cp_read = [7], cp_written = [7], cp_dropped = []\<rparr>,
     dx_ba = \<lparr>cp_pc = CpRead, cp_read = [7], cp_written = [7], cp_dropped = []\<rparr>\<rparr>"

lemma echoed_reach: "duplex_reach loopback_end 4 (stream_end seven_stream) 4 (env_snd (\<lambda>v v'. False))
    (NewLoopback, ()) echoed"
proof -
  let ?step = "duplex_step loopback_end 4 (stream_end seven_stream) 4 (env_snd (\<lambda>v v'. False))"
  define d0 where "d0 = DuplexCopy (NewLoopback, ())"
  define d1 where "d1 = d0\<lparr>dx_w := (NewLoopback, ()), dx_ba := \<lparr>cp_pc = CpWrite [7], cp_read = [7], cp_written = [], cp_dropped = []\<rparr>\<rparr>"
  define d2 where "d2 = d1\<lparr>dx_w := (\<lparr>lb_buf = [7], lb_closed = False\<rparr>, ()),
    dx_ba := \<lparr>cp_pc = CpRead, cp_read = [7], cp_written = [7], cp_dropped = []\<rparr>\<rparr>"
  define d3 where "d3 = d2\<lparr>dx_w := (NewLoopback, ()), dx_ab := \<lparr>cp_pc = CpWrite [7], cp_read = [7], cp_written = [], cp_dropped = []\<rparr>\<rparr>"
  define d4 where "d4 = d3\<lparr>dx_w := (NewLoopback, ()), dx_ab := \<lparr>cp_pc = CpRead, cp_read = [7], cp_written = [7], cp_dropped = []\<rparr>\<rparr>"
  note defs = d0_def d1_def d2_def d3_def d4_def DuplexCopy_def copier_new_def dx_crashed_def loopback_end_def
    stream_end_def seven_stream_def on_fst_def on_snd_def NewLoopback_def loopback_Read_def loopback_Write_def
  have 1: "?step d0 d1" unfolding d1_def
    by (intro duplex_step.dx_ba) (auto simp: defs copy_step.simps)
  have 2: "?step d1 d2" unfolding d2_def
    by (intro duplex_step.dx_ba) (auto simp: defs copy_step.simps)
  have 3: "?step d2 d3" unfolding d3_def
    by (intro duplex_step.dx_ab) (auto simp: defs copy_step.simps)
  have 4: "?step d3 d4" unfolding d4_def
    by (intro duplex_step.dx_ab) (auto simp: defs copy_step.simps)
  have "duplex_reach loopback_end 4 (stream_end seven_stream) 4 (env_snd (\<lambda>v v'. False)) (NewLoopback, ()) d0"
    by (rule reach_init) (simp add: d0_def)
  from reach_step [OF reach_step [OF reach_step [OF reach_step [OF this 1] 2] 3] 4]
  show ?thesis by (simp add: defs echoed_def)
qed

theorem echo_in_order_witness:
  "prefix (cp_written (dx_ab echoed)) (cp_read (dx_ba echoed)) \<and> cp_written (dx_ab echoed) = [7]"
  using echo_in_order [OF echoed_reach] by (simp add: echoed_def)

subsection \<open>A nil stream\<close>

text \<open>A stream that is a nil interface: calling either method dereferences nil.\<close>

definition nil_stream :: "'w reader \<times> 'w writer" where
  "nil_stream = ((\<lambda>n. lift_go nil_deref), (\<lambda>p. lift_go nil_deref))"

lemma nil_stream_step:
  assumes "cp_pc (dx_ba d) = CpRead" and "\<not> dx_crashed d"
  shows "\<exists>d'. duplex_step A na nil_stream nb env d d' \<and> dx_crashed d'"
proof -
  have "copy_step (fst nil_stream) (snd A) nb (dx_ba d, dx_w d) ((dx_ba d)\<lparr>cp_pc := CpPanicked\<rparr>, dx_w d)"
    using assms(1) by (intro cs_read_panic) (simp_all add: nil_stream_def)
  from duplex_step.dx_ba [where A = A and na = na and env = env, OF assms(2) this] show ?thesis
    by (intro exI [of _ "d\<lparr>dx_w := dx_w d, dx_ba := (dx_ba d)\<lparr>cp_pc := CpPanicked\<rparr>\<rparr>"])
       (simp add: dx_crashed_def)
qed

subsection \<open>Copying an observed stream (audio_observe.go)\<close>











subsection \<open>The echo loop and the audio of the load test\<close>

text \<open>The loop in \<open>OnBegin\<close> of the load test's server: any error ends it.\<close>

partial_function (option) echo_loop :: "'w reader \<Rightarrow> 'w writer \<Rightarrow> nat \<Rightarrow> 'w \<Rightarrow> (unit go \<times> 'w) option" where
  "echo_loop rd wr sz w =
     (case rd sz w of
        (Panic m, w1) \<Rightarrow> Some (Panic m, w1)
      | (Block, w1) \<Rightarrow> Some (Block, w1)
      | (Ret (p, Some err), w1) \<Rightarrow> Some (Ret (), w1)
      | (Ret (p, None), w1) \<Rightarrow>
          (case wr p w1 of
             (Panic m, w2) \<Rightarrow> Some (Panic m, w2)
           | (Block, w2) \<Rightarrow> Some (Block, w2)
           | (Ret (n, Some err), w2) \<Rightarrow> Some (Ret (), w2)
           | (Ret (n, None), w2) \<Rightarrow> echo_loop rd wr sz w2))"

fun forget :: "'a go \<times> 'w \<Rightarrow> unit go \<times> 'w" where
  "forget (Ret x, w) = (Ret (), w)"
| "forget (Panic m, w) = (Panic m, w)"
| "forget (Block, w) = (Block, w)"

text \<open>
  The loop is \<open>Copy\<close> but for two things: it drops the error it ends with, and it ends where
  \<open>Copy\<close> waits and tries again. So it is \<open>Copy\<close> on the reader whose resets end the stream.
\<close>

definition ends_on_reset :: "'w reader \<Rightarrow> 'w reader" where
  "ends_on_reset rd n = (\<lambda>w. case rd n w of
      (Ret (p, Some err), w1) \<Rightarrow> (Ret (p, Some (if err_text err = ''reset called'' then IoEOF else err)), w1)
    | r \<Rightarrow> r)"

lemma echo_loop_CopyWithBuf:
  assumes "echo_loop rd wr sz w = Some y"
  shows "\<exists>z. CopyWithBuf (ends_on_reset rd) wr sz w = Some z \<and> forget z = y"
  using assms
proof (rule echo_loop.raw_induct [where P = "\<lambda>rd wr sz w y.
    \<exists>z. CopyWithBuf (ends_on_reset rd) wr sz w = Some z \<and> forget z = y", rotated], goal_cases)
  case (1 f rd wr sz w y)
  have IH: "f rd wr sz w2 = Some y' \<Longrightarrow> \<exists>z. CopyWithBuf (ends_on_reset rd) wr sz w2 = Some z \<and> forget z = y'" for w2 y'
    using 1(1) [of rd wr sz w2 y'] by blast
  show ?case
    using 1(2) by (subst CopyWithBuf.simps)
      (auto simp del: split_paired_Ex simp: ends_on_reset_def intro: IH split: prod.splits go.splits option.splits if_splits)
qed

lemma CopyWithBuf_echo_loop:
  assumes "CopyWithBuf rd' wr sz w = Some z" and "rd' = ends_on_reset rd"
  shows "echo_loop rd wr sz w = Some (forget z)"
proof -
  have "rd' = ends_on_reset rd \<longrightarrow> echo_loop rd wr sz w = Some (forget z)"
    using assms(1)
  proof (rule CopyWithBuf.raw_induct [where P = "\<lambda>rd' wr sz w z. rd' = ends_on_reset rd \<longrightarrow>
      echo_loop rd wr sz w = Some (forget z)", rotated], goal_cases)
    case (1 f rd' wr sz w z)
    show ?case
    proof
      assume r: "rd' = ends_on_reset rd"
      have IH: "f rd' wr sz w2 = Some z' \<Longrightarrow> echo_loop rd wr sz w2 = Some (forget z')" for w2 z'
        using 1(1) [of rd' wr sz w2 z'] r by blast
      have read: "rd' sz w = (case rd sz w of
          (Ret (p, Some err), w1) \<Rightarrow> (Ret (p, Some (if err_text err = ''reset called'' then IoEOF else err)), w1)
        | r \<Rightarrow> r)" by (simp add: r ends_on_reset_def)
      show "echo_loop rd wr sz w = Some (forget z)"
        using 1(2) unfolding read by (subst echo_loop.simps)
          (auto intro: IH split: prod.splits go.splits option.splits if_splits)
    qed
  qed
  with assms(2) show ?thesis by blast
qed

lemma echo_loop_is_Copy: "echo_loop rd wr sz w = map_option forget (Copy (ends_on_reset rd) wr sz w)"
proof (cases "CopyWithBuf (ends_on_reset rd) wr sz w")
  case None
  then show ?thesis
    using echo_loop_CopyWithBuf [of rd wr sz w]
    by (cases "echo_loop rd wr sz w") (auto simp: Copy_def)
next
  case (Some z)
  then show ?thesis using CopyWithBuf_echo_loop [OF Some refl] by (simp add: Copy_def)
qed

text \<open>\<open>dummyAudio\<close>: silence to read, everything written accepted, until it is closed.\<close>

record dummyAudio =
  da_n :: i64
  da_closed :: bool

definition dummy_Close :: "(goerr option, dummyAudio) io" where
  "dummy_Close = (\<lambda>d. (Ret None, d\<lparr>da_closed := True\<rparr>))"

definition dummy_Read :: "dummyAudio reader" where
  "dummy_Read n = (\<lambda>d.
     (if da_closed d then (Ret ([], Some IoEOF), d)
      else (Ret (replicate n 0, None), d\<lparr>da_n := da_n d + of_nat n\<rparr>)))"

definition dummy_Write :: "dummyAudio writer" where
  "dummy_Write p = (\<lambda>d.
     (if da_closed d then (Ret (0, Some IoErrClosedPipe), d) else (Ret (int (length p), None), d)))"

end
