(* ===== verification/WsTransport.thy ===== *)
theory WsTransport
  imports WsControl "HOL-Library.Sublist"
begin

section \<open>The websocket transport (transport/ws/transport.go)\<close>

text \<open>
  \<open>process\<close> runs five goroutines (main, connection reader, audio pump, processor, sender)
  next to callers of \<open>Write\<close> and \<open>Close\<close>. Each is a program counter; a step is one channel
  operation, mutex operation or call into the connection. What the connection (a
  third-party package) does is left open: a read returns any frame or any error, a write
  succeeds while the connection is open or fails. \<open>connMu\<close> makes each \<open>sendMessage\<close> one
  step, \<open>closeOnce\<close> makes closing \<open>closeChan\<close> idempotent. The mutex of the control channel
  is explicit: its holder may wait on a full channel, and only the mutex keeps \<open>close\<close> from
  coming between a writer's test of \<open>closed\<close> and its send.
\<close>

datatype holder = HProc | HMain | HWriter nat

datatype main_pc = MSelect | MConnClose | MCcLock | MCcBody | MCcClose | MDone | MExit

datatype reader_pc = RdRead | RdPush wsMessage | RdExit

datatype pump_pc = PuRead | PuSelect wire | PuExit

datatype proc_pc = PrSelect | PrLock DataPackage | PrBody DataPackage | PrSend DataPackage | PrAudio wire | PrExit

datatype sender_pc = SeSelect | SePing | SeSend wsMessage | SeClosing | SeExit

datatype writer_pc = WIdle | WLock wire | WBody wire | WSend wire | WOk | WErr

datatype closer = SenderClose | CloseCall nat

datatype close_pc = ClIdle | ClCheck | ClDrain | ClDrainSend wsMessage | ClPush | ClWait | ClNil | ClErr

record ws =
  w_out :: "wsMessage chan"
  w_in :: "wsMessage chan"
  w_input :: "DataPackage chan"
  w_cc_closed :: bool
  w_mu :: "holder option"
  w_closeChan :: bool
  w_doneChan :: bool
  w_ctx :: bool
  w_conn_closed :: bool
  w_has_audio :: bool
  w_main :: main_pc
  w_reader :: reader_pc
  w_pump :: pump_pc
  w_proc :: proc_pc
  w_sender :: sender_pc
  w_writers :: "nat \<Rightarrow> writer_pc"
  w_closers :: "closer \<Rightarrow> close_pc"
  w_accepted :: "wsMessage list"
  w_taken :: "wsMessage list"
  w_sent :: "wsMessage list"
  w_lost :: "wsMessage list"
  w_read :: "wsMessage list"
  w_handed :: "wsMessage list"
  w_delivered :: "DataPackage list"
  w_audio_in :: "wire list"
  w_panicked :: bool

text \<open>
  The last fields record the history: messages accepted into \<open>msgOutChan\<close>, taken out of
  it, written to the connection, lost in a failed write; frames read from the connection
  and taken from \<open>msgInChan\<close>; packages received from \<open>ReadChan\<close>; audio written.
\<close>

definition ws_new :: "bool \<Rightarrow> ws" where
  "ws_new audio =
     \<lparr>w_out = make_chan 16, w_in = make_chan 16, w_input = make_chan 16, w_cc_closed = False,
      w_mu = None, w_closeChan = False, w_doneChan = False, w_ctx = False, w_conn_closed = False,
      w_has_audio = audio, w_main = MSelect, w_reader = RdRead,
      w_pump = (if audio then PuRead else PuExit), w_proc = PrSelect, w_sender = SeSelect,
      w_writers = (\<lambda>_. WIdle), w_closers = (\<lambda>_. ClIdle),
      w_accepted = [], w_taken = [], w_sent = [], w_lost = [], w_read = [], w_handed = [],
      w_delivered = [], w_audio_in = [], w_panicked = False\<rparr>"

text \<open>\<open>FormatCloseMessage(CloseNormalClosure, "Closed")\<close>: status 1000 in two bytes, then the text.\<close>

definition close_message :: wsMessage where
  "close_message = \<lparr>mt = CloseMessage, data = OtherText ([char_of (3 :: nat), char_of (232 :: nat)] @ ''Closed''),
     timeout = 0\<rparr>"

definition ping_message :: wsMessage where
  "ping_message = \<lparr>mt = PingMessage, data = OtherText [], timeout = 1000000000\<rparr>"

definition audio_message :: "wire \<Rightarrow> wsMessage" where
  "audio_message d = \<lparr>mt = BinaryMessage, data = d, timeout = 0\<rparr>"

definition set_writer :: "nat \<Rightarrow> writer_pc \<Rightarrow> ws \<Rightarrow> ws" where
  "set_writer n p s = s\<lparr>w_writers := (w_writers s)(n := p)\<rparr>"

definition set_closer :: "closer \<Rightarrow> close_pc \<Rightarrow> ws \<Rightarrow> ws" where
  "set_closer c p s = s\<lparr>w_closers := (w_closers s)(c := p)\<rparr>"

definition push_out :: "wsMessage \<Rightarrow> wsMessage chan \<Rightarrow> ws \<Rightarrow> ws" where
  "push_out m c s = s\<lparr>w_out := c, w_accepted := w_accepted s @ [m]\<rparr>"

definition take_out :: "wsMessage \<Rightarrow> wsMessage chan \<Rightarrow> ws \<Rightarrow> ws" where
  "take_out m c s = s\<lparr>w_out := c, w_taken := w_taken s @ [m]\<rparr>"

definition record_sent :: "wsMessage \<Rightarrow> ws \<Rightarrow> ws" where
  "record_sent m s = s\<lparr>w_sent := w_sent s @ [m]\<rparr>"

definition record_lost :: "wsMessage \<Rightarrow> ws \<Rightarrow> ws" where
  "record_lost m s = s\<lparr>w_lost := w_lost s @ [m]\<rparr>"

definition package_of :: "wsMessage \<Rightarrow> i64 \<Rightarrow> DataPackage" where
  "package_of m now = \<lparr>dp_Data = data m, dp_ReceivedAt = now\<rparr>"

definition proc_next :: "wsMessage \<Rightarrow> i64 \<Rightarrow> proc_pc" where
  "proc_next m now = (case mt m of
      TextMessage \<Rightarrow> PrLock (package_of m now)
    | BinaryMessage \<Rightarrow> PrAudio (data m)
    | _ \<Rightarrow> PrSelect)"

subsection \<open>Steps\<close>

text \<open>A caller of \<open>Write\<close>: \<open>writeOut\<close> under the mutex.\<close>

inductive writer_step :: "ws \<Rightarrow> ws \<Rightarrow> bool" where
  wr_call: "w_writers s n = WIdle \<Longrightarrow> writer_step s (set_writer n (WLock d) s)"
| wr_lock: "w_writers s n = WLock d \<Longrightarrow> w_mu s = None \<Longrightarrow>
    writer_step s (set_writer n (WBody d) s\<lparr>w_mu := Some (HWriter n)\<rparr>)"
| wr_closed: "w_writers s n = WBody d \<Longrightarrow> w_cc_closed s \<Longrightarrow>
    writer_step s (set_writer n WErr s\<lparr>w_mu := None\<rparr>)"
| wr_open: "w_writers s n = WBody d \<Longrightarrow> \<not> w_cc_closed s \<Longrightarrow> writer_step s (set_writer n (WSend d) s)"
| wr_send: "w_writers s n = WSend d \<Longrightarrow> send_chan (text_message d) (w_out s) = Ret c \<Longrightarrow>
    writer_step s (push_out (text_message d) c (set_writer n WOk s\<lparr>w_mu := None\<rparr>))"
| wr_send_panic: "w_writers s n = WSend d \<Longrightarrow> send_chan (text_message d) (w_out s) = Panic e \<Longrightarrow>
    writer_step s (s\<lparr>w_panicked := True\<rparr>)"
| wr_return: "w_writers s n = WOk \<or> w_writers s n = WErr \<Longrightarrow> writer_step s (set_writer n WIdle s)"

text \<open>The incoming side: the connection reader, the processor, and who reads \<open>ReadChan\<close>.\<close>

inductive incoming_step :: "ws \<Rightarrow> ws \<Rightarrow> bool" where
  rd_frame: "w_reader s = RdRead \<Longrightarrow> \<not> w_conn_closed s \<Longrightarrow>
    incoming_step s (s\<lparr>w_reader := RdPush m, w_read := w_read s @ [m]\<rparr>)"
| rd_err: "w_reader s = RdRead \<Longrightarrow> incoming_step s (s\<lparr>w_reader := RdExit, w_closeChan := True\<rparr>)"
| rd_push: "w_reader s = RdPush m \<Longrightarrow> send_chan m (w_in s) = Ret c \<Longrightarrow>
    incoming_step s (s\<lparr>w_reader := RdRead, w_in := c\<rparr>)"
| pr_stop: "w_proc s = PrSelect \<Longrightarrow> w_doneChan s \<or> w_ctx s \<Longrightarrow> incoming_step s (s\<lparr>w_proc := PrExit\<rparr>)"
| pr_recv: "w_proc s = PrSelect \<Longrightarrow> recv_chan (w_in s) = Ret (Some m, c) \<Longrightarrow>
    incoming_step s (s\<lparr>w_in := c, w_handed := w_handed s @ [m], w_proc := proc_next m now\<rparr>)"
| pr_lock: "w_proc s = PrLock p \<Longrightarrow> w_mu s = None \<Longrightarrow>
    incoming_step s (s\<lparr>w_proc := PrBody p, w_mu := Some HProc\<rparr>)"
| pr_closed: "w_proc s = PrBody p \<Longrightarrow> w_cc_closed s \<Longrightarrow>
    incoming_step s (s\<lparr>w_proc := PrExit, w_mu := None\<rparr>)"
| pr_open: "w_proc s = PrBody p \<Longrightarrow> \<not> w_cc_closed s \<Longrightarrow> incoming_step s (s\<lparr>w_proc := PrSend p\<rparr>)"
| pr_send: "w_proc s = PrSend p \<Longrightarrow> send_chan p (w_input s) = Ret c \<Longrightarrow>
    incoming_step s (s\<lparr>w_proc := PrSelect, w_input := c, w_mu := None\<rparr>)"
| pr_send_panic: "w_proc s = PrSend p \<Longrightarrow> send_chan p (w_input s) = Panic e \<Longrightarrow>
    incoming_step s (s\<lparr>w_panicked := True\<rparr>)"
| pr_audio: "w_proc s = PrAudio d \<Longrightarrow> w_has_audio s \<Longrightarrow>
    incoming_step s (s\<lparr>w_proc := PrSelect, w_audio_in := w_audio_in s @ [d]\<rparr>)"
| pr_audio_err: "w_proc s = PrAudio d \<Longrightarrow> w_has_audio s \<Longrightarrow> incoming_step s (s\<lparr>w_proc := PrExit\<rparr>)"
| pr_audio_nil: "w_proc s = PrAudio d \<Longrightarrow> \<not> w_has_audio s \<Longrightarrow> incoming_step s (s\<lparr>w_panicked := True\<rparr>)"
| in_deliver: "recv_chan (w_input s) = Ret (Some p, c) \<Longrightarrow>
    incoming_step s (s\<lparr>w_input := c, w_delivered := w_delivered s @ [p]\<rparr>)"

text \<open>The outgoing side: the audio pump and the sender with its ping ticker.\<close>

inductive outgoing_step :: "ws \<Rightarrow> ws \<Rightarrow> bool" where
  pu_read: "w_pump s = PuRead \<Longrightarrow> outgoing_step s (s\<lparr>w_pump := PuSelect d\<rparr>)"
| pu_err: "w_pump s = PuRead \<Longrightarrow> outgoing_step s (s\<lparr>w_pump := PuExit\<rparr>)"
| pu_stop: "w_pump s = PuSelect d \<Longrightarrow> w_doneChan s \<or> w_closeChan s \<Longrightarrow> outgoing_step s (s\<lparr>w_pump := PuExit\<rparr>)"
| pu_send: "w_pump s = PuSelect d \<Longrightarrow> send_chan (audio_message d) (w_out s) = Ret c \<Longrightarrow>
    outgoing_step s (push_out (audio_message d) c (s\<lparr>w_pump := PuRead\<rparr>))"
| se_ctx: "w_sender s = SeSelect \<Longrightarrow> w_ctx s \<Longrightarrow>
    outgoing_step s (set_closer SenderClose ClCheck s\<lparr>w_sender := SeClosing\<rparr>)"
| se_done: "w_sender s = SeSelect \<Longrightarrow> w_doneChan s \<Longrightarrow> outgoing_step s (s\<lparr>w_sender := SeExit\<rparr>)"
| se_tick: "w_sender s = SeSelect \<Longrightarrow> outgoing_step s (s\<lparr>w_sender := SePing\<rparr>)"
| se_ping: "w_sender s = SePing \<Longrightarrow> send_chan ping_message (w_out s) = Ret c \<Longrightarrow>
    outgoing_step s (push_out ping_message c (s\<lparr>w_sender := SeSelect\<rparr>))"
| se_recv: "w_sender s = SeSelect \<Longrightarrow> recv_chan (w_out s) = Ret (Some m, c) \<Longrightarrow>
    outgoing_step s (take_out m c (s\<lparr>w_sender := SeSend m\<rparr>))"
| se_sent: "w_sender s = SeSend m \<Longrightarrow> \<not> w_conn_closed s \<Longrightarrow>
    outgoing_step s (record_sent m (s\<lparr>w_sender := SeSelect\<rparr>))"
| se_fail: "w_sender s = SeSend m \<Longrightarrow> outgoing_step s (record_lost m (s\<lparr>w_sender := SeExit\<rparr>))"
| se_closed: "w_sender s = SeClosing \<Longrightarrow> w_closers s SenderClose = ClNil \<or> w_closers s SenderClose = ClErr \<Longrightarrow>
    outgoing_step s (s\<lparr>w_sender := SeExit\<rparr>)"

text \<open>A caller of \<open>Close\<close>; a failed write in the drain ends the drain or not, by its error.\<close>

inductive close_step :: "ws \<Rightarrow> ws \<Rightarrow> bool" where
  cl_call: "w_closers s (CloseCall n) = ClIdle \<Longrightarrow> close_step s (set_closer (CloseCall n) ClCheck s)"
| cl_already: "w_closers s k = ClCheck \<Longrightarrow> w_doneChan s \<Longrightarrow> close_step s (set_closer k ClNil s)"
| cl_trigger: "w_closers s k = ClCheck \<Longrightarrow> \<not> w_doneChan s \<Longrightarrow>
    close_step s (set_closer k ClDrain s\<lparr>w_closeChan := True\<rparr>)"
| cl_drain: "w_closers s k = ClDrain \<Longrightarrow> recv_chan (w_out s) = Ret (Some m, c) \<Longrightarrow>
    close_step s (take_out m c (set_closer k (ClDrainSend m) s))"
| cl_sent: "w_closers s k = ClDrainSend m \<Longrightarrow> \<not> w_conn_closed s \<Longrightarrow>
    close_step s (record_sent m (set_closer k ClDrain s))"
| cl_fail: "w_closers s k = ClDrainSend m \<Longrightarrow> close_step s (record_lost m (set_closer k ClDrain s))"
| cl_stop: "w_closers s k = ClDrainSend m \<Longrightarrow> close_step s (record_lost m (set_closer k ClPush s))"
| cl_drained: "w_closers s k = ClDrain \<Longrightarrow> ch_buf (w_out s) = [] \<Longrightarrow> close_step s (set_closer k ClPush s)"
| cl_push: "w_closers s k = ClPush \<Longrightarrow> send_chan close_message (w_out s) = Ret c \<Longrightarrow>
    close_step s (push_out close_message c (set_closer k ClWait s))"
| cl_done: "w_closers s k = ClWait \<Longrightarrow> w_doneChan s \<Longrightarrow> close_step s (set_closer k ClNil s)"
| cl_ctx: "w_closers s k = ClWait \<Longrightarrow> close_step s (set_closer k ClErr s)"

text \<open>The main goroutine of \<open>process\<close> and its deferred cleanup; the context may end at any time.\<close>

inductive main_step :: "ws \<Rightarrow> ws \<Rightarrow> bool" where
  mn_ctx: "main_step s (s\<lparr>w_ctx := True\<rparr>)"
| mn_select: "w_main s = MSelect \<Longrightarrow> w_ctx s \<or> w_closeChan s \<or> w_doneChan s \<Longrightarrow>
    main_step s (s\<lparr>w_main := MConnClose\<rparr>)"
| mn_conn: "w_main s = MConnClose \<Longrightarrow> main_step s (s\<lparr>w_main := MCcLock, w_conn_closed := True\<rparr>)"
| mn_lock: "w_main s = MCcLock \<Longrightarrow> w_mu s = None \<Longrightarrow> main_step s (s\<lparr>w_main := MCcBody, w_mu := Some HMain\<rparr>)"
| mn_cc: "w_main s = MCcBody \<Longrightarrow> main_step s (s\<lparr>w_main := MCcClose, w_cc_closed := True\<rparr>)"
| mn_cc_close: "w_main s = MCcClose \<Longrightarrow> close_chan (w_input s) = Ret c \<Longrightarrow>
    main_step s (s\<lparr>w_main := MDone, w_input := c, w_mu := None\<rparr>)"
| mn_cc_panic: "w_main s = MCcClose \<Longrightarrow> close_chan (w_input s) = Panic e \<Longrightarrow>
    main_step s (s\<lparr>w_panicked := True\<rparr>)"
| mn_done: "w_main s = MDone \<Longrightarrow> close_signal (w_doneChan s) = Ret b \<Longrightarrow>
    main_step s (s\<lparr>w_main := MExit, w_doneChan := b\<rparr>)"
| mn_done_panic: "w_main s = MDone \<Longrightarrow> close_signal (w_doneChan s) = Panic e \<Longrightarrow>
    main_step s (s\<lparr>w_panicked := True\<rparr>)"

definition ws_step :: "ws \<Rightarrow> ws \<Rightarrow> bool" where
  "ws_step s s' \<longleftrightarrow> writer_step s s' \<or> incoming_step s s' \<or> outgoing_step s s' \<or> close_step s s' \<or> main_step s s'"

abbreviation ws_reach :: "bool \<Rightarrow> ws \<Rightarrow> bool" where
  "ws_reach audio \<equiv> reach (\<lambda>s. s = ws_new audio) ws_step"

lemmas ws_updates = set_writer_def set_closer_def push_out_def take_out_def record_sent_def record_lost_def

subsection \<open>The mutex and the channels\<close>

text \<open>Who is in a critical section of the control channel holds its mutex.\<close>

fun in_section :: "ws \<Rightarrow> holder \<Rightarrow> bool" where
  "in_section s HProc \<longleftrightarrow> (case w_proc s of PrBody p \<Rightarrow> True | PrSend p \<Rightarrow> True | _ \<Rightarrow> False)"
| "in_section s HMain \<longleftrightarrow> w_main s = MCcBody \<or> w_main s = MCcClose"
| "in_section s (HWriter n) \<longleftrightarrow> (case w_writers s n of WBody d \<Rightarrow> True | WSend d \<Rightarrow> True | _ \<Rightarrow> False)"

definition mu_inv :: "ws \<Rightarrow> bool" where
  "mu_inv s \<longleftrightarrow> (\<forall>h. in_section s h \<longrightarrow> w_mu s = Some h)"

lemma mu_invD: "mu_inv s \<Longrightarrow> in_section s h \<Longrightarrow> in_section s k \<Longrightarrow> h = k"
  unfolding mu_inv_def by (metis option.inject)

text \<open>A step may enter a section with the mutex free, leave the section of the holder, or neither.\<close>

lemma mu_invI:
  assumes "mu_inv s"
    and "(\<forall>h. in_section s' h \<longrightarrow> in_section s h) \<and> w_mu s' = w_mu s
      \<or> (\<exists>k. in_section s k \<and> (\<forall>h. in_section s' h \<longrightarrow> in_section s h \<and> h \<noteq> k))
      \<or> (\<exists>k. w_mu s = None \<and> w_mu s' = Some k \<and> (\<forall>h. in_section s' h \<longrightarrow> in_section s h \<or> h = k))"
  shows "mu_inv s'"
proof -
  have one: "in_section s h \<Longrightarrow> in_section s k \<Longrightarrow> h = k" for h k
    using assms(1) by (rule mu_invD)
  from assms(2) show ?thesis
    using assms(1) one unfolding mu_inv_def by (elim disjE exE conjE) (metis option.distinct(1))+
qed

text \<open>Who has found the channel open still finds it open when sending.\<close>

definition open_inv :: "ws \<Rightarrow> bool" where
  "open_inv s \<longleftrightarrow> ((\<exists>p. w_proc s = PrSend p) \<or> (\<exists>n d. w_writers s n = WSend d) \<longrightarrow> \<not> w_cc_closed s)"

text \<open>What has been closed follows from where the main goroutine is.\<close>

definition main_inv :: "ws \<Rightarrow> bool" where
  "main_inv s \<longleftrightarrow> (w_cc_closed s \<longleftrightarrow> w_main s \<in> {MCcClose, MDone, MExit})
     \<and> (ch_closed (w_input s) \<longleftrightarrow> w_main s \<in> {MDone, MExit})
     \<and> (w_doneChan s \<longleftrightarrow> w_main s = MExit)
     \<and> (w_conn_closed s \<longleftrightarrow> w_main s \<notin> {MSelect, MConnClose})"

definition chan_inv :: "ws \<Rightarrow> bool" where
  "chan_inv s \<longleftrightarrow> \<not> ch_closed (w_out s) \<and> ch_cap (w_out s) = 16 \<and> chan_ok (w_out s)
     \<and> \<not> ch_closed (w_in s) \<and> ch_cap (w_in s) = 16 \<and> chan_ok (w_in s)
     \<and> ch_cap (w_input s) = 16 \<and> chan_ok (w_input s)"

lemma all_holders: "(\<forall>h. P h) \<longleftrightarrow> P HProc \<and> P HMain \<and> (\<forall>n. P (HWriter n))"
  by (metis holder.exhaust)

lemma mu_inv_writer: "writer_step s s' \<Longrightarrow> mu_inv s \<Longrightarrow> mu_inv s'"
proof (erule mu_invI, erule writer_step.cases, goal_cases)
  case (2 s n d) then show ?case by (intro disjI2 exI [of _ "HWriter n"]) (simp add: all_holders ws_updates)
next
  case (3 s n d) then show ?case by (intro disjI2 disjI1 exI [of _ "HWriter n"]) (simp add: all_holders ws_updates)
next
  case (5 s n d c) then show ?case by (intro disjI2 disjI1 exI [of _ "HWriter n"]) (simp add: all_holders ws_updates)
qed (auto simp: all_holders ws_updates)

lemma mu_inv_incoming: "incoming_step s s' \<Longrightarrow> mu_inv s \<Longrightarrow> mu_inv s'"
proof (erule mu_invI, erule incoming_step.cases, goal_cases)
  case (6 s p) then show ?case by (intro disjI2 exI [of _ HProc]) (simp add: all_holders)
next
  case (7 s p) then show ?case by (intro disjI2 disjI1 exI [of _ HProc]) (simp add: all_holders)
next
  case (9 s p c) then show ?case by (intro disjI2 disjI1 exI [of _ HProc]) (simp add: all_holders)
qed (auto simp: all_holders proc_next_def split: frame_type.splits)

lemma mu_inv_main: "main_step s s' \<Longrightarrow> mu_inv s \<Longrightarrow> mu_inv s'"
proof (erule mu_invI, erule main_step.cases, goal_cases)
  case (4 s) then show ?case by (intro disjI2 exI [of _ HMain]) (simp add: all_holders)
next
  case (6 s c) then show ?case by (intro disjI2 disjI1 exI [of _ HMain]) (simp add: all_holders)
qed (auto simp: all_holders)

lemma mu_inv_other: "outgoing_step s s' \<or> close_step s s' \<Longrightarrow> mu_inv s \<Longrightarrow> mu_inv s'"
  by (elim disjE; erule mu_invI; erule outgoing_step.cases close_step.cases)
     (simp_all add: all_holders ws_updates)

lemma mu_inv_step: "mu_inv s \<Longrightarrow> ws_step s s' \<Longrightarrow> mu_inv s'"
  unfolding ws_step_def using mu_inv_writer mu_inv_incoming mu_inv_main mu_inv_other by blast

lemma main_alone: "mu_inv s \<Longrightarrow> w_main s = MCcBody \<Longrightarrow> w_proc s \<noteq> PrSend p \<and> w_writers s n \<noteq> WSend d"
  using mu_invD [of s HMain HProc] mu_invD [of s HMain "HWriter n"] by auto

lemma open_inv_step: "open_inv s \<Longrightarrow> mu_inv s \<Longrightarrow> ws_step s s' \<Longrightarrow> open_inv s'"
  unfolding ws_step_def
  by (elim disjE; erule writer_step.cases incoming_step.cases outgoing_step.cases close_step.cases main_step.cases)
     (auto simp: open_inv_def ws_updates proc_next_def split: frame_type.splits if_splits
       dest: main_alone)

lemmas chan_step_simps = send_chan_Ret has_room_def recv_chan_def close_chan_def

lemma main_inv_step: "main_inv s \<Longrightarrow> ws_step s s' \<Longrightarrow> main_inv s'"
  unfolding ws_step_def
  by (elim disjE; erule writer_step.cases incoming_step.cases outgoing_step.cases close_step.cases main_step.cases)
     (auto simp: main_inv_def ws_updates chan_step_simps close_signal_def split: list.splits if_splits)

lemma chan_inv_step: "chan_inv s \<Longrightarrow> ws_step s s' \<Longrightarrow> chan_inv s'"
  unfolding ws_step_def
  by (elim disjE; erule writer_step.cases incoming_step.cases outgoing_step.cases close_step.cases main_step.cases)
     (auto simp: chan_inv_def chan_ok_def ws_updates chan_step_simps split: list.splits if_splits)

lemma ws_panic_step:
  "ws_step s s' \<Longrightarrow> main_inv s \<Longrightarrow> open_inv s \<Longrightarrow> chan_inv s \<Longrightarrow> w_has_audio s \<Longrightarrow> \<not> w_panicked s \<Longrightarrow>
   w_has_audio s' \<and> \<not> w_panicked s'"
  unfolding ws_step_def
  by (elim disjE; erule writer_step.cases incoming_step.cases outgoing_step.cases close_step.cases main_step.cases)
     (auto simp: main_inv_def open_inv_def chan_inv_def ws_updates close_chan_def close_signal_def send_chan_def
       split: if_splits)

definition safe_inv :: "ws \<Rightarrow> bool" where
  "safe_inv s \<longleftrightarrow> mu_inv s \<and> open_inv s \<and> main_inv s \<and> chan_inv s"

lemma safe_inv_new: "safe_inv (ws_new a)"
  by (simp add: safe_inv_def mu_inv_def all_holders open_inv_def main_inv_def chan_inv_def ws_new_def)

lemma safe_inv_step: "safe_inv s \<Longrightarrow> ws_step s s' \<Longrightarrow> safe_inv s'"
  unfolding safe_inv_def using mu_inv_step open_inv_step main_inv_step chan_inv_step by blast

lemma ws_reach_safe: "ws_reach a s \<Longrightarrow> safe_inv s"
  by (rule reach_invariant [where init = "\<lambda>s. s = ws_new a" and step = ws_step and I = safe_inv])
     (auto intro: safe_inv_new safe_inv_step)

text \<open>
  C10. The transport never panics when it has an audio stream: in no interleaving is the
  input channel or \<open>doneChan\<close> closed twice or a package sent on the closed input channel,
  although the processor tests \<open>closed\<close> and then sends while the main goroutine sets \<open>closed\<close>
  and then closes the channel: the mutex keeps the two pairs apart. Every buffer stays
  within 16 messages.
\<close>

theorem ws_transport_never_panics:
  assumes "ws_reach True s"
  shows "\<not> w_panicked s \<and> length (ch_buf (w_out s)) \<le> 16 \<and> length (ch_buf (w_in s)) \<le> 16
    \<and> length (ch_buf (w_input s)) \<le> 16"
proof -
  have "w_has_audio s \<and> \<not> w_panicked s \<and> safe_inv s"
    using assms
  proof (induction rule: reach.induct)
    case (reach_init s)
    then show ?case using safe_inv_new [of True] by (simp add: ws_new_def)
  next
    case (reach_step s t)
    then show ?case using ws_panic_step [of s t] safe_inv_step [of s t] by (simp add: safe_inv_def)
  qed
  then show ?thesis by (simp add: safe_inv_def chan_inv_def chan_ok_def)
qed

subsection \<open>Order of delivery\<close>

definition texts :: "wsMessage list \<Rightarrow> wire list" where
  "texts ms = map data (filter (\<lambda>m. mt m = TextMessage) ms)"

lemma texts_append [simp]: "texts (xs @ ys) = texts xs @ texts ys"
  by (simp add: texts_def)

lemma texts_one: "texts [m] = (if mt m = TextMessage then [data m] else [])"
  by (simp add: texts_def)

fun proc_hand :: "proc_pc \<Rightarrow> DataPackage list" where
  "proc_hand (PrLock p) = [p]"
| "proc_hand (PrBody p) = [p]"
| "proc_hand (PrSend p) = [p]"
| "proc_hand _ = []"

fun reader_hand :: "reader_pc \<Rightarrow> wsMessage list" where
  "reader_hand (RdPush m) = [m]"
| "reader_hand _ = []"

fun sender_hand :: "sender_pc \<Rightarrow> wsMessage list" where
  "sender_hand (SeSend m) = [m]"
| "sender_hand _ = []"

definition in_inv :: "ws \<Rightarrow> bool" where
  "in_inv s \<longleftrightarrow> w_read s = w_handed s @ ch_buf (w_in s) @ reader_hand (w_reader s)
     \<and> (w_proc s \<noteq> PrExit \<longrightarrow>
          texts (w_handed s) = map dp_Data (w_delivered s @ ch_buf (w_input s) @ proc_hand (w_proc s)))
     \<and> prefix (map dp_Data (w_delivered s @ ch_buf (w_input s))) (texts (w_handed s))"

lemma proc_hand_next:
  "map dp_Data (proc_hand (proc_next m now)) = texts [m]" "proc_next m now \<noteq> PrExit"
  by (simp_all add: proc_next_def package_of_def texts_one split: frame_type.split)

lemma in_inv_incoming: "incoming_step s s' \<Longrightarrow> in_inv s \<Longrightarrow> in_inv s'"
proof (erule incoming_step.cases, goal_cases)
  case (5 s m c now)
  then show ?case
    by (auto simp: in_inv_def chan_step_simps proc_hand_next(1) proc_hand_next(2) split: list.splits if_splits)
qed (auto simp: in_inv_def ws_updates chan_step_simps split: list.splits if_splits)

lemma in_inv_other:
  "writer_step s s' \<or> outgoing_step s s' \<or> close_step s s' \<or> main_step s s' \<Longrightarrow> in_inv s \<Longrightarrow> in_inv s'"
  by (elim disjE; erule writer_step.cases outgoing_step.cases close_step.cases main_step.cases)
     (auto simp: in_inv_def ws_updates chan_step_simps split: if_splits)

lemma in_inv_reach: "ws_reach a s \<Longrightarrow> in_inv s"
proof (induction rule: reach.induct)
  case (reach_init s)
  then show ?case by (simp add: in_inv_def ws_new_def texts_def)
next
  case (reach_step s t)
  then show ?case using in_inv_incoming in_inv_other unfolding ws_step_def by blast
qed

text \<open>
  C14. Incoming messages arrive in order and unchanged: what was received from \<open>ReadChan\<close>
  is at any time a prefix of the text frames read from the connection, in the order they
  were read, with nothing repeated and nothing between them left out.
\<close>

theorem ws_incoming_in_order:
  assumes "ws_reach a s"
  shows "prefix (map dp_Data (w_delivered s)) (texts (w_read s))"
proof -
  have "in_inv s" using assms by (rule in_inv_reach)
  then have "prefix (map dp_Data (w_delivered s)) (texts (w_handed s))"
    and "w_read s = w_handed s @ ch_buf (w_in s) @ reader_hand (w_reader s)"
    by (auto simp: in_inv_def intro: append_prefixD)
  then show ?thesis by simp
qed

definition idle_close :: "ws \<Rightarrow> bool" where
  "idle_close s \<longleftrightarrow> (\<forall>k. w_closers s k = ClIdle)"

lemma idle_close_back: "ws_step s s' \<Longrightarrow> idle_close s' \<Longrightarrow> idle_close s"
  unfolding ws_step_def
  by (elim disjE; erule writer_step.cases incoming_step.cases outgoing_step.cases close_step.cases main_step.cases)
     (auto simp: idle_close_def ws_updates split: if_splits)

definition out_inv :: "ws \<Rightarrow> bool" where
  "out_inv s \<longleftrightarrow> w_accepted s = w_taken s @ ch_buf (w_out s)
     \<and> (idle_close s \<longrightarrow> w_taken s = w_sent s @ w_lost s @ sender_hand (w_sender s)
          \<and> (w_lost s \<noteq> [] \<longrightarrow> w_sender s = SeExit))"

lemma idle_close_not: "idle_close s \<Longrightarrow> w_closers s k = ClIdle"
  by (simp add: idle_close_def)

lemma out_inv_close: "close_step s s' \<Longrightarrow> out_inv s \<Longrightarrow> out_inv s'"
proof -
  assume st: "close_step s s'" and inv: "out_inv s"
  have "\<not> idle_close s'"
    using st by (cases rule: close_step.cases) (auto simp: idle_close_def ws_updates)
  moreover have "w_accepted s' = w_taken s' @ ch_buf (w_out s')"
    using st by (cases rule: close_step.cases)
      (use inv in \<open>auto simp: out_inv_def ws_updates chan_step_simps split: list.splits if_splits\<close>)
  ultimately show "out_inv s'" by (simp add: out_inv_def)
qed

lemma out_inv_outgoing: "outgoing_step s s' \<Longrightarrow> out_inv s \<Longrightarrow> out_inv s'"
  by (erule outgoing_step.cases)
     (auto simp: out_inv_def idle_close_def ws_updates chan_step_simps split: list.splits if_splits)

lemma out_inv_other:
  "writer_step s s' \<or> incoming_step s s' \<or> main_step s s' \<Longrightarrow> out_inv s \<Longrightarrow> out_inv s'"
  by (elim disjE; erule writer_step.cases incoming_step.cases main_step.cases)
     (auto simp: out_inv_def idle_close_def ws_updates chan_step_simps split: if_splits)

lemma out_inv_reach: "ws_reach a s \<Longrightarrow> out_inv s"
proof (induction rule: reach.induct)
  case (reach_init s)
  then show ?case by (simp add: out_inv_def ws_new_def)
next
  case (reach_step s t)
  then show ?case using out_inv_close out_inv_outgoing out_inv_other unfolding ws_step_def by blast
qed

text \<open>
  Outgoing messages keep their order until \<open>Close\<close> is called: as long as nobody is
  in \<open>Close\<close>, what was written to the connection is a prefix of the messages accepted
  (control messages, audio and pings alike), and if no write failed only the one in the
  sender's hand and those still queued are missing.
\<close>

theorem ws_outgoing_in_order:
  assumes "ws_reach a s" and "idle_close s"
  shows "prefix (w_sent s) (w_accepted s)
    \<and> w_accepted s = w_sent s @ w_lost s @ sender_hand (w_sender s) @ ch_buf (w_out s)"
  using out_inv_reach [OF assms(1)] assms(2) by (simp add: out_inv_def)

subsection \<open>What Close may lose\<close>

text \<open>Steps as runs, one rule for each relation.\<close>

lemma ws_stepI:
  "writer_step s s' \<Longrightarrow> ws_step s s'" "incoming_step s s' \<Longrightarrow> ws_step s s'"
  "outgoing_step s s' \<Longrightarrow> ws_step s s'" "close_step s s' \<Longrightarrow> ws_step s s'"
  "main_step s s' \<Longrightarrow> ws_step s s'"
  by (simp_all add: ws_step_def)

text \<open>One complete \<open>Write\<close> by caller 0.\<close>

lemma write_once:
  assumes "w_writers s 0 = WIdle" and "w_mu s = None" and "\<not> w_cc_closed s" and "has_room (w_out s)"
  shows "ws_step\<^sup>*\<^sup>* s (s\<lparr>w_out := (w_out s)\<lparr>ch_buf := ch_buf (w_out s) @ [text_message d]\<rparr>,
    w_accepted := w_accepted s @ [text_message d]\<rparr>)"
proof -
  let ?c = "(w_out s)\<lparr>ch_buf := ch_buf (w_out s) @ [text_message d]\<rparr>"
  let ?a = "set_writer 0 (WLock d) s"
  let ?b = "set_writer 0 (WBody d) ?a\<lparr>w_mu := Some (HWriter 0)\<rparr>"
  let ?o = "set_writer 0 (WSend d) ?b"
  let ?e = "push_out (text_message d) ?c (set_writer 0 WOk ?o\<lparr>w_mu := None\<rparr>)"
  let ?f = "set_writer 0 WIdle ?e"
  have 1: "ws_step s ?a" by (intro ws_stepI wr_call) (rule assms(1))
  have 2: "ws_step ?a ?b" by (intro ws_stepI wr_lock) (simp_all add: ws_updates assms)
  have 3: "ws_step ?b ?o" by (intro ws_stepI wr_open) (simp_all add: ws_updates assms)
  have 4: "ws_step ?o ?e"
    by (intro ws_stepI wr_send) (simp_all add: ws_updates assms send_chan_Ret)
  have 5: "ws_step ?e ?f" by (intro ws_stepI wr_return) (simp add: ws_updates)
  have "ws_step\<^sup>*\<^sup>* s ?f"
    by (rule run_step [OF 1 run_step [OF 2 run_step [OF 3 run_step [OF 4 r_into_rtranclp [of ws_step, OF 5]]]]])
  moreover have "?f = s\<lparr>w_out := ?c, w_accepted := w_accepted s @ [text_message d]\<rparr>"
    using assms(1,2) by (cases s) (simp add: ws_updates fun_upd_idem)
  ultimately show ?thesis by simp
qed

text \<open>The main goroutine's cleanup, once \<open>closeChan\<close> is closed and the mutex is free.\<close>

lemma main_cleanup:
  assumes "w_main s = MSelect" and "w_closeChan s" and "w_mu s = None" and "\<not> ch_closed (w_input s)"
    and "\<not> w_doneChan s"
  shows "ws_step\<^sup>*\<^sup>* s (s\<lparr>w_main := MExit, w_conn_closed := True, w_cc_closed := True,
    w_input := (w_input s)\<lparr>ch_closed := True\<rparr>, w_doneChan := True\<rparr>)"
proof -
  let ?a = "s\<lparr>w_main := MConnClose\<rparr>"
  let ?b = "?a\<lparr>w_main := MCcLock, w_conn_closed := True\<rparr>"
  let ?c = "?b\<lparr>w_main := MCcBody, w_mu := Some HMain\<rparr>"
  let ?k = "?c\<lparr>w_main := MCcClose, w_cc_closed := True\<rparr>"
  let ?d = "?k\<lparr>w_main := MDone, w_input := (w_input s)\<lparr>ch_closed := True\<rparr>, w_mu := None\<rparr>"
  let ?e = "?d\<lparr>w_main := MExit, w_doneChan := True\<rparr>"
  have 1: "ws_step s ?a" by (intro ws_stepI mn_select) (simp_all add: assms)
  have 2: "ws_step ?a ?b" by (intro ws_stepI mn_conn) simp
  have 3: "ws_step ?b ?c" by (intro ws_stepI mn_lock) (simp_all add: assms)
  have 4: "ws_step ?c ?k" by (intro ws_stepI mn_cc) simp
  have 5: "ws_step ?k ?d" by (intro ws_stepI mn_cc_close) (simp_all add: close_chan_def assms)
  have 6: "ws_step ?d ?e" by (intro ws_stepI mn_done) (simp_all add: close_signal_def assms)
  have "ws_step\<^sup>*\<^sup>* s ?e"
    by (rule run_step [OF 1 run_step [OF 2 run_step [OF 3 run_step [OF 4 run_step [OF 5
      r_into_rtranclp [of ws_step, OF 6]]]]]])
  then show ?thesis using assms(3) by (cases s) simp
qed

text \<open>
  C36. \<open>Close\<close> may return nil although a message accepted before it was never sent: it
  closes \<open>closeChan\<close> before it drains the queue, and the main goroutine may close the
  connection in between; the drain then fails on every message it takes.
\<close>

theorem close_can_lose_accepted_messages:
  "\<exists>s. ws_reach True s \<and> w_closers s (CloseCall 0) = ClNil \<and> w_sent s = []
     \<and> w_accepted s = [text_message d, close_message] \<and> w_lost s = [text_message d]"
proof -
  let ?o = "make_chan 16 :: wsMessage chan"
  define s1 where "s1 = (ws_new True)\<lparr>w_out := ?o\<lparr>ch_buf := [text_message d]\<rparr>, w_accepted := [text_message d]\<rparr>"
  define s2 where "s2 = set_closer (CloseCall 0) ClCheck s1"
  define s3 where "s3 = set_closer (CloseCall 0) ClDrain s2\<lparr>w_closeChan := True\<rparr>"
  define s4 where "s4 = s3\<lparr>w_main := MExit, w_conn_closed := True, w_cc_closed := True,
    w_input := (w_input s3)\<lparr>ch_closed := True\<rparr>, w_doneChan := True\<rparr>"
  define s5 where "s5 = take_out (text_message d) ?o (set_closer (CloseCall 0) (ClDrainSend (text_message d)) s4)"
  define s6 where "s6 = record_lost (text_message d) (set_closer (CloseCall 0) ClDrain s5)"
  define s7 where "s7 = set_closer (CloseCall 0) ClPush s6"
  define s8 where "s8 = push_out close_message (?o\<lparr>ch_buf := [close_message]\<rparr>) (set_closer (CloseCall 0) ClWait s7)"
  define s9 where "s9 = set_closer (CloseCall 0) ClNil s8"
  note defs = s1_def s2_def s3_def s4_def s5_def s6_def s7_def s8_def s9_def ws_updates ws_new_def
  have r0: "ws_reach True (ws_new True)" by (rule reach_init) simp
  have 1: "ws_step\<^sup>*\<^sup>* (ws_new True) s1"
    using write_once [of "ws_new True" d] by (simp add: ws_new_def s1_def)
  have 2: "ws_step s1 s2" unfolding s2_def by (intro ws_stepI cl_call) (simp add: defs)
  have 3: "ws_step s2 s3" unfolding s3_def by (intro ws_stepI cl_trigger) (simp_all add: defs)
  have 4: "ws_step\<^sup>*\<^sup>* s3 s4" unfolding s4_def by (rule main_cleanup) (simp_all add: defs)
  have 5: "ws_step s4 s5"
    unfolding s5_def by (intro ws_stepI cl_drain) (simp_all add: defs recv_chan_def make_chan_def)
  have 6: "ws_step s5 s6" unfolding s6_def by (intro ws_stepI cl_fail) (simp add: defs)
  have 7: "ws_step s6 s7" unfolding s7_def by (intro ws_stepI cl_drained) (simp_all add: defs)
  have 8: "ws_step s7 s8"
    unfolding s8_def by (intro ws_stepI cl_push) (simp_all add: defs send_chan_def make_chan_def)
  have 9: "ws_step s8 s9" unfolding s9_def by (intro ws_stepI cl_done) (simp_all add: defs)
  have r1: "ws_reach True s1" by (rule reach_rtranclp [OF r0 1])
  have r2: "ws_reach True s2" by (rule reach_step [OF r1 2])
  have r3: "ws_reach True s3" by (rule reach_step [OF r2 3])
  have r4: "ws_reach True s4" by (rule reach_rtranclp [OF r3 4])
  have r5: "ws_reach True s5" by (rule reach_step [OF r4 5])
  have r6: "ws_reach True s6" by (rule reach_step [OF r5 6])
  have r7: "ws_reach True s7" by (rule reach_step [OF r6 7])
  have r8: "ws_reach True s8" by (rule reach_step [OF r7 8])
  have "ws_reach True s9" by (rule reach_step [OF r8 9])
  then show ?thesis by (intro exI [of _ s9]) (simp add: defs)
qed

subsection \<open>The sender waiting for itself\<close>

text \<open>The sender handles a ping tick while the queue, which only it empties, is full.\<close>

definition sender_stuck :: "ws \<Rightarrow> bool" where
  "sender_stuck s \<longleftrightarrow> w_sender s = SePing \<and> \<not> has_room (w_out s)"

lemma sender_stuck_step:
  "ws_step s s' \<Longrightarrow> sender_stuck s \<Longrightarrow> chan_inv s \<Longrightarrow> idle_close s \<Longrightarrow>
   sender_stuck s' \<and> w_sent s' = w_sent s"
  unfolding ws_step_def
  by (elim disjE; erule writer_step.cases incoming_step.cases outgoing_step.cases close_step.cases main_step.cases)
     (auto simp: sender_stuck_def chan_inv_def idle_close_def ws_updates send_chan_Ret)

lemma idle_close_run: "ws_step\<^sup>*\<^sup>* s s' \<Longrightarrow> idle_close s' \<Longrightarrow> idle_close s"
  by (induction rule: rtranclp_induct) (auto intro: idle_close_back)

text \<open>
  C37. A ping tick on a full queue stops the transport: the sender blocks putting the ping
  into the queue that only it empties, and until somebody calls \<open>Close\<close> nothing is ever
  written to the connection again, whatever happens, the end of the context included.
\<close>

theorem ping_on_full_queue_blocks_sender:
  assumes "ws_reach a s" and "sender_stuck s" and "ws_step\<^sup>*\<^sup>* s s'" and "idle_close s'"
  shows "sender_stuck s' \<and> w_sent s' = w_sent s"
  using assms(3,4)
proof (induction rule: rtranclp_induct)
  case base
  then show ?case using assms(2) by simp
next
  case (step t u)
  have "idle_close t" using idle_close_back [OF step.hyps(2) step.prems] .
  moreover have "chan_inv t"
    using ws_reach_safe [OF reach_rtranclp [OF assms(1) step.hyps(1)]] by (simp add: safe_inv_def)
  ultimately show ?case
    using sender_stuck_step [OF step.hyps(2)] step.IH by simp
qed

lemma write_many:
  assumes "w_writers s 0 = WIdle" and "w_mu s = None" and "\<not> w_cc_closed s" and "\<not> ch_closed (w_out s)"
    and "length (ch_buf (w_out s)) + n \<le> ch_cap (w_out s)"
  shows "ws_step\<^sup>*\<^sup>* s (s\<lparr>w_out := (w_out s)\<lparr>ch_buf := ch_buf (w_out s) @ replicate n (text_message d)\<rparr>,
    w_accepted := w_accepted s @ replicate n (text_message d)\<rparr>)"
  using assms
proof (induction n arbitrary: s)
  case 0
  then show ?case by (cases s) simp
next
  case (Suc n)
  let ?s = "s\<lparr>w_out := (w_out s)\<lparr>ch_buf := ch_buf (w_out s) @ [text_message d]\<rparr>,
    w_accepted := w_accepted s @ [text_message d]\<rparr>"
  have 1: "ws_step\<^sup>*\<^sup>* s ?s" using Suc.prems by (intro write_once) (simp_all add: has_room_def)
  have 2: "ws_step\<^sup>*\<^sup>* ?s (?s\<lparr>w_out := (w_out ?s)\<lparr>ch_buf := ch_buf (w_out ?s) @ replicate n (text_message d)\<rparr>,
    w_accepted := w_accepted ?s @ replicate n (text_message d)\<rparr>)"
    using Suc.prems by (intro Suc.IH) simp_all
  show ?case using rtranclp_trans [of ws_step, OF 1 2] by simp
qed

lemma stuck_reachable:
  "\<exists>s. ws_reach True s \<and> sender_stuck s \<and> idle_close s \<and> length (w_accepted s) = 16 \<and> w_sent s = []"
proof -
  let ?m = "replicate 16 (text_message (OtherText ''x''))"
  let ?s = "(ws_new True)\<lparr>w_out := (make_chan 16)\<lparr>ch_buf := ?m\<rparr>, w_accepted := ?m\<rparr>"
  have "ws_reach True (ws_new True)" by (rule reach_init) simp
  moreover have "ws_step\<^sup>*\<^sup>* (ws_new True) ?s"
    using write_many [of "ws_new True" 16 "OtherText ''x''"] by (simp add: ws_new_def)
  ultimately have "ws_reach True ?s" by (rule reach_rtranclp)
  moreover have "ws_step ?s (?s\<lparr>w_sender := SePing\<rparr>)"
    by (intro ws_stepI se_tick) (simp add: ws_new_def)
  ultimately have "ws_reach True (?s\<lparr>w_sender := SePing\<rparr>)" by (rule reach_step)
  then show ?thesis
    by (intro exI [of _ "?s\<lparr>w_sender := SePing\<rparr>"])
      (simp add: sender_stuck_def idle_close_def has_room_def ws_new_def)
qed

theorem ping_on_full_queue_blocks_sender_witness:
  "\<exists>s s'. ws_reach True s \<and> sender_stuck s \<and> ws_step\<^sup>*\<^sup>* s s' \<and> w_ctx s' \<and> sender_stuck s'
     \<and> w_sent s' = []"
proof -
  obtain s where s: "ws_reach True s" "sender_stuck s" "idle_close s" "w_sent s = []"
    using stuck_reachable by blast
  let ?s' = "s\<lparr>w_ctx := True\<rparr>"
  have run: "ws_step\<^sup>*\<^sup>* s ?s'" by (intro r_into_rtranclp [of ws_step] ws_stepI mn_ctx)
  have "idle_close ?s'" using s(3) by (simp add: idle_close_def)
  from ping_on_full_queue_blocks_sender [OF s(1,2) run this] s run show ?thesis
    by (intro exI [of _ s] exI [of _ ?s']) simp
qed

theorem ws_transport_never_panics_witness: "\<exists>s. ws_reach True s \<and> length (w_accepted s) = 16 \<and> \<not> w_panicked s"
proof -
  obtain s where s: "ws_reach True s" "length (w_accepted s) = 16" using stuck_reachable by blast
  from ws_transport_never_panics [OF s(1)] s show ?thesis by blast
qed

theorem ws_outgoing_in_order_witness:
  "\<exists>s. ws_reach True s \<and> length (w_accepted s) = 16 \<and> prefix (w_sent s) (w_accepted s)"
proof -
  obtain s where s: "ws_reach True s" "idle_close s" "length (w_accepted s) = 16" using stuck_reachable by blast
  from ws_outgoing_in_order [OF s(1,2)] s show ?thesis by blast
qed

text \<open>A text frame on its way to the reader of \<open>ReadChan\<close>, for the last witness.\<close>

lemma frame_read: "\<exists>s. ws_reach True s \<and> texts (w_read s) = [d]"
proof -
  have "ws_reach True (ws_new True)" by (rule reach_init) simp
  moreover have "ws_step (ws_new True) ((ws_new True)\<lparr>w_reader := RdPush (text_message d),
      w_read := w_read (ws_new True) @ [text_message d]\<rparr>)"
    by (intro ws_stepI rd_frame) (simp_all add: ws_new_def)
  ultimately have "ws_reach True ((ws_new True)\<lparr>w_reader := RdPush (text_message d),
      w_read := w_read (ws_new True) @ [text_message d]\<rparr>)" by (rule reach_step)
  then show ?thesis
    by (intro exI [of _ "(ws_new True)\<lparr>w_reader := RdPush (text_message d),
      w_read := w_read (ws_new True) @ [text_message d]\<rparr>"])
      (simp add: ws_new_def texts_def text_message_def)
qed

theorem ws_incoming_in_order_witness:
  "\<exists>s. ws_reach True s \<and> texts (w_read s) = [OtherText ''a'']
     \<and> prefix (map dp_Data (w_delivered s)) (texts (w_read s))"
proof -
  obtain s where s: "ws_reach True s" "texts (w_read s) = [OtherText ''a'']" using frame_read by blast
  from ws_incoming_in_order [OF s(1)] s show ?thesis by blast
qed

end
