(* ===== verification/Lifecycle.thy ===== *)
theory Lifecycle
  imports Session "HOL-Library.Sublist"
begin

section \<open>The life of a session: NewSession, Run, Close (session.go, option.go)\<close>

subsection \<open>Options\<close>

text \<open>
  An option of option.go sets one field. Durations are in nanoseconds. The logger is not
  modelled; whether a transport factory was given is all the session state needs of it.
\<close>

datatype 'o session_option =
    WithStreamObserver 'o
  | WithRequestTimeout i64
  | WithID string
  | WithTransport
  | WithHandler
  | WithDebug bool
  | WithAudioBufferSize int

record 'o sessionOptions =
  so_id :: string
  so_transport :: bool
  so_handler :: bool
  so_audioBufferSize :: int
  so_requestTimeout :: i64
  so_debug :: bool
  so_streamObserver :: "'o option"

fun apply_option :: "'o session_option \<Rightarrow> 'o sessionOptions \<Rightarrow> 'o sessionOptions" where
  "apply_option (WithStreamObserver ob) o1 = o1\<lparr>so_streamObserver := Some ob\<rparr>"
| "apply_option (WithRequestTimeout t) o1 = o1\<lparr>so_requestTimeout := t\<rparr>"
| "apply_option (WithID i) o1 = o1\<lparr>so_id := i\<rparr>"
| "apply_option WithTransport o1 = o1\<lparr>so_transport := True\<rparr>"
| "apply_option WithHandler o1 = o1\<lparr>so_handler := True\<rparr>"
| "apply_option (WithDebug b) o1 = o1\<lparr>so_debug := b\<rparr>"
| "apply_option (WithAudioBufferSize n) o1 = o1\<lparr>so_audioBufferSize := n\<rparr>"

fun withOptions :: "'o session_option list \<Rightarrow> 'o sessionOptions \<Rightarrow> 'o sessionOptions" where
  "withOptions [] o1 = o1"
| "withOptions (op # ops) o1 = withOptions ops (apply_option op o1)"

definition no_options :: "'o sessionOptions" where
  "no_options = \<lparr>so_id = [], so_transport = False, so_handler = False, so_audioBufferSize = 0,
     so_requestTimeout = 0, so_debug = False, so_streamObserver = None\<rparr>"

definition withDefaults :: "string \<Rightarrow> 'o sessionOptions \<Rightarrow> 'o sessionOptions" where
  "withDefaults new_id = withOptions
     [WithRequestTimeout (5 * 1000000000), WithAudioBufferSize (1024 * 1024), WithID new_id]"

definition session_options :: "string \<Rightarrow> 'o session_option list \<Rightarrow> 'o sessionOptions" where
  "session_options new_id opts = withOptions opts (withDefaults new_id no_options)"

definition NewSession :: "string \<Rightarrow> 'o session_option list \<Rightarrow> 'tr session" where
  "NewSession new_id opts =
     \<lparr>s_id = so_id (session_options new_id opts), s_state = SessionStateInactive, s_transport = None,
      s_pending = no_pendings, s_once = OnceNew, s_trigger = False, s_final = False\<rparr>"

fun timeout_of :: "'o session_option \<Rightarrow> i64 option" where
  "timeout_of (WithRequestTimeout t) = Some t"
| "timeout_of _ = None"

fun id_of :: "'o session_option \<Rightarrow> string option" where
  "id_of (WithID i) = Some i"
| "id_of _ = None"

fun buffer_of :: "'o session_option \<Rightarrow> int option" where
  "buffer_of (WithAudioBufferSize n) = Some n"
| "buffer_of _ = None"

lemma withOptions_last:
  "so_requestTimeout (withOptions opts d) = last (so_requestTimeout d # List.map_filter timeout_of opts)"
  "so_id (withOptions opts d) = last (so_id d # List.map_filter id_of opts)"
  "so_audioBufferSize (withOptions opts d) = last (so_audioBufferSize d # List.map_filter buffer_of opts)"
  "so_handler (withOptions opts d) \<longleftrightarrow> so_handler d \<or> WithHandler \<in> set opts"
proof (induction opts arbitrary: d)
  case (Cons op opts)
  { case 1 show ?case by (cases op) (simp_all add: Cons.IH List.map_filter_simps)
  next case 2 show ?case by (cases op) (simp_all add: Cons.IH List.map_filter_simps)
  next case 3 show ?case by (cases op) (simp_all add: Cons.IH List.map_filter_simps)
  next case 4 show ?case by (cases op) (simp_all add: Cons.IH) }
qed (simp_all add: List.map_filter_simps)

text \<open>
  Options: the last option of a kind decides; without one a session has a request
  timeout of 5 s, an audio buffer of 1 MiB and a generated ID, and a new session is
  inactive, open and has no pending request.
\<close>

theorem session_options_last_wins:
  "so_requestTimeout (session_options i opts) = last (5000000000 # List.map_filter timeout_of opts)
   \<and> so_audioBufferSize (session_options i opts) = last (1048576 # List.map_filter buffer_of opts)
   \<and> s_id (NewSession i opts) = last (i # List.map_filter id_of opts)
   \<and> (so_handler (session_options i opts) \<longleftrightarrow> WithHandler \<in> set opts)
   \<and> s_state (NewSession i opts) = SessionStateInactive \<and> s_pending (NewSession i opts) = no_pendings
   \<and> \<not> s_final (NewSession i opts)"
  by (simp add: session_options_def NewSession_def withOptions_last withDefaults_def no_options_def)

subsection \<open>The goroutines of a session\<close>

text \<open>
  \<open>Run\<close> starts three goroutines (the closer, the reader, \<open>OnBegin\<close>); any number of callers
  may be in \<open>Close\<close>, and the reader calls \<open>doClose\<close> itself when the transport ends. Each
  is a program counter; a step is one atomic operation. \<open>Run\<close> is called at most once. A
  close handler is a value of \<open>'h\<close>; the first is the one \<open>NewSession\<close> registers (closing
  the audio channel), and \<open>Run\<close> appends the transport's.
\<close>

datatype thread = Reader | Caller nat

datatype close_pc =
    NotCalled | Checking | AtOnce | InCallback | Waiting | ClosedOk | ClosedCtxErr | CallbackPanicked

datatype 'h closer_pc =
    CNotStarted | CSelect | CFinalize | CRun "'h list" | CIn 'h "'h list" | CCloseFinal | CSendDone | CExit

datatype begin_pc = BNotStarted | BRunning | BFailed | BExit

datatype reader_pc = RNotStarted | RSelect | RClosing | RExit

datatype run_call = RunNotCalled | RunRefused | RunStarted

record 'h life =
  l_run :: run_call
  l_state :: SessionState
  l_once :: once
  l_trigger :: bool
  l_final :: bool
  l_ctx :: bool
  l_in_closed :: bool
  l_handlers :: "'h list"
  l_snapshot :: "'h list"
  l_ran :: "'h list"
  l_closer :: "'h closer_pc"
  l_begin :: begin_pc
  l_reader :: reader_pc
  l_pc :: "thread \<Rightarrow> close_pc"
  l_done :: "goerr option chan"
  l_panicked :: bool

definition life_new :: "'h \<Rightarrow> 'h life" where
  "life_new h0 =
     \<lparr>l_run = RunNotCalled, l_state = SessionStateInactive, l_once = OnceNew, l_trigger = False,
      l_final = False, l_ctx = False, l_in_closed = False, l_handlers = [h0], l_snapshot = [],
      l_ran = [], l_closer = CNotStarted, l_begin = BNotStarted, l_reader = RNotStarted,
      l_pc = (\<lambda>_. NotCalled), l_done = make_chan 1, l_panicked = False\<rparr>"

definition set_pc :: "thread \<Rightarrow> close_pc \<Rightarrow> 'h life \<Rightarrow> 'h life" where
  "set_pc t p l = l\<lparr>l_pc := (l_pc l)(t := p)\<rparr>"

definition shut :: "SessionState \<Rightarrow> bool" where
  "shut st \<longleftrightarrow> st = SessionStateClosed \<or> st = SessionStateClosing"

text \<open>
  The steps of the closer: wait for the signal, then \<open>finalize\<close>. Calling a close handler
  and its return are two steps; what a handler does in between is not the session's.
\<close>

inductive closer_step :: "'h life \<Rightarrow> 'h life \<Rightarrow> bool" where
  ls_select: "l_closer l = CSelect \<Longrightarrow> l_trigger l \<or> l_ctx l \<Longrightarrow> closer_step l (l\<lparr>l_closer := CFinalize\<rparr>)"
| ls_finalize: "l_closer l = CFinalize \<Longrightarrow>
    closer_step l (l\<lparr>l_state := SessionStateClosing, l_closer := CRun (l_handlers l),
      l_snapshot := l_handlers l\<rparr>)"
| ls_handler: "l_closer l = CRun (h # hs) \<Longrightarrow> closer_step l (l\<lparr>l_closer := CIn h hs\<rparr>)"
| ls_handled: "l_closer l = CIn h hs \<Longrightarrow> closer_step l (l\<lparr>l_closer := CRun hs, l_ran := l_ran l @ [h]\<rparr>)"
| ls_closed: "l_closer l = CRun [] \<Longrightarrow>
    closer_step l (l\<lparr>l_state := SessionStateClosed, l_closer := CCloseFinal\<rparr>)"
| ls_close_final: "l_closer l = CCloseFinal \<Longrightarrow> close_signal (l_final l) = Ret b \<Longrightarrow>
    closer_step l (l\<lparr>l_final := b, l_closer := CSendDone\<rparr>)"
| ls_close_final_panic: "l_closer l = CCloseFinal \<Longrightarrow> close_signal (l_final l) = Panic m \<Longrightarrow>
    closer_step l (l\<lparr>l_panicked := True\<rparr>)"
| ls_send_done: "l_closer l = CSendDone \<Longrightarrow> send_chan None (l_done l) = Ret c \<Longrightarrow>
    closer_step l (l\<lparr>l_done := c, l_closer := CExit\<rparr>)"

text \<open>
  All steps, for the transport's close handler \<open>ht\<close>. \<open>OnClose\<close> appends to a slice without a
  lock; it is one step, so two calls of it are taken not to overlap.
\<close>

inductive life_step :: "'h \<Rightarrow> 'h life \<Rightarrow> 'h life \<Rightarrow> bool" for ht where
  ls_on_close: "life_step ht l (l\<lparr>l_handlers := l_handlers l @ [h]\<rparr>)"
| ls_run_refused: "l_run l = RunNotCalled \<Longrightarrow> send_chan (Some e) (l_done l) = Ret c \<Longrightarrow>
    life_step ht l (l\<lparr>l_run := RunRefused, l_done := c\<rparr>)"
| ls_run: "l_run l = RunNotCalled \<Longrightarrow>
    life_step ht l (l\<lparr>l_run := RunStarted, l_handlers := l_handlers l @ [ht], l_closer := CSelect,
      l_reader := RSelect, l_begin := BRunning\<rparr>)"
| ls_ctx: "life_step ht l (l\<lparr>l_ctx := True\<rparr>)"
| ls_in_close: "life_step ht l (l\<lparr>l_in_closed := True\<rparr>)"
| ls_closer: "closer_step l l' \<Longrightarrow> life_step ht l l'"
| ls_begin_ok: "l_begin l = BRunning \<Longrightarrow>
    life_step ht l (l\<lparr>l_state := SessionStateActive, l_begin := BExit\<rparr>)"
| ls_begin_failed: "l_begin l = BRunning \<Longrightarrow>
    life_step ht l (l\<lparr>l_state := SessionStateFailed, l_begin := BFailed\<rparr>)"
| ls_begin_send: "l_begin l = BFailed \<Longrightarrow> send_chan (Some e) (l_done l) = Ret c \<Longrightarrow>
    life_step ht l (l\<lparr>l_done := c, l_begin := BExit\<rparr>)"
| ls_done_recv: "recv_chan (l_done l) = Ret (x, c) \<Longrightarrow> life_step ht l (l\<lparr>l_done := c\<rparr>)"
| ls_reader_stop: "l_reader l = RSelect \<Longrightarrow> l_final l \<or> l_ctx l \<Longrightarrow> life_step ht l (l\<lparr>l_reader := RExit\<rparr>)"
| ls_reader_end: "l_reader l = RSelect \<Longrightarrow> l_in_closed l \<Longrightarrow>
    life_step ht l (set_pc Reader Checking l\<lparr>l_reader := RClosing\<rparr>)"
| ls_call: "l_pc l (Caller n) = NotCalled \<Longrightarrow> life_step ht l (set_pc (Caller n) Checking l)"
| ls_check_shut: "l_pc l t = Checking \<Longrightarrow> shut (l_state l) \<Longrightarrow> life_step ht l (set_pc t Waiting l)"
| ls_check_open: "l_pc l t = Checking \<Longrightarrow> \<not> shut (l_state l) \<Longrightarrow> life_step ht l (set_pc t AtOnce l)"
| ls_once_first: "l_pc l t = AtOnce \<Longrightarrow> l_once l = OnceNew \<Longrightarrow>
    life_step ht l (set_pc t InCallback l\<lparr>l_once := OnceRunning\<rparr>)"
| ls_once_done: "l_pc l t = AtOnce \<Longrightarrow> l_once l = OnceDone \<Longrightarrow> life_step ht l (set_pc t Waiting l)"
| ls_trigger: "l_pc l t = InCallback \<Longrightarrow> close_signal (l_trigger l) = Ret b \<Longrightarrow>
    life_step ht l (set_pc t Waiting l\<lparr>l_trigger := b, l_once := OnceDone\<rparr>)"
| ls_trigger_panic: "l_pc l t = InCallback \<Longrightarrow> close_signal (l_trigger l) = Panic m \<Longrightarrow>
    life_step ht l (l\<lparr>l_panicked := True\<rparr>)"
| ls_callback_panic: "l_pc l (Caller n) = InCallback \<Longrightarrow>
    life_step ht l (set_pc (Caller n) CallbackPanicked l\<lparr>l_once := OnceDone\<rparr>)"
| ls_reader_done: "l_reader l = RClosing \<Longrightarrow> l_pc l Reader = Waiting \<Longrightarrow>
    life_step ht l (l\<lparr>l_reader := RExit\<rparr>)"
| ls_return_ctx: "l_pc l (Caller n) = Waiting \<Longrightarrow> life_step ht l (set_pc (Caller n) ClosedCtxErr l)"
| ls_return_ok: "l_pc l (Caller n) = Waiting \<Longrightarrow> l_final l \<Longrightarrow>
    life_step ht l (set_pc (Caller n) ClosedOk l)"

abbreviation life_reach :: "'h \<Rightarrow> 'h \<Rightarrow> 'h life \<Rightarrow> bool" where
  "life_reach h0 ht \<equiv> reach (\<lambda>l. l = life_new h0) (life_step ht)"

lemma set_pc_simps [simp]:
  "l_pc (set_pc t p l) = (l_pc l)(t := p)" "l_run (set_pc t p l) = l_run l"
  "l_state (set_pc t p l) = l_state l" "l_once (set_pc t p l) = l_once l"
  "l_trigger (set_pc t p l) = l_trigger l" "l_final (set_pc t p l) = l_final l"
  "l_ctx (set_pc t p l) = l_ctx l" "l_in_closed (set_pc t p l) = l_in_closed l"
  "l_handlers (set_pc t p l) = l_handlers l" "l_snapshot (set_pc t p l) = l_snapshot l"
  "l_ran (set_pc t p l) = l_ran l" "l_closer (set_pc t p l) = l_closer l"
  "l_begin (set_pc t p l) = l_begin l" "l_reader (set_pc t p l) = l_reader l"
  "l_done (set_pc t p l) = l_done l" "l_panicked (set_pc t p l) = l_panicked l"
  by (simp_all add: set_pc_def)

lemma close_signal_simps [simp]:
  "close_signal b = Ret b' \<longleftrightarrow> \<not> b \<and> b'" "close_signal b = Panic m \<longleftrightarrow> b \<and> m = ''close of closed channel''"
  by (auto simp: close_signal_def)

subsection \<open>Invariants\<close>

text \<open>The Once and the trigger channel: at most one thread runs the callback, and only it closes.\<close>

definition once_inv :: "'h life \<Rightarrow> bool" where
  "once_inv l \<longleftrightarrow> (\<forall>t. l_pc l t = InCallback \<longrightarrow> l_once l = OnceRunning)
     \<and> (\<forall>t t'. l_pc l t = InCallback \<longrightarrow> l_pc l t' = InCallback \<longrightarrow> t = t')
     \<and> (l_trigger l \<longrightarrow> l_once l = OnceDone)"

text \<open>The closer: what has run, and that only it closes \<open>finalizedChan\<close>, once.\<close>

fun handlers_left :: "'h closer_pc \<Rightarrow> 'h list" where
  "handlers_left (CRun hs) = hs"
| "handlers_left (CIn h hs) = h # hs"
| "handlers_left _ = []"

definition closer_inv :: "'h life \<Rightarrow> bool" where
  "closer_inv l \<longleftrightarrow> (l_final l \<longleftrightarrow> l_closer l = CSendDone \<or> l_closer l = CExit)
     \<and> l_ran l @ handlers_left (l_closer l) = l_snapshot l
     \<and> (l_closer l \<in> {CNotStarted, CSelect, CFinalize} \<longrightarrow> l_snapshot l = [])
     \<and> (l_run l \<noteq> RunStarted \<longleftrightarrow> l_closer l = CNotStarted)
     \<and> (l_run l \<noteq> RunStarted \<longrightarrow> l_begin l = BNotStarted \<and> l_reader l = RNotStarted)"

definition registered_inv :: "'h \<Rightarrow> 'h \<Rightarrow> 'h life \<Rightarrow> bool" where
  "registered_inv h0 ht l \<longleftrightarrow> l_handlers l \<noteq> [] \<and> hd (l_handlers l) = h0
     \<and> (l_run l = RunStarted \<longrightarrow> ht \<in> set (tl (l_handlers l)))
     \<and> prefix (l_snapshot l) (l_handlers l)
     \<and> (l_closer l \<notin> {CNotStarted, CSelect, CFinalize} \<longrightarrow>
          l_snapshot l \<noteq> [] \<and> hd (l_snapshot l) = h0 \<and> ht \<in> set (tl (l_snapshot l)))"

definition caller_inv :: "'h life \<Rightarrow> bool" where
  "caller_inv l \<longleftrightarrow> (\<forall>n. l_pc l (Caller n) = ClosedOk \<longrightarrow> l_final l)"

definition state_inv :: "'h life \<Rightarrow> bool" where
  "state_inv l \<longleftrightarrow> (l_closer l \<in> {CNotStarted, CSelect, CFinalize} \<longrightarrow> \<not> shut (l_state l))
     \<and> (l_closer l \<in> {CCloseFinal, CSendDone, CExit} \<and> l_begin l = BRunning \<longrightarrow> l_state l = SessionStateClosed)"

lemma once_inv_step: "once_inv l \<Longrightarrow> life_step ht l l' \<Longrightarrow> once_inv l'"
  by (erule life_step.cases; (erule closer_step.cases)?) (auto simp: once_inv_def split: if_splits)

lemma closer_inv_step: "closer_inv l \<Longrightarrow> life_step ht l l' \<Longrightarrow> closer_inv l'"
  by (erule life_step.cases; (erule closer_step.cases)?) (auto simp: closer_inv_def)

lemma registered_inv_step:
  assumes "registered_inv h0 ht l" and "closer_inv l" and "life_step ht l l'"
  shows "registered_inv h0 ht l'"
  using assms(3)
proof (cases rule: life_step.cases)
  case ls_closer
  then show ?thesis
    by (cases rule: closer_step.cases) (use assms(1,2) in \<open>simp_all add: registered_inv_def closer_inv_def\<close>)
qed (use assms(1,2) in \<open>simp_all add: registered_inv_def closer_inv_def\<close>)

lemma caller_inv_step: "caller_inv l \<Longrightarrow> life_step ht l l' \<Longrightarrow> caller_inv l'"
  by (erule life_step.cases; (erule closer_step.cases)?) (auto simp: caller_inv_def split: if_splits)

lemma state_inv_step: "state_inv l \<Longrightarrow> closer_inv l \<Longrightarrow> life_step ht l l' \<Longrightarrow> state_inv l'"
  by (erule life_step.cases; (erule closer_step.cases)?) (auto simp: state_inv_def closer_inv_def shut_def)

definition life_inv :: "'h \<Rightarrow> 'h \<Rightarrow> 'h life \<Rightarrow> bool" where
  "life_inv h0 ht l \<longleftrightarrow> once_inv l \<and> closer_inv l \<and> registered_inv h0 ht l \<and> caller_inv l
     \<and> state_inv l \<and> \<not> l_panicked l"

lemma no_panic_step: "once_inv l \<Longrightarrow> closer_inv l \<Longrightarrow> \<not> l_panicked l \<Longrightarrow> life_step ht l l' \<Longrightarrow> \<not> l_panicked l'"
  by (erule life_step.cases; (erule closer_step.cases)?) (auto simp: once_inv_def closer_inv_def)

lemma life_inv_new: "life_inv h0 ht (life_new h0)"
  by (simp add: life_inv_def once_inv_def closer_inv_def registered_inv_def caller_inv_def state_inv_def
      life_new_def shut_def)

lemma life_inv_step: "life_inv h0 ht l \<Longrightarrow> life_step ht l l' \<Longrightarrow> life_inv h0 ht l'"
  unfolding life_inv_def
  using once_inv_step closer_inv_step registered_inv_step caller_inv_step state_inv_step no_panic_step by metis

lemma life_reach_inv: "life_reach h0 ht l \<Longrightarrow> life_inv h0 ht l"
  by (rule reach_invariant [where init = "\<lambda>l. l = life_new h0" and step = "life_step ht"
        and I = "life_inv h0 ht"]) (auto intro: life_inv_new life_inv_step)

subsection \<open>Shutdown\<close>

text \<open>
  C16. Orderly shutdown: once a session is finalised, every close handler that was
  registered when shutdown began has run, each exactly once, in the order of
  registration, the one closing the session's audio first and the transport's among
  them; and no goroutine has closed one of the session's channels twice.
\<close>

theorem finalized_ran_all_handlers:
  assumes "life_reach h0 ht l" and "l_final l"
  shows "l_ran l = l_snapshot l \<and> prefix (l_snapshot l) (l_handlers l) \<and> hd (l_ran l) = h0
    \<and> ht \<in> set (tl (l_ran l)) \<and> \<not> l_panicked l"
  using life_reach_inv [OF assms(1)] assms(2)
  by (auto simp: life_inv_def closer_inv_def registered_inv_def)

text \<open>
  C17. \<open>Close\<close> returns nil only after the session was finalised, so only after all its
  close handlers ran; on a session whose \<open>Run\<close> was never called or refused to start it
  never does, whatever else happens: such a call ends with its context.
\<close>

theorem close_returns_nil_only_when_finalized:
  assumes "life_reach h0 ht l" and "l_pc l (Caller n) = ClosedOk"
  shows "l_run l = RunStarted \<and> l_final l \<and> l_ran l = l_snapshot l \<and> ht \<in> set (l_ran l)"
proof -
  have inv: "closer_inv l" "caller_inv l" "registered_inv h0 ht l"
    using life_reach_inv [OF assms(1)] by (simp_all add: life_inv_def)
  then have "l_final l" using assms(2) by (auto simp: caller_inv_def)
  with inv show ?thesis by (auto simp: closer_inv_def registered_inv_def dest: list.set_sel(2))
qed

subsection \<open>Shutdown makes progress\<close>

text \<open>The part of the state that the closer leaves alone.\<close>

definition closer_frame :: "'h life \<Rightarrow> 'h life \<Rightarrow> bool" where
  "closer_frame l l' \<longleftrightarrow> l_pc l' = l_pc l \<and> l_begin l' = l_begin l \<and> l_reader l' = l_reader l
     \<and> l_handlers l' = l_handlers l \<and> l_once l' = l_once l \<and> l_trigger l' = l_trigger l \<and> l_ctx l' = l_ctx l"

lemma closer_step_frame: "closer_step l l' \<Longrightarrow> closer_frame l l'"
  by (erule closer_step.cases) (simp_all add: closer_frame_def)

lemma closer_run_frame: "closer_step\<^sup>*\<^sup>* l l' \<Longrightarrow> closer_frame l l'"
proof (induction rule: rtranclp_induct)
  case (step t u)
  then show ?case using closer_step_frame [of t u] by (simp add: closer_frame_def)
qed (simp add: closer_frame_def)

lemma closer_run_life: "closer_step\<^sup>*\<^sup>* l l' \<Longrightarrow> (life_step ht)\<^sup>*\<^sup>* l l'"
  by (induction rule: rtranclp_induct) (auto intro: rtranclp.rtrancl_into_rtrancl ls_closer)

text \<open>How far the closer is from closing \<open>finalizedChan\<close>.\<close>

fun closer_rank :: "'h list \<Rightarrow> 'h closer_pc \<Rightarrow> nat" where
  "closer_rank reg CSelect = 2 * length reg + 4"
| "closer_rank reg CFinalize = 2 * length reg + 3"
| "closer_rank reg (CRun hs) = 2 * length hs + 2"
| "closer_rank reg (CIn h hs) = 2 * length hs + 3"
| "closer_rank reg CCloseFinal = 1"
| "closer_rank reg _ = 0"

lemma closer_not_blocked:
  assumes "closer_inv l" and "l_run l = RunStarted" and "l_trigger l \<or> l_ctx l" and "\<not> l_final l"
  shows "\<exists>l'. closer_step l l'
    \<and> closer_rank (l_handlers l') (l_closer l') < closer_rank (l_handlers l) (l_closer l)"
proof (cases "l_closer l")
  case CSelect
  from ls_select [OF this assms(3)] CSelect show ?thesis by fastforce
next
  case CFinalize
  from ls_finalize [OF this] CFinalize show ?thesis by fastforce
next
  case (CRun hs)
  show ?thesis
  proof (cases hs)
    case Nil
    with CRun ls_closed [of l] show ?thesis by fastforce
  next
    case (Cons h hs')
    with CRun ls_handler [of l h hs'] show ?thesis by fastforce
  qed
next
  case (CIn h hs)
  from ls_handled [OF this] CIn show ?thesis by fastforce
next
  case CCloseFinal
  from ls_close_final [OF this, of True] CCloseFinal assms(4) show ?thesis by fastforce
qed (use assms in \<open>auto simp: closer_inv_def\<close>)

lemma closer_finishes:
  assumes "closer_inv l" and "l_run l = RunStarted" and "l_trigger l \<or> l_ctx l"
  shows "\<exists>l'. closer_step\<^sup>*\<^sup>* l l' \<and> l_final l'"
  using assms
proof (induction "closer_rank (l_handlers l) (l_closer l)" arbitrary: l rule: less_induct)
  case less
  show ?case
  proof (cases "l_final l")
    case False
    then obtain l1 where st: "closer_step l l1"
      and rank: "closer_rank (l_handlers l1) (l_closer l1) < closer_rank (l_handlers l) (l_closer l)"
      using closer_not_blocked less.prems by blast
    have inv: "closer_inv l1" by (rule closer_inv_step [OF less.prems(1) ls_closer [OF st]])
    have "l_run l1 = l_run l" using st by cases simp_all
    then obtain l' where "closer_step\<^sup>*\<^sup>* l1 l'" "l_final l'"
      using less.hyps [OF rank inv] less.prems closer_step_frame [OF st] by (auto simp: closer_frame_def)
    with st show ?thesis by (meson converse_rtranclp_into_rtranclp)
  qed blast
qed

text \<open>
  C18. A shutdown that was triggered cannot get stuck: from any reachable state of a
  running session whose trigger was closed or whose context ended, the steps of the
  closer's goroutine and no others finalise the session, wherever \<open>OnBegin\<close>, the reader
  and the callers of \<open>Close\<close> are and stay; a caller waiting in \<open>Close\<close> can then return
  nil at once. Close handlers are taken to return.
\<close>

theorem triggered_shutdown_completes:
  assumes "life_reach h0 ht l" and "l_run l = RunStarted" and "l_trigger l \<or> l_ctx l"
    and "l_pc l (Caller n) = Waiting"
  shows "\<exists>l'. closer_step\<^sup>*\<^sup>* l l' \<and> l_final l' \<and> l_begin l' = l_begin l \<and> l_reader l' = l_reader l
    \<and> l_pc l' = l_pc l \<and> life_step ht l' (set_pc (Caller n) ClosedOk l')"
proof -
  have "closer_inv l" using life_reach_inv [OF assms(1)] by (simp add: life_inv_def)
  from closer_finishes [OF this assms(2,3)] obtain l' where l': "closer_step\<^sup>*\<^sup>* l l'" "l_final l'" by blast
  have frame: "l_pc l' = l_pc l" "l_begin l' = l_begin l" "l_reader l' = l_reader l"
    using closer_run_frame [OF l'(1)] by (simp_all add: closer_frame_def)
  then have "life_step ht l' (set_pc (Caller n) ClosedOk l')"
    using assms(4) l'(2) by (intro ls_return_ok) simp_all
  with l' frame show ?thesis by blast
qed

subsection \<open>A late OnBegin\<close>

lemma late_begin:
  assumes "closer_inv l" and "l_run l = RunStarted" and "l_trigger l \<or> l_ctx l" and "l_begin l = BRunning"
  shows "\<exists>l'. (life_step ht)\<^sup>*\<^sup>* l l' \<and> l_final l' \<and> l_state l' = SessionStateActive"
proof -
  from closer_finishes [OF assms(1-3)] obtain l1 where run: "closer_step\<^sup>*\<^sup>* l l1" "l_final l1" by blast
  then have l1: "(life_step ht)\<^sup>*\<^sup>* l l1" "l_final l1" "l_begin l1 = BRunning"
    using closer_run_life [OF run(1)] closer_run_frame [OF run(1)] assms(4) by (simp_all add: closer_frame_def)
  have "life_step ht l1 (l1\<lparr>l_state := SessionStateActive, l_begin := BExit\<rparr>)"
    by (rule ls_begin_ok [OF l1(3)])
  with l1 show ?thesis by (intro exI [of _ "l1\<lparr>l_state := SessionStateActive, l_begin := BExit\<rparr>"]) auto
qed

text \<open>
  C38. A closed session may report that it is active: nothing orders the end of \<open>OnBegin\<close>
  before \<open>finalize\<close>, so from every state in which \<open>OnBegin\<close> still runs and shutdown was
  triggered the session can end finalised with the state \<open>active\<close>.
\<close>

theorem closed_session_reports_active:
  assumes "life_reach h0 ht l" and "l_run l = RunStarted" and "l_trigger l \<or> l_ctx l"
    and "l_begin l = BRunning"
  shows "\<exists>l'. (life_step ht)\<^sup>*\<^sup>* l l' \<and> life_reach h0 ht l' \<and> l_final l' \<and> l_state l' = SessionStateActive"
proof -
  have "closer_inv l" using life_reach_inv [OF assms(1)] by (simp add: life_inv_def)
  from late_begin [OF this assms(2-4), of ht] obtain l'
    where l': "(life_step ht)\<^sup>*\<^sup>* l l'" "l_final l'" "l_state l' = SessionStateActive" by blast
  then show ?thesis using reach_rtranclp [OF assms(1) l'(1)] by blast
qed

subsection \<open>A concrete run\<close>

text \<open>A session with two close handlers is run, and a caller closes it while \<open>OnBegin\<close> runs.\<close>

definition closing_run :: "nat life" where
  "closing_run = (life_new 0)\<lparr>l_run := RunStarted, l_handlers := [0, 1], l_closer := CSelect,
     l_reader := RSelect, l_begin := BRunning, l_pc := (\<lambda>_. NotCalled)(Caller 0 := Waiting),
     l_trigger := True, l_once := OnceDone\<rparr>"

lemma closing_run_reach: "life_reach 0 1 closing_run"
proof -
  let ?a = "(life_new (0 :: nat))\<lparr>l_run := RunStarted, l_handlers := l_handlers (life_new 0) @ [1],
     l_closer := CSelect, l_reader := RSelect, l_begin := BRunning\<rparr>"
  let ?b = "set_pc (Caller 0) Checking ?a"
  let ?c = "set_pc (Caller 0) AtOnce ?b"
  let ?d = "set_pc (Caller 0) InCallback ?c\<lparr>l_once := OnceRunning\<rparr>"
  let ?e = "set_pc (Caller 0) Waiting ?d\<lparr>l_trigger := True, l_once := OnceDone\<rparr>"
  have 0: "life_reach 0 1 (life_new (0 :: nat))" by (rule reach_init) simp
  have 1: "life_step 1 (life_new 0) ?a" by (rule ls_run) (simp add: life_new_def)
  have 2: "life_step 1 ?a ?b" by (rule ls_call) (simp add: life_new_def)
  have 3: "life_step 1 ?b ?c" by (rule ls_check_open) (simp_all add: life_new_def shut_def)
  have 4: "life_step 1 ?c ?d" by (rule ls_once_first) (simp_all add: life_new_def)
  have 5: "life_step 1 ?d ?e" by (rule ls_trigger) (simp_all add: life_new_def)
  have "life_reach 0 1 ?e"
    by (rule reach_step [OF reach_step [OF reach_step [OF reach_step [OF reach_step [OF 0 1] 2] 3] 4] 5])
  moreover have "?e = closing_run" by (simp add: closing_run_def life_new_def set_pc_def)
  ultimately show ?thesis by simp
qed

lemma closing_run_simps:
  "l_run closing_run = RunStarted" "l_trigger closing_run" "l_begin closing_run = BRunning"
  "l_pc closing_run (Caller 0) = Waiting"
  by (simp_all add: closing_run_def)

lemma closing_run_closed: "\<exists>l :: nat life. life_reach 0 1 l \<and> l_final l \<and> l_pc l (Caller 0) = ClosedOk"
proof -
  have "closer_inv closing_run" using life_reach_inv [OF closing_run_reach] by (simp add: life_inv_def)
  then obtain l1 where run: "closer_step\<^sup>*\<^sup>* closing_run l1" and fin: "l_final l1"
    using closer_finishes closing_run_simps by blast
  have l1: "(life_step 1)\<^sup>*\<^sup>* closing_run l1" "l_final l1" "l_pc l1 = l_pc closing_run"
    using closer_run_life [OF run] closer_run_frame [OF run] fin by (simp_all add: closer_frame_def)
  then have "life_step 1 l1 (set_pc (Caller 0) ClosedOk l1)"
    by (intro ls_return_ok) (simp_all add: closing_run_simps)
  then show ?thesis
    using reach_rtranclp [OF closing_run_reach l1(1)] l1(2)
    by (intro exI [of _ "set_pc (Caller 0) ClosedOk l1"]) (auto intro: reach_step)
qed

theorem finalized_ran_all_handlers_witness:
  "\<exists>l :: nat life. l_final l \<and> l_ran l = l_snapshot l \<and> hd (l_ran l) = 0 \<and> 1 \<in> set (tl (l_ran l))"
proof -
  obtain l :: "nat life" where l: "life_reach 0 1 l" "l_final l" using closing_run_closed by blast
  from finalized_ran_all_handlers [OF l] l(2) show ?thesis by blast
qed

theorem close_returns_nil_only_when_finalized_witness:
  "\<exists>l :: nat life. l_pc l (Caller 0) = ClosedOk \<and> l_run l = RunStarted \<and> l_final l \<and> 1 \<in> set (l_ran l)"
proof -
  obtain l :: "nat life" where l: "life_reach 0 1 l" "l_pc l (Caller 0) = ClosedOk"
    using closing_run_closed by blast
  from close_returns_nil_only_when_finalized [OF l] l(2) show ?thesis by blast
qed

theorem triggered_shutdown_completes_witness:
  "\<exists>l. closer_step\<^sup>*\<^sup>* closing_run l \<and> l_final l \<and> l_begin l = l_begin closing_run
     \<and> l_reader l = l_reader closing_run \<and> l_pc l = l_pc closing_run
     \<and> life_step 1 l (set_pc (Caller 0) ClosedOk l)"
  by (rule triggered_shutdown_completes [OF closing_run_reach]) (simp_all add: closing_run_simps)

theorem closed_session_reports_active_witness:
  "\<exists>l. (life_step 1)\<^sup>*\<^sup>* closing_run l \<and> life_reach 0 1 l \<and> l_final l \<and> l_state l = SessionStateActive"
  by (rule closed_session_reports_active [OF closing_run_reach]) (simp_all add: closing_run_simps)

end
