(* ===== verification/WsServer.thy ===== *)
theory WsServer
  imports WsTransport Lifecycle
begin

section \<open>Websocket client and server (transport/ws/client.go, server.go)\<close>

text \<open>
  Client configuration and the headers of the upgrade request, server configuration, the
  table of sessions and its shutdown, and what the upgrade handler does with a request.
  Dialling, listening and HTTP are the standard library's and gorilla's; their results
  are arguments. Durations are in nanoseconds.
\<close>

subsection \<open>Client configuration\<close>

record DialConfig =
  dc_URL :: string
  dc_AuthorizationHeaderFunc :: "(goerr + string) option"
  dc_ConnectTimeout :: i64
  dc_Headers :: "(string \<times> string list) list"

record ClientConfig =
  cc_Dial :: DialConfig
  cc_PingInterval :: i64
  cc_SampleRate :: int

definition DialConfig_Defaults :: "DialConfig \<Rightarrow> DialConfig" where
  "DialConfig_Defaults d =
     (if dc_ConnectTimeout d = 0 then d\<lparr>dc_ConnectTimeout := 10 * 1000000000\<rparr> else d)"

definition ClientConfig_Defaults :: "ClientConfig \<Rightarrow> ClientConfig" where
  "ClientConfig_Defaults c =
     (let c' = (if cc_PingInterval c = 0 then c\<lparr>cc_PingInterval := 10 * 1000000000\<rparr> else c)
      in c'\<lparr>cc_Dial := DialConfig_Defaults (cc_Dial c')\<rparr>)"

definition ClientConfig_Validate :: "ClientConfig \<Rightarrow> goerr option" where
  "ClientConfig_Validate c =
     (if cc_SampleRate c \<le> 0
      then Some (Errorf (''invalid sample rate: '' @ show_int (cc_SampleRate c))) else None)"

text \<open>
  \<open>http.Header.Add\<close> appends under the canonical form of the key: the first letter and each
  letter after a hyphen in upper case, the rest in lower case; a key with a byte that is not
  allowed in a header name stays as it is.
\<close>

definition is_lower :: "char \<Rightarrow> bool" where
  "is_lower c \<longleftrightarrow> 97 \<le> (of_char c :: nat) \<and> (of_char c :: nat) \<le> 122"

definition is_upper :: "char \<Rightarrow> bool" where
  "is_upper c \<longleftrightarrow> 65 \<le> (of_char c :: nat) \<and> (of_char c :: nat) \<le> 90"

definition is_token :: "char \<Rightarrow> bool" where
  "is_token c \<longleftrightarrow> is_lower c \<or> is_upper c \<or> (48 \<le> (of_char c :: nat) \<and> (of_char c :: nat) \<le> 57)
     \<or> c \<in> set ''!#$%&*+-.^_|~`'' \<or> (of_char c :: nat) = 39"

fun canonical_from :: "bool \<Rightarrow> string \<Rightarrow> string" where
  "canonical_from up [] = []"
| "canonical_from up (c # cs) =
     (let c' = (if up \<and> is_lower c then char_of ((of_char c :: nat) - 32)
                else if \<not> up \<and> is_upper c then char_of ((of_char c :: nat) + 32) else c)
      in c' # canonical_from (c' = CHR ''-'') cs)"

definition canonical_key :: "string \<Rightarrow> string" where
  "canonical_key k = (if list_all is_token k then canonical_from True k else k)"

text \<open>
  A header as the entries in the order of the calls of \<open>Add\<close>. It is a map in Go, and so are
  \<open>Headers\<close>, whose keys are visited in any order: only the order of one key's values counts.
\<close>

type_synonym header = "(string \<times> string) list"

definition header_Add :: "string \<Rightarrow> string \<Rightarrow> header \<Rightarrow> header" where
  "header_Add k v h = h @ [(canonical_key k, v)]"

fun add_headers :: "(string \<times> string list) list \<Rightarrow> header \<Rightarrow> header" where
  "add_headers [] h = h"
| "add_headers ((k, vs) # kvs) h = add_headers kvs (fold (header_Add k) vs h)"

text \<open>\<open>doDial\<close> up to the call of the dialer: the header and the timeout it is given.\<close>

definition doDial_request :: "DialConfig \<Rightarrow> goerr + header \<times> i64" where
  "doDial_request d0 =
     (let d = DialConfig_Defaults d0; h0 = header_Add ''User-Agent'' ''babelforce/rtvbp-go'' [] in
      case dc_AuthorizationHeaderFunc d of
        None \<Rightarrow> Inr (add_headers (dc_Headers d) h0, dc_ConnectTimeout d)
      | Some (Inl err) \<Rightarrow> Inl err
      | Some (Inr v) \<Rightarrow> Inr (add_headers (dc_Headers d)
          (if v \<noteq> [] then header_Add ''Authorization'' v h0 else h0), dc_ConnectTimeout d))"

text \<open>
  \<open>Connect\<close>: what parsing the URL and writing it out again gives (\<open>u.String()\<close>) and the dialer's
  answer (an error or a status) are arguments.
\<close>

definition Connect ::
    "(string \<Rightarrow> goerr + string) \<Rightarrow> (string \<Rightarrow> header \<Rightarrow> i64 \<Rightarrow> goerr + int) \<Rightarrow> ClientConfig \<Rightarrow> goerr + ws" where
  "Connect parse_url dial c0 =
     (let c = ClientConfig_Defaults c0 in
      case ClientConfig_Validate c of
        Some err \<Rightarrow> Inl err
      | None \<Rightarrow>
     bind_res (parse_url (dc_URL (cc_Dial c))) (\<lambda>u.
     bind_res (doDial_request (cc_Dial c)) (\<lambda>(h, t).
     bind_res (dial u h t) (\<lambda>status.
       if status \<noteq> 101 then Inl (Errorf (''unexpected status code: '' @ show_int status))
       else Inr (ws_new True)))))"

subsection \<open>Server\<close>

record ServerConfig =
  sc_Addr :: string
  sc_Path :: string
  sc_ChunkSize :: int
  sc_Debug :: bool

definition ServerConfig_Defaults :: "ServerConfig \<Rightarrow> ServerConfig" where
  "ServerConfig_Defaults c =
     (let c1 = (if sc_Addr c = [] then c\<lparr>sc_Addr := ''127.0.0.1:8080''\<rparr> else c);
          c2 = (if sc_Path c1 = [] then c1\<lparr>sc_Path := ''/''\<rparr> else c1)
      in (if sc_ChunkSize c2 = 0 then c2\<lparr>sc_ChunkSize := 160\<rparr> else c2))"

record server =
  sv_config :: ServerConfig
  sv_ip :: string
  sv_port :: int
  sv_sessions :: "string \<rightharpoonup> nat"

text \<open>A session is a number here; \<open>ids\<close> gives the ID of each.\<close>

definition addSession :: "(nat \<Rightarrow> string) \<Rightarrow> nat \<Rightarrow> server \<Rightarrow> server" where
  "addSession ids n s = s\<lparr>sv_sessions := (sv_sessions s)(ids n \<mapsto> n)\<rparr>"

definition removeSession :: "(nat \<Rightarrow> string) \<Rightarrow> nat \<Rightarrow> server \<Rightarrow> server" where
  "removeSession ids n s = s\<lparr>sv_sessions := (sv_sessions s)(ids n := None)\<rparr>"

definition NewServer :: "ServerConfig \<Rightarrow> server" where
  "NewServer c = \<lparr>sv_config = ServerConfig_Defaults c, sv_ip = [], sv_port = 0, sv_sessions = Map.empty\<rparr>"

definition server_URL :: "server \<Rightarrow> string" where
  "server_URL s = ''ws://'' @ sv_ip s @ '':'' @ show_int (sv_port s) @ sc_Path (sv_config s)"

definition GetClientConfig :: "server \<Rightarrow> ClientConfig" where
  "GetClientConfig s =
     \<lparr>cc_Dial = \<lparr>dc_URL = server_URL s, dc_AuthorizationHeaderFunc = None, dc_ConnectTimeout = 0, dc_Headers = []\<rparr>,
      cc_PingInterval = 10 * 1000000000, cc_SampleRate = 8000\<rparr>"

text \<open>
  \<open>Listen\<close>: \<open>lis\<close> is what \<open>net.Listen\<close> returns, \<open>serve\<close> what the serving goroutine had put
  into its error channel by the time of the \<open>select\<close>. The goroutine closes \<open>ready\<close> before it
  serves, so that case is always enabled, and with both ready the choice is Go's.
\<close>

definition Listen_outcomes ::
    "goerr + string \<times> int \<Rightarrow> goerr option \<Rightarrow> server \<Rightarrow> (goerr option \<times> server) list" where
  "Listen_outcomes lis serve s = (case lis of
      Inl err \<Rightarrow> [(Some err, s)]
    | Inr (ip, port) \<Rightarrow>
        (let s' = s\<lparr>sv_ip := ip, sv_port := port\<rparr>
         in (None, s') # (case serve of Some err \<Rightarrow> [(Some err, s')] | None \<Rightarrow> [])))"

text \<open>
  \<open>Shutdown\<close> holds the table's mutex, closes every session in it, in the order of the map's
  iteration, and then shuts the HTTP server down, whose error it returns.
\<close>

definition Shutdown :: "string list \<Rightarrow> goerr option \<Rightarrow> server \<Rightarrow> goerr option \<times> nat list" where
  "Shutdown order http_err s = (http_err, List.map_filter (sv_sessions s) order)"

subsection \<open>The upgrade handler\<close>

text \<open>
  One request to the upgrade handler, up to its end: a session is made only after the
  authorisation function, if there is one, accepted the request and the upgrade
  succeeded; it is in the table while the handler waits, and when the request's context
  ends first the handler closes it. The list records what the handler does.
\<close>

datatype upgrade_event =
    Replied401
  | UpgradeFailed goerr
  | SessionRun nat
  | SessionAdded nat
  | SessionClosed nat
  | SessionRemoved nat

definition serve_upgrade ::
    "(nat \<Rightarrow> string) \<Rightarrow> goerr option option \<Rightarrow> goerr option \<Rightarrow> bool \<Rightarrow> nat \<Rightarrow> server
       \<Rightarrow> upgrade_event list \<times> server" where
  "serve_upgrade ids auth upgrade ctx_first n s =
     (case auth of
        Some (Some err) \<Rightarrow> ([Replied401], s)
      | _ \<Rightarrow>
     (case upgrade of
        Some err \<Rightarrow> ([UpgradeFailed err], s)
      | None \<Rightarrow>
          (let s1 = addSession ids n s
           in (SessionRun n # SessionAdded n # (if ctx_first then [SessionClosed n] else []) @ [SessionRemoved n],
               removeSession ids n s1))))"

subsection \<open>Facts\<close>

lemma DialConfig_Defaults_idem: "DialConfig_Defaults (DialConfig_Defaults d) = DialConfig_Defaults d"
  by (simp add: DialConfig_Defaults_def)

lemma canonical_User_Agent [simp]: "canonical_key ''User-Agent'' = ''User-Agent''"
  by code_simp

lemma canonical_Authorization [simp]: "canonical_key ''Authorization'' = ''Authorization''"
  by code_simp

lemma fold_header_Add: "fold (header_Add k) vs h = h @ map (\<lambda>v. (canonical_key k, v)) vs"
  by (induction vs arbitrary: h) (simp_all add: header_Add_def)

lemma add_headers_append:
  "add_headers kvs h = h @ concat (map (\<lambda>(k, vs). map (\<lambda>v. (canonical_key k, v)) vs) kvs)"
  by (induction kvs h rule: add_headers.induct) (simp_all add: fold_header_Add)

text \<open>
  The upgrade request: it always carries the client's \<open>User-Agent\<close> first, then the
  non-empty authorisation value, if the configured function returned one, then the
  configured headers under their canonical names, which can add to these but not
  precede them; when the function fails nothing is dialled. The timeout is never zero.
\<close>

theorem upgrade_request_headers:
  "doDial_request d = (case dc_AuthorizationHeaderFunc d of
      Some (Inl err) \<Rightarrow> Inl err
    | auth \<Rightarrow> Inr ([(''User-Agent'', ''babelforce/rtvbp-go'')]
        @ (case auth of Some (Inr v) \<Rightarrow> if v \<noteq> [] then [(''Authorization'', v)] else [] | _ \<Rightarrow> [])
        @ concat (map (\<lambda>(k, vs). map (\<lambda>v. (canonical_key k, v)) vs) (dc_Headers d)),
        if dc_ConnectTimeout d = 0 then 10000000000 else dc_ConnectTimeout d))"
proof -
  have d: "dc_AuthorizationHeaderFunc (DialConfig_Defaults d) = dc_AuthorizationHeaderFunc d"
    "dc_Headers (DialConfig_Defaults d) = dc_Headers d"
    "dc_ConnectTimeout (DialConfig_Defaults d)
      = (if dc_ConnectTimeout d = 0 then 10000000000 else dc_ConnectTimeout d)"
    by (simp_all add: DialConfig_Defaults_def)
  have h0: "header_Add ''User-Agent'' ''babelforce/rtvbp-go'' [] = [(''User-Agent'', ''babelforce/rtvbp-go'')]"
    by (simp add: header_Add_def)
  have h1: "header_Add ''Authorization'' v h = h @ [(''Authorization'', v)]" for v h
    by (simp add: header_Add_def)
  show ?thesis
    unfolding doDial_request_def Let_def d h0 h1 add_headers_append
    by (simp split: option.split sum.split)
qed

text \<open>A server that listens hands out a client configuration for its address and path.\<close>

lemma listening_client_URL:
  assumes "(None, s') \<in> set (Listen_outcomes (Inr (ip, port)) serve (NewServer c))"
  shows "dc_URL (cc_Dial (GetClientConfig s'))
    = ''ws://'' @ ip @ '':'' @ show_int port @ (if sc_Path c = [] then ''/'' else sc_Path c)"
  using assms
  by (auto simp: Listen_outcomes_def GetClientConfig_def server_URL_def NewServer_def ServerConfig_Defaults_def
      Let_def split: option.splits if_splits)

text \<open>
  Sessions served by the upgrade handler: a request that is refused or whose upgrade
  fails makes no session and leaves the table alone; a served one is entered after its
  session runs and is gone from the table when the handler returns, the other sessions
  staying as they were.
\<close>

theorem serve_upgrade_table:
  "sv_sessions (snd (serve_upgrade ids auth upgrade ctx_first n s)) =
     (if (\<exists>err. auth = Some (Some err)) \<or> upgrade \<noteq> None then sv_sessions s
      else (sv_sessions s)(ids n := None))
   \<and> (SessionRun n \<in> set (fst (serve_upgrade ids auth upgrade ctx_first n s))
        \<longleftrightarrow> (\<nexists>err. auth = Some (Some err)) \<and> upgrade = None)"
  by (auto simp: serve_upgrade_def addSession_def removeSession_def Let_def split: option.split)

end
