(* ===== verification/DemoServer.thy ===== *)
theory DemoServer
  imports Hops Duplex WsServer
begin

section \<open>The demo server (examples/rtvbp-demo-server/main.go)\<close>

text \<open>
  The server's configuration and the session handler it installs. What the handler
  starts besides answering rides on the session's record: goroutines that wait before
  they send a request, the echoes it has started between a loopback and the session's
  audio, and the lines printed. The flags and \<open>main\<close> are in theory \<open>Programs\<close>.
\<close>

record serverCLI =
  sv_move :: int
  sv_hangup :: int
  sv_terminate :: int
  sv_debug :: bool
  sv_logLevel :: string

text \<open>The levels of package slog.\<close>

definition server_level :: "serverCLI \<Rightarrow> int" where
  "server_level a =
     (if sv_logLevel a = ''debug'' then -4
      else if sv_logLevel a = ''error'' then 8
      else if sv_logLevel a = ''warn'' then 4
      else if sv_logLevel a = ''info'' then 0
      else 0)"

definition demo_ServerConfig :: "serverCLI \<Rightarrow> ServerConfig" where
  "demo_ServerConfig a =
     \<lparr>sc_Addr = ''0.0.0.0:8080'', sc_Path = [], sc_ChunkSize = 160, sc_Debug = sv_debug a\<rparr>"

subsection \<open>The handler's state and what it starts\<close>

record 'tr demo = "'tr session" +
  dm_timers :: "(i64 \<times> string \<times> any) list"
  dm_echoes :: nat
  dm_printed :: "string list"

text \<open>\<open>time.Duration(n) * time.Second\<close> wraps around.\<close>

definition seconds :: "int \<Rightarrow> i64" where
  "seconds n = word_of_int n * 1000000000"

definition demo_OnBegin :: "serverCLI \<Rightarrow> ('tr, 'z) demo_scheme SHC \<Rightarrow> (goerr option, ('tr, 'z) demo_scheme) io" where
  "demo_OnBegin a h = (\<lambda>w. (Ret None, w\<lparr>dm_timers := dm_timers w
     @ (if sv_move a \<noteq> 0 then [(seconds (sv_move a), ApplicationMoveRequest_MethodName,
          any_ApplicationMoveRequest \<lparr>am_Reason = ''auto move'', am_ApplicationID = ''1234''\<rparr>)] else [])
     @ (if sv_terminate a \<noteq> 0 then [(seconds (sv_terminate a), SessionTerminateRequest_MethodName,
          any_SessionTerminateRequest \<lparr>st_Reason = ''auto terminate''\<rparr>)] else [])
     @ (if sv_hangup a \<noteq> 0 then [(seconds (sv_hangup a), CallHangupRequest_MethodName,
          any_CallHangupRequest \<lparr>ch_Reason = ''auto hangup''\<rparr>)] else [])\<rparr>))"

text \<open>A goroutine of \<open>OnBegin\<close> when its time has come: the request's result is dropped.\<close>

definition demo_timer :: "'w SHC \<Rightarrow> i64 \<times> string \<times> any \<Rightarrow> (unit, 'w) io" where
  "demo_timer h t = (case t of (d, n, x) \<Rightarrow> bind_io (shc_Request h n x) (\<lambda>_. return_io ()))"

subsection \<open>The handlers\<close>

definition any_SessionInitializeResponse :: "SessionInitializeResponse \<Rightarrow> any" where
  "any_SessionInitializeResponse r = any_struct (enc_SessionInitializeResponse r) NoValidate"

definition demo_initialize ::
    "(SessionInitializeRequest, SessionInitializeResponse, ('tr, 'z) demo_scheme) typedRequestHandler" where
  "demo_initialize =
     \<lparr>th_type = plain_type SessionInitializeRequest_MethodName (dec_struct set_SessionInitializeRequest)
        zero_SessionInitializeRequest,
      th_res = any_SessionInitializeResponse,
      th_h = (\<lambda>r hc req w. case req of
          None \<Rightarrow> (nil_deref, w)
        | Some q \<Rightarrow> (case go_entries (si_AudioCodecOfferings q) of
            [] \<Rightarrow> (Ret (Inl (Errorf ''no audio codec offerings'')), w)
          | c # cs \<Rightarrow> (Ret (Inr \<lparr>sr_AudioCodec = Some c\<rparr>), w\<lparr>dm_echoes := dm_echoes w + 1\<rparr>)))\<rparr>"

definition demo_terminate :: "(SessionTerminateRequest, unit, 'w) typedRequestHandler" where
  "demo_terminate =
     \<lparr>th_type = SessionTerminateRequest_type, th_res = (\<lambda>_. any_EmptyResponse),
      th_h = (\<lambda>r hc req. return_io (Inr ()))\<rparr>"

definition demo_dtmf ::
    "('tr, 'z) demo_scheme SHC \<Rightarrow> DTMFEvent option \<Rightarrow> (goerr option, ('tr, 'z) demo_scheme) io" where
  "demo_dtmf h evt = (\<lambda>w. case evt of
      None \<Rightarrow> (nil_deref, w)
    | Some e \<Rightarrow> (Ret None, w\<lparr>dm_printed := dm_printed w
        @ [''DTMF>: '' @ dt_Digit e @ '' : '' @ DTMFEvent_String e]\<rparr>))"

definition demo_args :: "(('tr, 'z) demo_scheme \<Rightarrow> i64) \<Rightarrow> ('tr, 'z) demo_scheme handler_arg list" where
  "demo_args now =
     [ArgRequest (HandleRequest demo_initialize), ArgRequest (HandleRequest demo_terminate),
      ArgEvent (HandleEvent DTMFEvent_EventName (unmarshal_ptr (dec_struct set_DTMFEvent) zero_DTMFEvent) demo_dtmf),
      ArgRequest (NewPingHandler now)]"

definition demo_handler ::
    "serverCLI \<Rightarrow> (('tr, 'z) demo_scheme \<Rightarrow> i64) \<Rightarrow> ('tr, 'z) demo_scheme SessionHandler" where
  "demo_handler a now = NewHandler (Some (demo_OnBegin a)) (demo_args now)"

text \<open>
  The echo that \<open>session.initialize\<close> starts: \<open>DuplexCopy\<close> with buffers of 3200 bytes
  between a new loopback and the session's audio stream \<open>S\<close>.
\<close>

definition demo_echo_step ::
    "'v reader \<times> 'v writer \<Rightarrow> ('v \<Rightarrow> 'v \<Rightarrow> bool) \<Rightarrow> (loopback \<times> 'v) duplex \<Rightarrow> (loopback \<times> 'v) duplex \<Rightarrow> bool" where
  "demo_echo_step S env = duplex_step loopback_end 3200 (stream_end S) 3200 (env_snd env)"

subsection \<open>Dispatch\<close>

lemma demo_dispatch:
  "Method req = ''session.initialize'' \<Longrightarrow> OnRequest (demo_handler a now) h req = Handle demo_initialize h req"
  "Method req = ''session.terminate'' \<Longrightarrow> OnRequest (demo_handler a now) h req = Handle demo_terminate h req"
  "Method req = ''ping'' \<Longrightarrow> OnRequest (demo_handler a now) h req = Handle (ping_handler now) h req"
  "EventName evt = ''dtmf'' \<Longrightarrow> OnEvent (demo_handler a now) h evt =
     Handle_event (unmarshal_ptr (dec_struct set_DTMFEvent) zero_DTMFEvent) demo_dtmf h evt"
  by (simp_all add: demo_handler_def NewHandler_simps demo_args_def demo_initialize_def demo_terminate_def
      NewPingHandler_def ping_handler_def PingRequest_type_def plain_type_def SessionTerminateRequest_type_def
      HandleEvent_def client_names SessionInitializeRequest_MethodName_def DTMFEvent_EventName_def
      HandleRequest_def)

subsection \<open>Initialising a session\<close>

lemma any_SessionInitializeResponse_simps [simp]:
  "marshal_any (any_SessionInitializeResponse r) = Inr (enc_SessionInitializeResponse r)"
  "validate_any (any_SessionInitializeResponse r) = Ret None"
  by (simp_all add: any_SessionInitializeResponse_def)

lemma initialize_request_valid:
  "i \<noteq> [] \<Longrightarrow> Request_Validate (NewRequest i ''session.initialize'' (any_SessionInitializeRequest q)) = Ret None"
  by (simp add: constructor_defs Request_Validate_def validateBase_def Version_def wrap_verdict_def
      any_SessionInitializeRequest_def)

lemma demo_initialize_result:
  assumes "ok_SessionInitializeRequest q" and "si_AudioCodecOfferings q = Some (c # cs)"
  shows "handler_result demo_initialize h (arrived i n (any_SessionInitializeRequest q) t) w =
    (Ret (Inr (Some q, any_SessionInitializeResponse \<lparr>sr_AudioCodec = Some c\<rparr>)), w\<lparr>dm_echoes := dm_echoes w + 1\<rparr>)"
  using assms SessionInitializeRequest.received_payload [of q NoValidate]
  by (simp add: handler_result_def demo_initialize_def plain_type_def validate_params_def
      any_SessionInitializeRequest_def SessionInitializeRequest.unmarshal_sent go_entries_def bind_io_def)

lemma initialize_response_As:
  assumes "ok_SessionInitializeRequest q" and "si_AudioCodecOfferings q = Some (c # cs)"
  shows "As (dec_struct set_SessionInitializeResponse) zero_SessionInitializeResponse
    (received_any (any_SessionInitializeResponse \<lparr>sr_AudioCodec = Some c\<rparr>)) = Inr \<lparr>sr_AudioCodec = Some c\<rparr>"
  unfolding any_SessionInitializeResponse_def
  by (rule SessionInitializeResponse.As_received)
     (use assms in \<open>simp add: ok_SessionInitializeRequest_def\<close>)

text \<open>
  Initialising a session with the demo server: the client's \<open>session.initialize\<close> frame,
  with any offerings, makes the server start one echo and queue exactly one text frame,
  which parses as a valid response with the request's ID and decodes to the codec the
  client offered first.
\<close>

lemma demo_server_accepts:
  fixes s :: "(controlChannel, 'z) demo_scheme"
  assumes "ok_SessionInitializeRequest q" and "si_AudioCodecOfferings q = Some (c # cs)" and "i \<noteq> []" and "t \<noteq> 0"
    and "marshal_message (MRequest (NewRequest i ''session.initialize'' (any_SessionInitializeRequest q))) = Inr j"
    and "tr_Write env = writeOut" and "s_transport s = Some cc"
    and "\<not> cc_closed cc" and "has_room (cc_output cc)"
  shows "\<exists>req cc' frame resp.
      receive_package now1 \<lparr>dp_Data = wire_of_json j, dp_ReceivedAt = t\<rparr> = Ret (Some (MRequest req))
    \<and> handleRequest env (Some (demo_handler a now)) req s
        = (Ret (), s\<lparr>dm_echoes := dm_echoes s + 1, s_transport := Some cc'\<rparr>)
    \<and> writeOut frame cc = (Ret None, cc') \<and> cc_written cc' = cc_written cc @ [frame]
    \<and> ParseValidMessage frame = Ret (Inr (MResponse resp)) \<and> Response_ID resp = i \<and> Error resp = None
    \<and> As (dec_struct set_SessionInitializeResponse) zero_SessionInitializeResponse (Result resp)
        = Inr \<lparr>sr_AudioCodec = Some c\<rparr>"
proof -
  let ?req = "arrived i ''session.initialize'' (any_SessionInitializeRequest q) t"
  have disp: "OnRequest (demo_handler a now) (session_SHC env) ?req = Handle demo_initialize (session_SHC env) ?req"
    by (simp add: demo_dispatch)
  have hook: "rt_OnAfterReply (th_type demo_initialize) = None"
    by (simp add: demo_initialize_def plain_type_def)
  have "''session.initialize'' \<noteq> []" by simp
  moreover have "s_transport (s\<lparr>dm_echoes := dm_echoes s + 1\<rparr>) = Some cc" using assms(7) by simp
  ultimately obtain cc' frame resp where
      "handleRequest env (Some (demo_handler a now)) ?req s
        = (Ret (), s\<lparr>dm_echoes := dm_echoes s + 1, s_transport := Some cc'\<rparr>)"
      "writeOut frame cc = (Ret None, cc')" "cc_written cc' = cc_written cc @ [frame]"
      "ParseValidMessage frame = Ret (Inr (MResponse resp))" "Response_ID resp = i" "Error resp = None"
      "Result resp = received_any (any_SessionInitializeResponse \<lparr>sr_AudioCodec = Some c\<rparr>)"
    using answered_over_websocket [OF assms(3) _ disp hook demo_initialize_result [OF assms(1,2)]
      any_SessionInitializeResponse_simps assms(6) _ assms(8,9)] by blast
  then show ?thesis
    using request_arrives [OF initialize_request_valid [OF assms(3)] assms(4,5), of now1]
    by (intro exI [of _ ?req] exI [of _ cc'] exI [of _ frame] exI [of _ resp])
       (simp add: initialize_response_As [OF assms(1,2)])
qed

text \<open>A server session with an empty queue, for the witness.\<close>

definition demo_env :: "(controlChannel, controlChannel demo) env" where
  "demo_env = \<lparr>tr_Write = writeOut, fresh_ID = (\<lambda>_. ''b''), others = id, ctx_done = (\<lambda>_. None),
     audio_ClearReadBuffer = return_io (Inr 0)\<rparr>"

definition demo_session :: "controlChannel demo" where
  "demo_session = \<lparr>s_id = ''d1'', s_state = SessionStateActive,
     s_transport = Some (newControlChannel (make_chan 16)), s_pending = no_pendings, s_once = OnceNew,
     s_trigger = False, s_final = False, dm_timers = [], dm_echoes = 0, dm_printed = []\<rparr>"

definition no_flags :: serverCLI where
  "no_flags = \<lparr>sv_move = 0, sv_hangup = 0, sv_terminate = 0, sv_debug = False, sv_logLevel = []\<rparr>"

subsection \<open>Messages without a payload\<close>

definition bare_event :: "string \<Rightarrow> json" where
  "bare_event n = JObj [(''version'', JStr ''1''), (''id'', JStr ''x''), (''event'', JStr n)]"

lemma receive_bare_event:
  assumes "n \<noteq> []" and "t \<noteq> 0"
  shows "receive_package now1 \<lparr>dp_Data = JsonText (bare_event n), dp_ReceivedAt = t\<rparr>
    = Ret (Some (MEvent ((NewEvent ''x'' n ANil)\<lparr>receivedAt := t\<rparr>)))"
  using assms
  by (simp add: receive_package_def ParseValidMessage_def parseMessage_def bare_event_def set_rawMessage_def
      zero_rawMessage_def constructor_defs Event_Validate_def validateBase_def Version_def wrap_verdict_def
      codec_simps)

text \<open>
  A peer can crash the demo server with one valid message: a \<open>dtmf\<close> event without
  data, a \<open>session.initialize\<close>, \<open>session.terminate\<close> or \<open>ping\<close> request without params
  each parse and validate, and the handler reads through the nil pointer; the
  panic ends the process with all its sessions.
\<close>

theorem demo_server_crashes:
  assumes "m \<in> {''session.initialize'', ''session.terminate'', ''ping''}" and "t \<noteq> 0"
  shows "\<exists>req evt. receive_package now1 \<lparr>dp_Data = JsonText (bare_request m), dp_ReceivedAt = t\<rparr> = Ret (Some (MRequest req))
    \<and> handleIncomingMessage env (Some (demo_handler a now)) (MRequest req) s = (nil_deref, s)
    \<and> receive_package now1 \<lparr>dp_Data = JsonText (bare_event ''dtmf''), dp_ReceivedAt = t\<rparr> = Ret (Some (MEvent evt))
    \<and> handleIncomingMessage env (Some (demo_handler a now)) (MEvent evt) s = (nil_deref, s)"
proof -
  let ?req = "(NewRequest ''x'' m ANil)\<lparr>receivedAt := t\<rparr>" and ?evt = "(NewEvent ''x'' ''dtmf'' ANil)\<lparr>receivedAt := t\<rparr>"
  have par: "Params (NewRequest i n ANil) = ANil" and meth: "Method (NewRequest i n ANil) = n" for i n
    by (simp_all add: constructor_defs)
  note nil_defs = Handle_def demo_initialize_def demo_terminate_def ping_handler_def PingRequest_type_def
    plain_type_def SessionTerminateRequest_type_def validate_params_def validate_ptr_def bind_io_apply par
  have "OnRequest (demo_handler a now) (session_SHC env) ?req s = (nil_deref, s)"
    using assms(1) meth by (auto simp: demo_dispatch nil_defs)
  moreover have "OnEvent (demo_handler a now) (session_SHC env) ?evt s = (nil_deref, s)"
    by (simp add: demo_dispatch constructor_defs Handle_event_def demo_dtmf_def)
  ultimately show ?thesis
    using receive_bare_request [of m now1 t] receive_bare_event [of "''dtmf''" t now1] assms
    by (intro exI [of _ ?req] exI [of _ ?evt]) (auto simp: handleRequest_def handleEvent_def)
qed

theorem demo_server_crashes_witness:
  "\<exists>req. receive_package 0 \<lparr>dp_Data = JsonText (bare_request ''session.initialize''), dp_ReceivedAt = 7\<rparr> = Ret (Some (MRequest req))
    \<and> handleIncomingMessage demo_env (Some (demo_handler no_flags (\<lambda>w. 7))) (MRequest req) demo_session
      = (nil_deref, demo_session)"
  using demo_server_crashes [of "''session.initialize''" 7 0 demo_env no_flags "\<lambda>w. 7" demo_session] by auto

end
