(* ===== verification/DemoClient.thy ===== *)
theory DemoClient
  imports Hops Duplex WsServer
begin

section \<open>The demo client (examples/rtvbp-demo-client)\<close>

text \<open>
  cli.go, auth.go and main.go: what the command line arguments mean for the upgrade
  request and the session, the token it authenticates with, and the program's main
  loop. Key files, cryptography, the audio device and signals belong to the standard
  library and third-party packages; what they return are arguments. The flags are in
  theory \<open>Programs\<close>.
\<close>

subsection \<open>Arguments (cli.go)\<close>

record cliArgs =
  cli_url :: string
  cli_logLevel :: string
  cli_audio :: bool
  cli_proxyToken :: string
  cli_proxyURL :: string
  cli_authToken :: string
  cli_authJWT :: bool
  cli_sampleRate :: int
  cli_phone :: bool
  cli_hangupAfterSeconds :: int
  cli_debug :: bool
  cli_dtmf :: string
  cli_dtmfDelaySeconds :: int

text \<open>The arguments of a program started without flags.\<close>

definition initCLI :: cliArgs where
  "initCLI = \<lparr>cli_url = ''ws://localhost:8080/ws'', cli_logLevel = ''info'', cli_audio = True,
     cli_proxyToken = [], cli_proxyURL = [], cli_authToken = [], cli_authJWT = False,
     cli_sampleRate = 24000, cli_phone = False, cli_hangupAfterSeconds = 0, cli_debug = False,
     cli_dtmf = [], cli_dtmfDelaySeconds = 0\<rparr>"

definition connectURL :: "cliArgs \<Rightarrow> string" where
  "connectURL a = (if cli_proxyURL a \<noteq> [] then cli_proxyURL a else cli_url a)"

text \<open>\<open>http.Header.Set\<close> replaces the values under the canonical key.\<close>

type_synonym headers = "(string \<times> string list) list"

definition header_Set :: "string \<Rightarrow> string \<Rightarrow> headers \<Rightarrow> headers" where
  "header_Set k v h = filter (\<lambda>kv. fst kv \<noteq> canonical_key k) h @ [(canonical_key k, [v])]"

text \<open>\<open>jwt\<close> is what \<open>generateJWT\<close> returns when it is called.\<close>

definition httpHeader :: "goerr + string \<Rightarrow> cliArgs \<Rightarrow> headers go" where
  "httpHeader jwt a =
     bind_go
       (if cli_authJWT a
        then (case jwt of
            Inl err \<Rightarrow> Panic (''JWT generation failed: '' @ err_text err)
          | Inr tok \<Rightarrow> Ret (header_Set ''authorization'' (''Bearer '' @ tok) []))
        else Ret []) (\<lambda>h1.
     let h2 = (if cli_authToken a \<noteq> [] then header_Set ''authorization'' (''Bearer '' @ cli_authToken a) h1 else h1);
         h3 = (if cli_proxyURL a \<noteq> []
               then header_Set ''x-proxy-url'' (cli_url a)
                      (if cli_proxyToken a \<noteq> [] then header_Set ''x-proxy-token'' (cli_proxyToken a) h2 else h2)
               else h2)
     in Ret h3)"

definition cli_config :: "goerr + string \<Rightarrow> cliArgs \<Rightarrow> ClientConfig go" where
  "cli_config jwt a = bind_go (httpHeader jwt a) (\<lambda>h. Ret
     \<lparr>cc_Dial = \<lparr>dc_URL = connectURL a, dc_AuthorizationHeaderFunc = None,
        dc_ConnectTimeout = 5 * 1000000000, dc_Headers = h\<rparr>,
      cc_PingInterval = 0, cc_SampleRate = cli_sampleRate a\<rparr>)"

definition cli_LogLevel :: "(string \<Rightarrow> goerr + int) \<Rightarrow> cliArgs \<Rightarrow> int go" where
  "cli_LogLevel unmarshal a = (case unmarshal (cli_logLevel a) of
      Inl err \<Rightarrow> Panic (''invalid log level ['' @ cli_logLevel a @ '']: '' @ err_text err)
    | Inr lvl \<Rightarrow> Ret lvl)"

subsection \<open>The token (auth.go)\<close>

text \<open>
  The key file, PEM decoding and the two key formats are functions of the standard
  library: \<open>pkcs8\<close> returns a key of some kind and \<open>as_rsa\<close> is the type assertion.
\<close>

record ('blk, 'any, 'key) keylib =
  kl_ReadFile :: "string \<Rightarrow> goerr + string"
  kl_PemDecode :: "string \<Rightarrow> 'blk option"
  kl_PKCS1 :: "'blk \<Rightarrow> goerr + 'key"
  kl_PKCS8 :: "'blk \<Rightarrow> goerr + 'any"
  kl_as_rsa :: "'any \<Rightarrow> 'key option"

definition loadPrivateKey :: "('blk, 'any, 'key) keylib \<Rightarrow> string \<Rightarrow> goerr + 'key" where
  "loadPrivateKey kl filename =
     (case kl_ReadFile kl filename of
        Inl err \<Rightarrow> Inl (Wrapf ''failed to read key file'' err)
      | Inr keyData \<Rightarrow>
     (case kl_PemDecode kl keyData of
        None \<Rightarrow> Inl (Errorf ''failed to decode PEM block'')
      | Some block \<Rightarrow>
     (case kl_PKCS1 kl block of
        Inr privateKey \<Rightarrow> Inr privateKey
      | Inl err \<Rightarrow>
     (case kl_PKCS8 kl block of
        Inl err2 \<Rightarrow> Inl (Wrapf ''failed to parse private key (tried both PKCS1 and PKCS8)'' err)
      | Inr key \<Rightarrow>
     (case kl_as_rsa kl key of
        None \<Rightarrow> Inl (Errorf ''key is not RSA private key'')
      | Some rsaKey \<Rightarrow> Inr rsaKey)))))"

text \<open>Times of claims are in seconds; \<open>now\<close> is one reading of the clock.\<close>

datatype claim = ClaimTime i64 | ClaimText string

definition jwt_claims :: "i64 \<Rightarrow> string \<Rightarrow> (string \<times> claim) list" where
  "jwt_claims now tokenID =
     [(''exp'', ClaimTime (now + 3600)), (''iat'', ClaimTime now), (''iss'', ClaimText ''auth.babelforce.com''),
      (''aud'', ClaimText ''demo-account-123''), (''sub'', ClaimText ''com.babelforce.svc.telephony.realtime''),
      (''jti'', ClaimText tokenID)]"

text \<open>\<open>sign\<close> is the third-party package's signature over the key ID and the claims.\<close>

definition generateJWT ::
    "('blk, 'any, 'key) keylib \<Rightarrow> goerr + string \<Rightarrow> i64
       \<Rightarrow> (string \<Rightarrow> (string \<times> claim) list \<Rightarrow> 'key \<Rightarrow> goerr + string) \<Rightarrow> goerr + string" where
  "generateJWT kl nanoid now sign =
     (case loadPrivateKey kl ''keys/private_key.pem'' of
        Inl err \<Rightarrow> Inl (Wrapf ''failed to load private key'' err)
      | Inr privateKey \<Rightarrow>
     (case nanoid of
        Inl err \<Rightarrow> Inl (Wrapf ''failed to generate token ID'' err)
      | Inr tokenID \<Rightarrow>
     (case sign ''jwt-rsa-2048-v1'' (jwt_claims now tokenID) privateKey of
        Inl err \<Rightarrow> Inl (Wrapf ''failed to sign token'' err)
      | Inr tokenString \<Rightarrow> Inr tokenString)))"

subsection \<open>The program (main.go)\<close>

definition demo_sampleRate :: "cliArgs \<Rightarrow> int" where
  "demo_sampleRate a = (if cli_phone a then 8000 else cli_sampleRate a)"

definition demo_ClientHandlerConfig :: "cliArgs \<Rightarrow> string \<Rightarrow> string \<Rightarrow> ClientHandlerConfig" where
  "demo_ClientHandlerConfig a uuid1 uuid2 =
     \<lparr>cfg_Call = \<lparr>ci_ID = uuid1, ci_SessionID = uuid2, ci_From = ''+4910002000'', ci_To = ''+4910003000''\<rparr>,
      cfg_App = \<lparr>ai_ID = ''1234''\<rparr>, cfg_Metadata = Some [(''recording_consent'', JBool True)],
      cfg_PingInterval = 0, cfg_SampleRate = demo_sampleRate a\<rparr>"

text \<open>The audio device, when audio is enabled; otherwise the sink is the nil interface.\<close>

definition audioSink :: "cliArgs \<Rightarrow> 'w reader \<times> 'w writer \<Rightarrow> 'w reader \<times> 'w writer" where
  "audioSink a dev = (if cli_audio a then dev else nil_stream)"

text \<open>
  The audio handler starts \<open>DuplexCopy\<close> between the session's stream and the sink; the
  size of both buffers is a floating point computation from the sample rate, here \<open>sz\<close>.
\<close>

definition demo_audio_step ::
    "cliArgs \<Rightarrow> nat \<Rightarrow> 'w reader \<times> 'w writer \<Rightarrow> 'w reader \<times> 'w writer \<Rightarrow> ('w \<Rightarrow> 'w \<Rightarrow> bool)
       \<Rightarrow> 'w duplex \<Rightarrow> 'w duplex \<Rightarrow> bool" where
  "demo_audio_step a sz stream dev env = duplex_step stream sz (audioSink a dev) sz env"

text \<open>The options of the session; \<open>ob\<close> is the handler's observer.\<close>

definition demo_session_options :: "cliArgs \<Rightarrow> 'o \<Rightarrow> 'o session_option list" where
  "demo_session_options a ob =
     [WithTransport, WithHandler, WithRequestTimeout (2 * 1000000000), WithDebug (cli_debug a),
      WithStreamObserver ob]"

text \<open>The final loop: an interrupt hangs the phone up, the end of the session ends the program.\<close>

datatype main_event = Interrupted | SessionDone "goerr option"

fun main_loop :: "main_event list \<Rightarrow> ('d, 'h) PhoneSystem \<Rightarrow> goerr option option \<times> ('d, 'h) PhoneSystem" where
  "main_loop [] p = (None, p)"
| "main_loop (Interrupted # es) p = main_loop es (snd (EmulateHangup ''ctrl-c'' p))"
| "main_loop (SessionDone err # es) p = (Some err, p)"

text \<open>The goroutines started for \<open>-hangup\<close> and \<open>-dtmf\<close>: when they act, and on what.\<close>

datatype phone_timer = HangupAt i64 | DTMFAt i64 string

definition demo_timers :: "cliArgs \<Rightarrow> phone_timer list" where
  "demo_timers a =
     (if cli_hangupAfterSeconds a > 0
      then [HangupAt (word_of_int (cli_hangupAfterSeconds a) * 1000000000)] else [])
     @ (if cli_dtmf a \<noteq> []
        then [DTMFAt (if cli_dtmfDelaySeconds a > 0
                      then word_of_int (cli_dtmfDelaySeconds a) * 1000000000 else 0) (cli_dtmf a)] else [])"

subsection \<open>The upgrade request of the demo client\<close>

lemma canonical_keys [simp]:
  "canonical_key ''authorization'' = ''Authorization''" "canonical_key ''x-proxy-url'' = ''X-Proxy-Url''"
  "canonical_key ''x-proxy-token'' = ''X-Proxy-Token''" "canonical_key ''X-Proxy-Url'' = ''X-Proxy-Url''"
  "canonical_key ''X-Proxy-Token'' = ''X-Proxy-Token''"
  by code_simp+

definition bearer :: "goerr + string \<Rightarrow> cliArgs \<Rightarrow> header" where
  "bearer jwt a =
     (if cli_authToken a \<noteq> [] then [(''Authorization'', ''Bearer '' @ cli_authToken a)]
      else if cli_authJWT a then (case jwt of Inl err \<Rightarrow> [] | Inr tok \<Rightarrow> [(''Authorization'', ''Bearer '' @ tok)])
      else [])"

definition proxy_headers :: "cliArgs \<Rightarrow> header" where
  "proxy_headers a =
     (if cli_proxyURL a = [] then []
      else (if cli_proxyToken a \<noteq> [] then [(''X-Proxy-Token'', cli_proxyToken a)] else [])
        @ [(''X-Proxy-Url'', cli_url a)])"

lemma httpHeader_flat:
  assumes "httpHeader jwt a = Ret h"
  shows "concat (map (\<lambda>(k, vs). map (\<lambda>v. (canonical_key k, v)) vs) h) = bearer jwt a @ proxy_headers a"
  using assms
  by (auto simp: httpHeader_def header_Set_def bearer_def proxy_headers_def Let_def split: if_splits sum.splits)

text \<open>
  C29. What the demo client sends to authenticate: its upgrade request, if its JWT could
  be made, carries the user agent, then at most one \<open>Authorization\<close> header, with the
  token of \<open>-auth-token\<close> even when \<open>-auth-jwt\<close> is given too, and only behind a proxy the
  proxy's token and the real endpoint, in a request sent to the proxy.
\<close>

theorem demo_client_upgrade_request:
  assumes "cli_config jwt a = Ret cfg"
  shows "doDial_request (cc_Dial cfg) =
      Inr ([(''User-Agent'', ''babelforce/rtvbp-go'')] @ bearer jwt a @ proxy_headers a, 5000000000)
    \<and> dc_URL (cc_Dial cfg) = (if cli_proxyURL a = [] then cli_url a else cli_proxyURL a)"
proof -
  obtain h where h: "httpHeader jwt a = Ret h"
    and cfg: "cfg = \<lparr>cc_Dial = \<lparr>dc_URL = connectURL a, dc_AuthorizationHeaderFunc = None,
        dc_ConnectTimeout = 5 * 1000000000, dc_Headers = h\<rparr>,
      cc_PingInterval = 0, cc_SampleRate = cli_sampleRate a\<rparr>"
    using assms by (auto simp: cli_config_def bind_go_eq_Ret)
  show ?thesis
    by (simp add: cfg upgrade_request_headers httpHeader_flat [OF h] connectURL_def)
qed

definition proxied :: cliArgs where
  "proxied = initCLI\<lparr>cli_authToken := ''t'', cli_authJWT := True, cli_proxyURL := ''ws://p'', cli_proxyToken := ''s''\<rparr>"

theorem demo_client_upgrade_request_witness:
  "\<exists>cfg. cli_config (Inr ''j'') proxied = Ret cfg \<and> dc_URL (cc_Dial cfg) = ''ws://p''
    \<and> doDial_request (cc_Dial cfg) = Inr ([(''User-Agent'', ''babelforce/rtvbp-go''),
        (''Authorization'', ''Bearer t''), (''X-Proxy-Token'', ''s''), (''X-Proxy-Url'', ''ws://localhost:8080/ws'')],
        5000000000)"
proof -
  obtain cfg where cfg: "cli_config (Inr ''j'') proxied = Ret cfg"
    by (simp add: cli_config_def httpHeader_def proxied_def Let_def)
  have "bearer (Inr ''j'') proxied @ proxy_headers proxied = [(''Authorization'', ''Bearer t''),
      (''X-Proxy-Token'', ''s''), (''X-Proxy-Url'', ''ws://localhost:8080/ws'')]"
    "(if cli_proxyURL proxied = [] then cli_url proxied else cli_proxyURL proxied) = ''ws://p''"
    by (simp_all add: proxied_def initCLI_def bearer_def proxy_headers_def)
  with demo_client_upgrade_request [OF cfg] cfg show ?thesis by simp
qed

text \<open>
  The private key: PKCS1 wins, PKCS8 is tried only when PKCS1 fails, and a key comes
  back exactly if the file is readable, holds a PEM block, and one of the two parses it
  to an RSA key; the error of a failed parse is PKCS1's.
\<close>

theorem private_key_formats:
  "loadPrivateKey kl f = Inr key \<longleftrightarrow> (\<exists>d b. kl_ReadFile kl f = Inr d \<and> kl_PemDecode kl d = Some b
     \<and> (kl_PKCS1 kl b = Inr key
        \<or> (\<exists>e k. kl_PKCS1 kl b = Inl e \<and> kl_PKCS8 kl b = Inr k \<and> kl_as_rsa kl k = Some key)))"
  by (auto simp: loadPrivateKey_def split: sum.splits option.splits)

subsection \<open>Without audio\<close>

abbreviation demo_audio_reach where
  "demo_audio_reach a sz stream dev env w \<equiv> reach (\<lambda>d. d = DuplexCopy w) (demo_audio_step a sz stream dev env)"

lemma nil_reader_step:
  "copy_step (fst nil_stream) wr n (c, w) (c', w') \<Longrightarrow> cp_pc c \<in> {CpRead, CpPanicked} \<Longrightarrow> cp_pc c' = CpPanicked"
  by (auto simp: nil_stream_def elim!: copy_stepE)

lemma no_audio_inv:
  assumes "\<not> cli_audio a" and "demo_audio_reach a sz stream dev env w d"
  shows "cp_pc (dx_ba d) \<in> {CpRead, CpPanicked}"
  using assms(2)
proof (rule reach_invariant [where I = "\<lambda>d. cp_pc (dx_ba d) \<in> {CpRead, CpPanicked}"])
  fix s t assume "cp_pc (dx_ba s) \<in> {CpRead, CpPanicked}" and "demo_audio_step a sz stream dev env s t"
  then show "cp_pc (dx_ba t) \<in> {CpRead, CpPanicked}"
    using assms(1) by (auto simp: demo_audio_step_def audioSink_def elim!: duplex_step.cases dest!: nil_reader_step)
qed (simp add: DuplexCopy_def copier_new_def)

text \<open>
  C40. Without audio the demo client crashes: with \<open>-audio=false\<close> the sink is the nil
  interface, so from every state after the session began in which the program has not
  crashed yet, the next call of the goroutine that reads from the sink does crash it,
  and nothing is ever read there.
\<close>

theorem client_without_audio_crashes:
  assumes "\<not> cli_audio a" and "demo_audio_reach a sz stream dev env w d"
  shows "dx_crashed d \<or> (\<exists>d'. demo_audio_step a sz stream dev env d d' \<and> dx_crashed d')"
proof (cases "dx_crashed d")
  case False
  then have at: "cp_pc (dx_ba d) = CpRead"
    using no_audio_inv [OF assms] by (auto simp: dx_crashed_def)
  have "demo_audio_step a sz stream dev env = duplex_step stream sz nil_stream sz env"
    using assms(1) by (simp add: demo_audio_step_def audioSink_def fun_eq_iff)
  then show ?thesis using nil_stream_step [OF at False, of stream sz sz env] by simp
qed simp

theorem client_without_audio_crashes_witness:
  "\<exists>d'. demo_audio_step (initCLI\<lparr>cli_audio := False\<rparr>) 4 seven_stream seven_stream (\<lambda>v v'. False) (DuplexCopy ()) d'
     \<and> dx_crashed d'"
proof -
  have "demo_audio_reach (initCLI\<lparr>cli_audio := False\<rparr>) 4 seven_stream seven_stream (\<lambda>v v'. False) () (DuplexCopy ())"
    by (rule reach_init) simp
  from client_without_audio_crashes [OF _ this] show ?thesis
    by (simp add: dx_crashed_def DuplexCopy_def copier_new_def)
qed

subsection \<open>DTMF before the session began\<close>

lemma early_dtmf_panics: "ph_onDtmf p = None \<Longrightarrow> EmulateDTMF ((c, t1, t2) # cs) p = (nil_deref, p)"
  by (simp add: EmulateDTMF_digit_def)

end
