(* ===== verification/DemoSystem.thy ===== *)
theory DemoSystem
  imports DemoServer DemoClient
begin

section \<open>The demo client and the demo server, connected\<close>

text \<open>
  Both programs in one world: the client's session with its handler state, and the
  server's session as its peer. While the client waits for a response, the frames it
  queued reach the server's session, which handles them, and the frames the server
  queued reach the client. Every part runs its own model: handlers, sessions, control
  channels, marshalling and parsing.
\<close>

record 'tel linked = "(controlChannel, 'tel) client" +
  lk_peer :: "controlChannel demo"

lemma lk_peer_update [simp]:
  fixes w :: "('tel, 'z) linked_scheme"
  shows "s_transport (w\<lparr>lk_peer := p\<rparr>) = s_transport w" "s_pending (w\<lparr>lk_peer := p\<rparr>) = s_pending w"
    "lk_peer (w\<lparr>s_pending := q\<rparr>) = lk_peer w" "lk_peer (w\<lparr>s_transport := t\<rparr>) = lk_peer w"
    "w\<lparr>lk_peer := p, s_pending := q\<rparr> = w\<lparr>s_pending := q, lk_peer := p\<rparr>"
    "w\<lparr>lk_peer := p, s_transport := t\<rparr> = w\<lparr>s_transport := t, lk_peer := p\<rparr>"
  by (cases w; simp)+

definition outgoing :: "(controlChannel, 'u) session_scheme \<Rightarrow> wire list" where
  "outgoing s = (case s_transport s of None \<Rightarrow> [] | Some cc \<Rightarrow> cc_written cc)"

definition emptied :: "controlChannel \<Rightarrow> controlChannel" where
  "emptied cc = cc\<lparr>cc_output := (cc_output cc)\<lparr>ch_buf := []\<rparr>\<rparr>"

definition flush :: "(controlChannel, 'u) session_scheme \<Rightarrow> (controlChannel, 'u) session_scheme" where
  "flush s = s\<lparr>s_transport := map_option emptied (s_transport s)\<rparr>"

definition server_takes :: "serverCLI \<Rightarrow> i64 \<Rightarrow> wire \<Rightarrow> controlChannel demo \<Rightarrow> controlChannel demo" where
  "server_takes a now f p = (case receive_package now \<lparr>dp_Data = f, dp_ReceivedAt = now\<rparr> of
      Ret (Some m) \<Rightarrow> snd (handleIncomingMessage demo_env (Some (demo_handler a (\<lambda>_. now))) m p)
    | _ \<Rightarrow> p)"

definition client_takes :: "i64 \<Rightarrow> wire \<Rightarrow> 'tel linked \<Rightarrow> 'tel linked" where
  "client_takes now f w = (case receive_package now \<lparr>dp_Data = f, dp_ReceivedAt = now\<rparr> of
      Ret (Some (MResponse r)) \<Rightarrow> snd (resolvePending r w)
    | _ \<Rightarrow> w)"

definition exchange :: "serverCLI \<Rightarrow> i64 \<Rightarrow> 'tel linked \<Rightarrow> 'tel linked" where
  "exchange a now w =
     (let p = fold (server_takes a now) (outgoing w) (lk_peer w)
      in fold (client_takes now) (outgoing p) ((flush w)\<lparr>lk_peer := flush p\<rparr>))"

definition link_env :: "serverCLI \<Rightarrow> i64 \<Rightarrow> ('tel linked \<Rightarrow> string) \<Rightarrow> (controlChannel, 'tel linked) env" where
  "link_env a now gen = \<lparr>tr_Write = writeOut, fresh_ID = gen, others = exchange a now, ctx_done = (\<lambda>_. None),
     audio_ClearReadBuffer = return_io (Inr 0)\<rparr>"

lemma link_env_simps [simp]:
  "fresh_ID (link_env a now gen) = gen" "others (link_env a now gen) = exchange a now"
  "ctx_done (link_env a now gen) = (\<lambda>_. None)" "tr_Write (link_env a now gen) = writeOut"
  by (simp_all add: link_env_def)

text \<open>An open control channel with nothing queued.\<close>

definition ready :: "controlChannel \<Rightarrow> bool" where
  "ready cc \<longleftrightarrow> \<not> cc_closed cc \<and> ch_buf (cc_output cc) = [] \<and> \<not> ch_closed (cc_output cc) \<and> 0 < ch_cap (cc_output cc)"

lemma ready_simps:
  assumes "ready cc"
  shows "\<not> cc_closed cc" "has_room (cc_output cc)" "cc_written cc = []"
  using assms by (simp_all add: ready_def has_room_def cc_written_def)

lemma ready_write:
  "ready cc \<Longrightarrow> \<exists>cc'. writeOut f cc = (Ret None, cc') \<and> cc_written cc' = [f] \<and> emptied cc' = emptied cc"
  by (auto simp: ready_def writeOut_def send_chan_def cc_written_def text_message_def emptied_def)

lemma ready_emptied [simp]: "ready cc \<Longrightarrow> emptied cc = cc"
  by (simp add: ready_def emptied_def)

subsection \<open>One exchange\<close>

lemma server_takes_initialize:
  assumes "ok_SessionInitializeRequest q" and "si_AudioCodecOfferings q = Some (c # cs)" and "i \<noteq> []" and "now \<noteq> 0"
    and "marshal_message (MRequest (NewRequest i ''session.initialize'' (any_SessionInitializeRequest q))) = Inr j"
    and "s_transport p = Some cc" and "ready cc"
  shows "\<exists>cc' frame resp. server_takes a now (wire_of_json j) p
        = p\<lparr>dm_echoes := dm_echoes p + 1, s_transport := Some cc'\<rparr>
    \<and> cc_written cc' = [frame] \<and> emptied cc' = cc \<and> ParseValidMessage frame = Ret (Inr (MResponse resp))
    \<and> Response_ID resp = i \<and> Error resp = None
    \<and> As (dec_struct set_SessionInitializeResponse) zero_SessionInitializeResponse (Result resp)
        = Inr \<lparr>sr_AudioCodec = Some c\<rparr>"
proof -
  have env: "tr_Write demo_env = writeOut" by (simp add: demo_env_def)
  from demo_server_accepts [OF assms(1-5) env assms(6) ready_simps(1,2) [OF assms(7)], of now a "\<lambda>_. now"]
  obtain req cc' frame resp where r:
      "receive_package now \<lparr>dp_Data = wire_of_json j, dp_ReceivedAt = now\<rparr> = Ret (Some (MRequest req))"
      "handleRequest demo_env (Some (demo_handler a (\<lambda>_. now))) req p
        = (Ret (), p\<lparr>dm_echoes := dm_echoes p + 1, s_transport := Some cc'\<rparr>)"
      "writeOut frame cc = (Ret None, cc')" "cc_written cc' = cc_written cc @ [frame]"
      "ParseValidMessage frame = Ret (Inr (MResponse resp))" "Response_ID resp = i" "Error resp = None"
      "As (dec_struct set_SessionInitializeResponse) zero_SessionInitializeResponse (Result resp)
        = Inr \<lparr>sr_AudioCodec = Some c\<rparr>" by blast
  moreover have "emptied cc' = cc"
    using ready_write [OF assms(7), of frame] r(3) assms(7) by auto
  ultimately show ?thesis
    by (intro exI [of _ cc'] exI [of _ frame] exI [of _ resp])
       (simp add: server_takes_def ready_simps(3) [OF assms(7)])
qed

lemma client_takes_response:
  assumes "ParseValidMessage f = Ret (Inr (MResponse r))"
    and "pendingRequests (s_pending w) (Response_ID r) = Some pr" and "pr_chans (s_pending w) (pr_ch pr) = make_chan 1"
  shows "\<exists>r'. client_takes now f w = w\<lparr>s_pending := (s_pending w)
        \<lparr>pr_chans := (pr_chans (s_pending w))(pr_ch pr := (make_chan 1)\<lparr>ch_buf := [r']\<rparr>),
         pendingRequests := (pendingRequests (s_pending w))(Response_ID r := None)\<rparr>\<rparr>
    \<and> Error r' = Error r \<and> Result r' = Result r"
  using assms
  by (intro exI [of _ "r\<lparr>receivedAt := now\<rparr>"])
     (simp add: client_takes_def receive_package_def resolvePending_def resolvePendingRequest_def send_chan_def
        make_chan_def)

text \<open>
  A \<open>session.initialize\<close> request of the client over this link: the frame goes out, the
  server answers it, and the waiting caller takes the answer out of its own channel.
\<close>

lemma flush_ready: "s_transport s = Some cc \<Longrightarrow> ready cc' \<Longrightarrow> emptied cc = cc' \<Longrightarrow> s_transport (flush s) = Some cc'"
  by (simp add: flush_def)

lemma sent_frame:
  fixes w :: "'tel linked"
  assumes v: "Validate m = Ret None" "marshal_message m = Inr j" and tr: "s_transport w = Some cc" "ready cc"
  shows "\<exists>cc'. sendMessage (link_env a now gen) m w = (Ret None, w\<lparr>s_transport := Some cc'\<rparr>)
    \<and> cc_written cc' = [wire_of_json j] \<and> emptied cc' = cc"
proof -
  from ready_write [OF tr(2), of "wire_of_json j"] obtain cc' where
      "writeOut (wire_of_json j) cc = (Ret None, cc')" "cc_written cc' = [wire_of_json j]" "emptied cc' = cc"
    using tr(2) by auto
  then show ?thesis
    by (intro exI [of _ cc']) (simp add: sendMessage_valid [OF v] write_transport_def tr(1))
qed

lemma linked_request:
  fixes w :: "'tel linked"
  assumes q: "ok_SessionInitializeRequest q" "si_AudioCodecOfferings q = Some (c # cs)"
    and ids: "gen w \<noteq> []" "now \<noteq> 0"
    and tr: "s_transport w = Some cc" "ready cc" "s_transport (lk_peer w) = Some pc" "ready pc"
  shows "\<exists>r p peer. Session_Request (link_env a now gen) ''session.initialize'' (any_SessionInitializeRequest q) w
      = (Ret (Inr r), w\<lparr>s_pending := p, lk_peer := peer\<rparr>)
    \<and> As (dec_struct set_SessionInitializeResponse) zero_SessionInitializeResponse (Result r) = Inr \<lparr>sr_AudioCodec = Some c\<rparr>
    \<and> peer = (lk_peer w)\<lparr>dm_echoes := dm_echoes (lk_peer w) + 1\<rparr>
    \<and> pendingRequests p = (pendingRequests (s_pending w))(gen w := None)"
proof -
  let ?m = "MRequest (NewRequest (gen w) ''session.initialize'' (any_SessionInitializeRequest q))"
  let ?peer = "(lk_peer w)\<lparr>dm_echoes := dm_echoes (lk_peer w) + 1\<rparr>"
  obtain pr p1 where p1: "newPendingRequest (gen w) (s_pending w) = (pr, p1)" by fastforce
  then have pr: "pendingRequests p1 = (pendingRequests (s_pending w))(gen w \<mapsto> pr)"
      "pr_chans p1 (pr_ch pr) = make_chan 1"
    by (auto simp: newPendingRequest_def Let_def)
  obtain j where j: "marshal_message ?m = Inr j"
    by (simp add: any_SessionInitializeRequest_def constructor_defs marshal_Request_def any_field_def)
  have v: "Validate ?m = Ret None" using initialize_request_valid [OF ids(1)] by simp
  have tr1: "s_transport (w\<lparr>s_pending := p1\<rparr>) = Some cc" using tr(1) by simp
  from sent_frame [OF v j tr1 tr(2), of a now gen] obtain cc1 where
    sent: "sendMessage (link_env a now gen) ?m (w\<lparr>s_pending := p1\<rparr>) = (Ret None, w\<lparr>s_pending := p1, s_transport := Some cc1\<rparr>)"
      "cc_written cc1 = [wire_of_json j]" "emptied cc1 = cc" by auto
  from server_takes_initialize [OF q ids j tr(3,4), of a] obtain pc1 frame resp where
    server: "server_takes a now (wire_of_json j) (lk_peer w) = ?peer\<lparr>s_transport := Some pc1\<rparr>"
      "cc_written pc1 = [frame]" "ParseValidMessage frame = Ret (Inr (MResponse resp))"
      "Response_ID resp = gen w" "Error resp = None"
      "As (dec_struct set_SessionInitializeResponse) zero_SessionInitializeResponse (Result resp)
        = Inr \<lparr>sr_AudioCodec = Some c\<rparr>"
    and pc1: "emptied pc1 = pc" by blast
  define w1 where "w1 = w\<lparr>s_pending := p1, lk_peer := ?peer\<rparr>"
  have s1: "pendingRequests (s_pending w1) (Response_ID resp) = Some pr"
      "pr_chans (s_pending w1) (pr_ch pr) = make_chan 1" by (simp_all add: w1_def pr server(4))
  from client_takes_response [OF server(3) s1, of now] obtain r' where
    client: "client_takes now frame w1 = w1\<lparr>s_pending := (s_pending w1)
        \<lparr>pr_chans := (pr_chans (s_pending w1))(pr_ch pr := (make_chan 1)\<lparr>ch_buf := [r']\<rparr>),
         pendingRequests := (pendingRequests (s_pending w1))(Response_ID resp := None)\<rparr>\<rparr>"
      "Error r' = Error resp" "Result r' = Result resp" by blast
  have both: "(flush (w\<lparr>s_pending := p1, s_transport := Some cc1\<rparr>))\<lparr>lk_peer := flush (?peer\<lparr>s_transport := Some pc1\<rparr>)\<rparr> = w1"
    by (simp add: flush_def w1_def sent(3) pc1 tr(1) [symmetric] tr(3) [symmetric])
  have ex: "exchange a now (w\<lparr>s_pending := p1, s_transport := Some cc1\<rparr>) = client_takes now frame w1"
    using both by (simp add: exchange_def outgoing_def sent(2) server(1,2))
  have took: "recv_chan ((make_chan 1)\<lparr>ch_buf := [r']\<rparr>) = Ret (Some r', make_chan 1)"
    by (simp add: recv_chan_def make_chan_def)
  define p2 where "p2 = p1\<lparr>pr_chans := (pr_chans p1)(pr_ch pr := make_chan 1),
      pendingRequests := (pendingRequests p1)(gen w := None)\<rparr>"
  have wait: "await_response (link_env a now gen) req pr (w\<lparr>s_pending := p1, s_transport := Some cc1\<rparr>)
      = (Ret (Inr r'), w1\<lparr>s_pending := p2\<rparr>)" for req
  proof -
    have "others (link_env a now gen) (w\<lparr>s_pending := p1, s_transport := Some cc1\<rparr>) = client_takes now frame w1"
      "ctx_done (link_env a now gen) = (\<lambda>_. None)"
      using ex by simp_all
    moreover have pend: "s_pending w1 = p1" by (simp add: w1_def)
    moreover have "w1\<lparr>s_pending := p, s_pending := p'\<rparr> = w1\<lparr>s_pending := p'\<rparr>" for p p'
      by simp
    ultimately show ?thesis
      using client(2) server(5) unfolding client(1) server(4)
      by (simp add: await_response_def took [unfolded One_nat_def] p2_def Let_def)
  qed
  have "Session_Request (link_env a now gen) ''session.initialize'' (any_SessionInitializeRequest q) w
      = (Ret (Inr r'), w1\<lparr>s_pending := p2\<rparr>)"
    using p1 sent(1) by (simp add: Session_Request_def bind_io_apply wait constructor_defs)
  then show ?thesis
    using server(6) client(3)
    by (intro exI [of _ r'] exI [of _ p2] exI [of _ ?peer]) (simp add: w1_def p2_def pr(1))
qed

subsection \<open>The session begins\<close>

lemma updated_event_sendable:
  assumes "i \<noteq> []"
  shows "Validate (MEvent (NewEvent i ''session.updated'' (any_SessionUpdatedEvent e))) = Ret None"
    and "\<exists>j. marshal_message (MEvent (NewEvent i ''session.updated'' (any_SessionUpdatedEvent e))) = Inr j"
  using assms
  by (simp_all add: any_SessionUpdatedEvent_def constructor_defs marshal_Event_def any_field_def Event_Validate_def
      validateBase_def Version_def wrap_verdict_def)

lemma linked_initialize:
  fixes w :: "'tel linked"
  assumes q: "ok_SessionInitializeRequest q" "si_AudioCodecOfferings q = Some (c # cs)"
    and ids: "\<And>v. gen v \<noteq> []" "now \<noteq> 0" and fresh: "\<not> ch_locked w" "\<not> ch_initialized w"
    and tr: "s_transport w = Some cc" "ready cc" "s_transport (lk_peer w) = Some pc" "ready pc"
  shows "\<exists>w' cc' i j. sessionInitialize (session_SHC (link_env a now gen)) q w = (Ret (Inr \<lparr>sr_AudioCodec = Some c\<rparr>), w')
    \<and> ch_initialized w' \<and> \<not> ch_locked w' \<and> ch_tel w' = ch_tel w
    \<and> lk_peer w' = (lk_peer w)\<lparr>dm_echoes := dm_echoes (lk_peer w) + 1\<rparr>
    \<and> s_transport w' = Some cc' \<and> cc_written cc' = [wire_of_json j]
    \<and> marshal_message (MEvent (NewEvent i ''session.updated''
        (any_SessionUpdatedEvent \<lparr>su_AudioCodec = Some c\<rparr>))) = Inr j"
proof -
  define w0 where "w0 = w\<lparr>ch_locked := True\<rparr>"
  have tr0: "s_transport w0 = Some cc" "s_transport (lk_peer w0) = Some pc"
    and w0: "\<not> ch_initialized w0" "ch_tel w0 = ch_tel w" "lk_peer w0 = lk_peer w"
    using tr fresh by (simp_all add: w0_def)
  from linked_request [where gen = gen and w = w0, OF q ids(1) ids(2) tr0(1) tr(2) tr0(2) tr(4), of a] obtain r p peer where
    req: "Session_Request (link_env a now gen) ''session.initialize'' (any_SessionInitializeRequest q) w0
      = (Ret (Inr r), w0\<lparr>s_pending := p, lk_peer := peer\<rparr>)"
      "As (dec_struct set_SessionInitializeResponse) zero_SessionInitializeResponse (Result r) = Inr \<lparr>sr_AudioCodec = Some c\<rparr>"
      "peer = (lk_peer w0)\<lparr>dm_echoes := dm_echoes (lk_peer w0) + 1\<rparr>" by blast
  define w1 where "w1 = w0\<lparr>s_pending := p, lk_peer := peer, ch_initialized := True, ch_shc_set := True\<rparr>"
  have tr1: "s_transport w1 = Some cc" and w1: "ch_initialized w1" "ch_tel w1 = ch_tel w" "lk_peer w1 = peer"
    using tr0 w0 by (simp_all add: w1_def)
  let ?m = "MEvent (NewEvent (gen w1) ''session.updated'' (any_SessionUpdatedEvent \<lparr>su_AudioCodec = Some c\<rparr>))"
  from updated_event_sendable(2) [where i = "gen w1", OF ids(1)] obtain j where j: "marshal_message ?m = Inr j" by blast
  from sent_frame [OF updated_event_sendable(1) [where i = "gen w1", OF ids(1)] j tr1 tr(2), of a now gen] obtain cc' where
    sent: "sendMessage (link_env a now gen) ?m w1 = (Ret None, w1\<lparr>s_transport := Some cc'\<rparr>)"
      "cc_written cc' = [wire_of_json j]" by blast
  have run: "sessionInitialize (session_SHC (link_env a now gen)) q w
      = (Ret (Inr \<lparr>sr_AudioCodec = Some c\<rparr>), w1\<lparr>s_transport := Some cc', ch_locked := False\<rparr>)"
    using fresh w0(1) req(1,2) sent(1)
    by (simp add: sessionInitialize_def with_mu_def w0_def [symmetric] w1_def [symmetric] bind_io_apply
        SessionInitializeRequest_MethodName_def SessionUpdatedEvent_EventName_def EventDispatch_def)
  show ?thesis
    using w1 req(3) w0(3) sent(2) j
    by (intro exI [of _ "w1\<lparr>s_transport := Some cc', ch_locked := False\<rparr>"] exI [of _ cc'] exI [of _ "gen w1"]
        exI [of _ j]) (simp add: run)
qed

lemma demo_request_ok:
  "exact_int (demo_sampleRate c) \<Longrightarrow> ok_SessionInitializeRequest
     \<lparr>si_AppInfo = x, si_CallInfo = y, si_AudioCodecOfferings = Some [newL16Codec (demo_sampleRate c)],
      si_Metadata = cfg_Metadata (demo_ClientHandlerConfig c u1 u2)\<rparr>"
  by (simp add: ok_SessionInitializeRequest_def go_map_ok_def sorted_keys_def ok_AudioCodec_def newL16Codec_def
      exact_int_def Let_def demo_ClientHandlerConfig_def)

text \<open>
  C7. The two demo programs start a session together: over a fresh link the client's
  \<open>OnBegin\<close> sends \<open>session.initialize\<close>, the server starts one echo and answers, the
  waiting caller gets that answer, and the client is initialised, has registered both
  phone callbacks, started its pinger, and announced the codec of its sample rate in
  exactly one \<open>session.updated\<close> event.
\<close>

theorem demo_session_begins:
  fixes w :: "(client_callback, client_callback) PhoneSystem linked"
  assumes rate: "exact_int (demo_sampleRate c)" and ids: "\<forall>v. gen v \<noteq> []" "now \<noteq> 0"
    and fresh: "\<not> ch_locked w" "\<not> ch_initialized w" "ph_onDtmf (ch_tel w) = None" "ph_onHangup (ch_tel w) = None"
    and tr: "s_transport w = Some cc" "ready cc" "s_transport (lk_peer w) = Some pc" "ready pc"
  shows "\<exists>w' cc' i j. OnBegin (NewClientHandler clock dummyphone (demo_ClientHandlerConfig c u1 u2) (\<lambda>h. return_io None))
        (session_SHC (link_env a now gen)) w = (Ret None, w')
    \<and> ch_initialized w' \<and> \<not> ch_locked w' \<and> ch_pinger w'
    \<and> ph_onDtmf (ch_tel w') = Some NotifyDTMF \<and> ph_onHangup (ch_tel w') = Some NotifyHangup
    \<and> lk_peer w' = (lk_peer w)\<lparr>dm_echoes := dm_echoes (lk_peer w) + 1\<rparr>
    \<and> s_transport w' = Some cc' \<and> cc_written cc' = [wire_of_json j]
    \<and> marshal_message (MEvent (NewEvent i ''session.updated''
        (any_SessionUpdatedEvent \<lparr>su_AudioCodec = Some (newL16Codec (demo_sampleRate c))\<rparr>))) = Inr j"
proof -
  define cfg where "cfg = demo_ClientHandlerConfig c u1 u2"
  have cfg: "cfg_SampleRate cfg = demo_sampleRate c" by (simp add: cfg_def demo_ClientHandlerConfig_def)
  let ?q = "\<lparr>si_AppInfo = cfg_App cfg, si_CallInfo = cfg_Call cfg,
      si_AudioCodecOfferings = Some [newL16Codec (demo_sampleRate c)], si_Metadata = cfg_Metadata cfg\<rparr>"
  have offers: "si_AudioCodecOfferings ?q = Some (newL16Codec (demo_sampleRate c) # [])" by simp
  have ok: "ok_SessionInitializeRequest ?q" unfolding cfg_def by (rule demo_request_ok [OF rate])
  from linked_initialize [where gen = gen and w = w, OF ok offers _ ids(2) fresh(1,2) tr] ids(1)
  obtain w1 cc' i j where
    init: "sessionInitialize (session_SHC (link_env a now gen)) ?q w
        = (Ret (Inr \<lparr>sr_AudioCodec = Some (newL16Codec (demo_sampleRate c))\<rparr>), w1)"
      "ch_initialized w1" "\<not> ch_locked w1" "ch_tel w1 = ch_tel w"
      "lk_peer w1 = (lk_peer w)\<lparr>dm_echoes := dm_echoes (lk_peer w) + 1\<rparr>"
      "s_transport w1 = Some cc'" "cc_written cc' = [wire_of_json j]"
      "marshal_message (MEvent (NewEvent i ''session.updated''
        (any_SessionUpdatedEvent \<lparr>su_AudioCodec = Some (newL16Codec (demo_sampleRate c))\<rparr>))) = Inr j"
    by blast
  define tel where "tel = (ch_tel w)\<lparr>ph_onDtmf := Some NotifyDTMF, ph_onHangup := Some NotifyHangup\<rparr>"
  have "OnBegin (NewClientHandler clock dummyphone cfg (\<lambda>h. return_io None)) (session_SHC (link_env a now gen)) w
      = (Ret None, w1\<lparr>ch_tel := tel, ch_pinger := True\<rparr>)"
    using init(1,4) fresh(3,4)
    by (simp add: NewClientHandler_def NewHandler_simps client_OnBegin_def cfg bind_io_apply on_tel_def dummyphone_def
        phone_OnDTMF_def phone_OnHangup_def tel_def)
  with init(2-8) show ?thesis
    unfolding cfg_def [symmetric]
    by (intro exI [of _ "w1\<lparr>ch_tel := tel, ch_pinger := True\<rparr>"] exI [of _ cc'] exI [of _ i] exI [of _ j])
       (simp add: tel_def)
qed

text \<open>Two fresh sessions, for the witness.\<close>

definition fresh_link :: "(client_callback, client_callback) PhoneSystem linked" where
  "fresh_link = \<lparr>s_id = ''c1'', s_state = SessionStateActive, s_transport = Some (newControlChannel (make_chan 16)),
     s_pending = no_pendings, s_once = OnceNew, s_trigger = False, s_final = False,
     ch_locked = False, ch_initialized = False, ch_shc_set = False, ch_dtmfSeq = 0, ch_pinger = False,
     ch_tel = phone_New, lk_peer = demo_session\<rparr>"

theorem demo_session_begins_witness:
  "\<exists>w' cc' i j. OnBegin (NewClientHandler (\<lambda>w. 5) dummyphone (demo_ClientHandlerConfig initCLI ''u'' ''v'') (\<lambda>h. return_io None))
        (session_SHC (link_env no_flags 7 (\<lambda>w. ''r1''))) fresh_link = (Ret None, w')
    \<and> ch_initialized w' \<and> \<not> ch_locked w' \<and> ch_pinger w'
    \<and> ph_onDtmf (ch_tel w') = Some NotifyDTMF \<and> ph_onHangup (ch_tel w') = Some NotifyHangup
    \<and> lk_peer w' = demo_session\<lparr>dm_echoes := dm_echoes demo_session + 1\<rparr>
    \<and> s_transport w' = Some cc' \<and> cc_written cc' = [wire_of_json j]
    \<and> marshal_message (MEvent (NewEvent i ''session.updated''
        (any_SessionUpdatedEvent \<lparr>su_AudioCodec = Some (newL16Codec (demo_sampleRate initCLI))\<rparr>))) = Inr j"
proof -
  have rate: "exact_int (demo_sampleRate initCLI)"
    by (simp add: exact_int_def demo_sampleRate_def initCLI_def)
  have ids: "\<forall>v :: (client_callback, client_callback) PhoneSystem linked. ''r1'' \<noteq> []" "(7 :: i64) \<noteq> 0" by simp_all
  have fresh: "\<not> ch_locked fresh_link" "\<not> ch_initialized fresh_link"
      "ph_onDtmf (ch_tel fresh_link) = None" "ph_onHangup (ch_tel fresh_link) = None"
    and peer: "lk_peer fresh_link = demo_session"
    by (simp_all add: fresh_link_def phone_New_def)
  have chan: "ready (newControlChannel (make_chan 16))"
    by (simp add: ready_def newControlChannel_def)
  have tr: "s_transport fresh_link = Some (newControlChannel (make_chan 16))"
      "s_transport (lk_peer fresh_link) = Some (newControlChannel (make_chan 16))"
    by (simp_all add: fresh_link_def demo_session_def)
  show ?thesis
    using demo_session_begins [where gen = "\<lambda>w. ''r1''" and w = fresh_link, OF rate ids fresh tr(1) chan tr(2) chan,
        of "\<lambda>w. 5" "''u''" "''v''" no_flags]
    unfolding peer by blast
qed

end
