(* ===== verification/AudioInfo.thy ===== *)
theory AudioInfo
  imports Client Audio
begin

section \<open>The audio throughput tracker (proto/protov1/audio_info_event.go)\<close>

text \<open>
  \<open>audioInfoTracker\<close> counts bytes in atomics that the audio observer adds to while a
  ticker goroutine runs \<open>dispatch\<close>. The observer's calls may fall between any two atomic
  operations of \<open>dispatch\<close>, so it is a step machine with one step per atomic operation. Each
  tracker has one ticker goroutine. The division of a byte count by the interval is
  floating point arithmetic; it is the argument \<open>rate\<close>, with results of a type \<open>'f\<close>.
\<close>

record 'f audioInfoItem =
  ii_Bytes :: i64
  ii_BytesPerSecond :: 'f
  ii_BytesTotal :: i64

record 'f AudioInfoEvent =
  ie_Read :: "'f audioInfoItem"
  ie_Write :: "'f audioInfoItem"

text \<open>Where \<open>dispatch\<close> is, with the local variables it has read so far.\<close>

datatype dispatch_pc =
    Idle
  | SwappedW i64
  | AddedW i64
  | LoadedW i64 i64
  | SwappedR i64 i64 i64
  | AddedR i64 i64 i64
  | LoadedR i64 i64 i64 i64

record tracker =
  t_w :: i64
  t_wt :: i64
  t_r :: i64
  t_rt :: i64
  t_pc :: dispatch_pc

definition new_tracker :: tracker where
  "new_tracker = \<lparr>t_w = 0, t_wt = 0, t_r = 0, t_rt = 0, t_pc = Idle\<rparr>"

text \<open>The callbacks of \<open>asObserver\<close>; errors are not observed, so they count as their bytes do.\<close>

definition tracker_OnRead :: "int \<Rightarrow> tracker \<Rightarrow> tracker" where
  "tracker_OnRead n t = t\<lparr>t_r := t_r t + word_of_int n\<rparr>"

definition tracker_OnWrite :: "int \<Rightarrow> tracker \<Rightarrow> tracker" where
  "tracker_OnWrite n t = t\<lparr>t_w := t_w t + word_of_int n\<rparr>"

definition asObserver :: "tracker AudioStreamObserver" where
  "asObserver = \<lparr>ob_OnRead = Some tracker_OnRead, ob_OnReadError = None,
     ob_OnWrite = Some tracker_OnWrite, ob_OnWriteError = None, ob_OnBufferCleared = None\<rparr>"

text \<open>
  One step of \<open>dispatch\<close>; \<open>shc\<close> is \<open>ch.shc != nil\<close>. The last step, under the client's mutex,
  makes an event and notifies it, or returns without one when the client has no context.
\<close>

fun dispatch_step :: "(i64 \<Rightarrow> 'f) \<Rightarrow> bool \<Rightarrow> tracker \<Rightarrow> tracker \<times> 'f AudioInfoEvent option" where
  "dispatch_step rate shc t = (case t_pc t of
      Idle \<Rightarrow> (t\<lparr>t_w := 0, t_pc := SwappedW (t_w t)\<rparr>, None)
    | SwappedW w \<Rightarrow> (t\<lparr>t_wt := t_wt t + w, t_pc := AddedW w\<rparr>, None)
    | AddedW w \<Rightarrow> (t\<lparr>t_pc := LoadedW w (t_wt t)\<rparr>, None)
    | LoadedW w wt \<Rightarrow> (t\<lparr>t_r := 0, t_pc := SwappedR w wt (t_r t)\<rparr>, None)
    | SwappedR w wt r \<Rightarrow> (t\<lparr>t_rt := t_rt t + r, t_pc := AddedR w wt r\<rparr>, None)
    | AddedR w wt r \<Rightarrow> (t\<lparr>t_pc := LoadedR w wt r (t_rt t)\<rparr>, None)
    | LoadedR w wt r rt \<Rightarrow> (t\<lparr>t_pc := Idle\<rparr>,
        if \<not> shc then None
        else Some \<lparr>ie_Read = \<lparr>ii_Bytes = r, ii_BytesPerSecond = rate r, ii_BytesTotal = rt\<rparr>,
          ie_Write = \<lparr>ii_Bytes = w, ii_BytesPerSecond = rate w, ii_BytesTotal = wt\<rparr>\<rparr>))"

subsection \<open>Runs\<close>

text \<open>
  A run: the tracker, whether the client has a context, all bytes observed, the events
  notified, and the bytes (read and written) of the intervals that ended without an event.
  The context is set once, by \<open>sessionInitialize\<close>.
\<close>

record 'f tracker_run =
  run_t :: tracker
  run_shc :: bool
  run_read :: i64
  run_written :: i64
  run_events :: "'f AudioInfoEvent list"
  run_dropped :: "(i64 \<times> i64) list"

text \<open>Bytes swapped out and not yet in a total, and bytes in a total but not yet in an event.\<close>

fun pending_w :: "dispatch_pc \<Rightarrow> i64" where
  "pending_w (SwappedW w) = w"
| "pending_w _ = 0"

fun pending_r :: "dispatch_pc \<Rightarrow> i64" where
  "pending_r (SwappedR w wt r) = r"
| "pending_r _ = 0"

fun unreported_w :: "dispatch_pc \<Rightarrow> i64" where
  "unreported_w (AddedW w) = w"
| "unreported_w (LoadedW w wt) = w"
| "unreported_w (SwappedR w wt r) = w"
| "unreported_w (AddedR w wt r) = w"
| "unreported_w (LoadedR w wt r rt) = w"
| "unreported_w _ = 0"

fun unreported_r :: "dispatch_pc \<Rightarrow> i64" where
  "unreported_r (AddedR w wt r) = r"
| "unreported_r (LoadedR w wt r rt) = r"
| "unreported_r _ = 0"

inductive tracker_step :: "(i64 \<Rightarrow> 'f) \<Rightarrow> 'f tracker_run \<Rightarrow> 'f tracker_run \<Rightarrow> bool" for rate where
  step_read: "tracker_step rate s
    (s\<lparr>run_t := tracker_OnRead n (run_t s), run_read := run_read s + word_of_int n\<rparr>)"
| step_write: "tracker_step rate s
    (s\<lparr>run_t := tracker_OnWrite n (run_t s), run_written := run_written s + word_of_int n\<rparr>)"
| step_shc: "tracker_step rate s (s\<lparr>run_shc := True\<rparr>)"
| step_dispatch: "dispatch_step rate (run_shc s) (run_t s) = (t, None) \<Longrightarrow> t_pc t \<noteq> Idle \<Longrightarrow>
    tracker_step rate s (s\<lparr>run_t := t\<rparr>)"
| step_event: "dispatch_step rate (run_shc s) (run_t s) = (t, Some e) \<Longrightarrow>
    tracker_step rate s (s\<lparr>run_t := t, run_events := run_events s @ [e]\<rparr>)"
| step_no_event: "dispatch_step rate (run_shc s) (run_t s) = (t, None) \<Longrightarrow> t_pc t = Idle \<Longrightarrow>
    tracker_step rate s (s\<lparr>run_t := t,
      run_dropped := run_dropped s @ [(unreported_r (t_pc (run_t s)), unreported_w (t_pc (run_t s)))]\<rparr>)"

definition tracker_new :: "'f tracker_run" where
  "tracker_new = \<lparr>run_t = new_tracker, run_shc = False, run_read = 0, run_written = 0,
     run_events = [], run_dropped = []\<rparr>"

abbreviation tracker_reach :: "(i64 \<Rightarrow> 'f) \<Rightarrow> 'f tracker_run \<Rightarrow> bool" where
  "tracker_reach rate \<equiv> reach (\<lambda>s. s = tracker_new) (tracker_step rate)"

text \<open>The totals read into local variables are current: only \<open>dispatch\<close> changes them.\<close>

fun loaded_ok :: "dispatch_pc \<Rightarrow> i64 \<Rightarrow> i64 \<Rightarrow> bool" where
  "loaded_ok (LoadedW w wt) twt trt = (wt = twt)"
| "loaded_ok (SwappedR w wt r) twt trt = (wt = twt)"
| "loaded_ok (AddedR w wt r) twt trt = (wt = twt)"
| "loaded_ok (LoadedR w wt r rt) twt trt = (wt = twt \<and> rt = trt)"
| "loaded_ok _ twt trt = True"

definition read_bytes :: "'f AudioInfoEvent list \<Rightarrow> i64" where
  "read_bytes es = sum_list (map (\<lambda>e. ii_Bytes (ie_Read e)) es)"

definition written_bytes :: "'f AudioInfoEvent list \<Rightarrow> i64" where
  "written_bytes es = sum_list (map (\<lambda>e. ii_Bytes (ie_Write e)) es)"

definition dropped_read :: "'f tracker_run \<Rightarrow> i64" where
  "dropped_read s = sum_list (map fst (run_dropped s))"

definition dropped_written :: "'f tracker_run \<Rightarrow> i64" where
  "dropped_written s = sum_list (map snd (run_dropped s))"

text \<open>Each event's totals are those before the first event plus the bytes of the events up to it.\<close>

fun totals_ok :: "i64 \<Rightarrow> i64 \<Rightarrow> 'f AudioInfoEvent list \<Rightarrow> bool" where
  "totals_ok r w [] = True"
| "totals_ok r w (e # es) =
     (ii_BytesTotal (ie_Read e) = r + ii_Bytes (ie_Read e)
      \<and> ii_BytesTotal (ie_Write e) = w + ii_Bytes (ie_Write e)
      \<and> totals_ok (r + ii_Bytes (ie_Read e)) (w + ii_Bytes (ie_Write e)) es)"

lemma totals_ok_append:
  "totals_ok r w (es @ [e]) \<longleftrightarrow> totals_ok r w es
     \<and> ii_BytesTotal (ie_Read e) = r + read_bytes es + ii_Bytes (ie_Read e)
     \<and> ii_BytesTotal (ie_Write e) = w + written_bytes es + ii_Bytes (ie_Write e)"
  by (induction es arbitrary: r w) (auto simp: read_bytes_def written_bytes_def ac_simps)

definition tracker_inv :: "'f tracker_run \<Rightarrow> bool" where
  "tracker_inv s \<longleftrightarrow> (let t = run_t s; pc = t_pc t; es = run_events s in
     t_r t + pending_r pc + t_rt t = run_read s
     \<and> t_w t + pending_w pc + t_wt t = run_written s
     \<and> dropped_read s + read_bytes es + unreported_r pc = t_rt t
     \<and> dropped_written s + written_bytes es + unreported_w pc = t_wt t
     \<and> loaded_ok pc (t_wt t) (t_rt t)
     \<and> (es \<noteq> [] \<longrightarrow> run_shc s)
     \<and> totals_ok (dropped_read s) (dropped_written s) es)"

lemmas run_sums = read_bytes_def written_bytes_def dropped_read_def dropped_written_def

lemma tracker_inv_step:
  assumes "tracker_inv s" and "tracker_step rate s s'"
  shows "tracker_inv s'"
  using assms(2,1)
proof (cases rule: tracker_step.cases)
  case (step_read n)
  then show ?thesis using assms(1)
    by (simp add: tracker_inv_def tracker_OnRead_def Let_def run_sums) (auto simp: ac_simps)
next
  case (step_write n)
  then show ?thesis using assms(1)
    by (simp add: tracker_inv_def tracker_OnWrite_def Let_def run_sums) (auto simp: ac_simps)
next
  case step_shc
  then show ?thesis using assms(1) by (simp add: tracker_inv_def Let_def run_sums)
next
  case (step_dispatch t)
  then show ?thesis using assms(1)
    by (cases "t_pc (run_t s)") (auto simp: tracker_inv_def Let_def run_sums ac_simps)
next
  case (step_event t e)
  then show ?thesis using assms(1)
    by (cases "t_pc (run_t s)")
       (auto simp: tracker_inv_def Let_def totals_ok_append run_sums ac_simps split: if_splits)
next
  case (step_no_event t)
  then show ?thesis using assms(1)
    by (cases "t_pc (run_t s)") (auto simp: tracker_inv_def Let_def run_sums ac_simps split: if_splits)
qed

lemma tracker_inv_new: "tracker_inv tracker_new"
  by (simp add: tracker_new_def tracker_inv_def new_tracker_def run_sums)

text \<open>
  C23. No byte is lost or counted twice, however the observer's callbacks interleave with
  \<open>dispatch\<close>: in every reachable state the bytes read are those in the events notified so
  far, those of the intervals that ended while the client had no context (for which no
  event is made), those in \<open>dispatch\<close>'s hands and those still in the counter; likewise for
  writes. The totals of every event are all the bytes up to it: those intervals, which
  all come before the first event, and the events up to it.
\<close>

theorem tracker_conserves_bytes:
  assumes "tracker_reach rate s"
  shows "run_read s = dropped_read s + read_bytes (run_events s) + unreported_r (t_pc (run_t s))
            + pending_r (t_pc (run_t s)) + t_r (run_t s)
    \<and> run_written s = dropped_written s + written_bytes (run_events s) + unreported_w (t_pc (run_t s))
            + pending_w (t_pc (run_t s)) + t_w (run_t s)
    \<and> totals_ok (dropped_read s) (dropped_written s) (run_events s)"
proof -
  have "tracker_inv s"
    by (rule reach_invariant [OF assms]) (auto intro: tracker_inv_new tracker_inv_step)
  then show ?thesis by (simp add: tracker_inv_def Let_def algebra_simps)
qed

text \<open>One whole \<open>dispatch\<close> without callbacks in between.\<close>

definition dispatched :: "(i64 \<Rightarrow> 'f) \<Rightarrow> 'f tracker_run \<Rightarrow> 'f tracker_run" where
  "dispatched rate s = (let t = run_t s; rt = t_rt t + t_r t; wt = t_wt t + t_w t;
     s1 = s\<lparr>run_t := t\<lparr>t_w := 0, t_wt := wt, t_r := 0, t_rt := rt\<rparr>\<rparr> in
     if run_shc s
     then s1\<lparr>run_events := run_events s @
       [\<lparr>ie_Read = \<lparr>ii_Bytes = t_r t, ii_BytesPerSecond = rate (t_r t), ii_BytesTotal = rt\<rparr>,
         ie_Write = \<lparr>ii_Bytes = t_w t, ii_BytesPerSecond = rate (t_w t), ii_BytesTotal = wt\<rparr>\<rparr>]\<rparr>
     else s1\<lparr>run_dropped := run_dropped s @ [(t_r t, t_w t)]\<rparr>)"

lemma run_dispatch:
  assumes "t_pc (run_t s) = Idle"
  shows "(tracker_step rate)\<^sup>*\<^sup>* s (dispatched rate s)"
proof -
  let ?t = "run_t s"
  let ?t1 = "?t\<lparr>t_w := 0, t_pc := SwappedW (t_w ?t)\<rparr>"
  let ?t2 = "?t1\<lparr>t_wt := t_wt ?t + t_w ?t, t_pc := AddedW (t_w ?t)\<rparr>"
  let ?t3 = "?t2\<lparr>t_pc := LoadedW (t_w ?t) (t_wt ?t + t_w ?t)\<rparr>"
  let ?t4 = "?t3\<lparr>t_r := 0, t_pc := SwappedR (t_w ?t) (t_wt ?t + t_w ?t) (t_r ?t)\<rparr>"
  let ?t5 = "?t4\<lparr>t_rt := t_rt ?t + t_r ?t, t_pc := AddedR (t_w ?t) (t_wt ?t + t_w ?t) (t_r ?t)\<rparr>"
  let ?t6 = "?t5\<lparr>t_pc := LoadedR (t_w ?t) (t_wt ?t + t_w ?t) (t_r ?t) (t_rt ?t + t_r ?t)\<rparr>"
  let ?t7 = "?t6\<lparr>t_pc := Idle\<rparr>"
  have st: "tracker_step rate v (v\<lparr>run_t := t'\<rparr>)"
    if "dispatch_step rate (run_shc v) (run_t v) = (t', None)" "t_pc t' \<noteq> Idle" for v t'
    using that by (rule step_dispatch)
  have 1: "tracker_step rate s (s\<lparr>run_t := ?t1\<rparr>)" by (rule st) (simp_all add: assms)
  have 2: "tracker_step rate (s\<lparr>run_t := ?t1\<rparr>) (s\<lparr>run_t := ?t2\<rparr>)" using st [of "s\<lparr>run_t := ?t1\<rparr>" ?t2] by simp
  have 3: "tracker_step rate (s\<lparr>run_t := ?t2\<rparr>) (s\<lparr>run_t := ?t3\<rparr>)" using st [of "s\<lparr>run_t := ?t2\<rparr>" ?t3] by simp
  have 4: "tracker_step rate (s\<lparr>run_t := ?t3\<rparr>) (s\<lparr>run_t := ?t4\<rparr>)" using st [of "s\<lparr>run_t := ?t3\<rparr>" ?t4] by simp
  have 5: "tracker_step rate (s\<lparr>run_t := ?t4\<rparr>) (s\<lparr>run_t := ?t5\<rparr>)" using st [of "s\<lparr>run_t := ?t4\<rparr>" ?t5] by simp
  have 6: "tracker_step rate (s\<lparr>run_t := ?t5\<rparr>) (s\<lparr>run_t := ?t6\<rparr>)" using st [of "s\<lparr>run_t := ?t5\<rparr>" ?t6] by simp
  have idle: "?t7 = ?t\<lparr>t_w := 0, t_wt := t_wt ?t + t_w ?t, t_r := 0, t_rt := t_rt ?t + t_r ?t\<rparr>"
    using assms by (cases ?t) simp
  have 7: "tracker_step rate (s\<lparr>run_t := ?t6\<rparr>) (dispatched rate s)"
  proof (cases "run_shc s")
    case True
    then show ?thesis using step_event [of rate "s\<lparr>run_t := ?t6\<rparr>" ?t7] idle
      by (simp add: dispatched_def Let_def)
  next
    case False
    then show ?thesis using step_no_event [of rate "s\<lparr>run_t := ?t6\<rparr>" ?t7] idle
      by (simp add: dispatched_def Let_def)
  qed
  show ?thesis
    by (rule run_step [OF 1 run_step [OF 2 run_step [OF 3 run_step [OF 4 run_step [OF 5 run_step [OF 6
          r_into_rtranclp [of "tracker_step rate", OF 7]]]]]]])
qed

text \<open>160 bytes are read and dropped, then the client gets its context, and 80 more are reported.\<close>

theorem tracker_conserves_bytes_witness:
  "\<exists>s. tracker_reach (\<lambda>n. sint n div 5) s \<and> run_read s = 240 \<and> dropped_read s = 160
     \<and> map (\<lambda>e. (ii_Bytes (ie_Read e), ii_BytesTotal (ie_Read e))) (run_events s) = [(80, 240)]
     \<and> run_read s = dropped_read s + read_bytes (run_events s) + unreported_r (t_pc (run_t s))
         + pending_r (t_pc (run_t s)) + t_r (run_t s)
     \<and> totals_ok (dropped_read s) (dropped_written s) (run_events s)"
proof -
  let ?rate = "\<lambda>n :: i64. sint n div 5"
  let ?on = "\<lambda>n s :: int tracker_run. s\<lparr>run_t := tracker_OnRead n (run_t s), run_read := run_read s + word_of_int n\<rparr>"
  define a where "a = ?on 160 tracker_new"
  define b where "b = dispatched ?rate a"
  define c where "c = ?on 80 (b\<lparr>run_shc := True\<rparr>)"
  define d where "d = dispatched ?rate c"
  note defs = tracker_new_def new_tracker_def tracker_OnRead_def dispatched_def Let_def
  have a: "a = tracker_new\<lparr>run_t := new_tracker\<lparr>t_r := 160\<rparr>, run_read := 160\<rparr>"
    by (simp add: a_def defs)
  have b: "b = tracker_new\<lparr>run_t := new_tracker\<lparr>t_rt := 160\<rparr>, run_read := 160, run_dropped := [(160, 0)]\<rparr>"
    by (simp add: b_def a defs)
  have c: "c = tracker_new\<lparr>run_t := new_tracker\<lparr>t_r := 80, t_rt := 160\<rparr>, run_read := 240, run_shc := True,
      run_dropped := [(160, 0)]\<rparr>"
    by (simp add: c_def b defs)
  have "tracker_reach ?rate tracker_new" by (rule reach_init) simp
  then have ra: "tracker_reach ?rate a" unfolding a_def by (rule reach_step) (rule step_read)
  have rb: "tracker_reach ?rate b"
    unfolding b_def by (rule reach_rtranclp [OF ra run_dispatch]) (simp add: a new_tracker_def)
  have "tracker_reach ?rate (b\<lparr>run_shc := True\<rparr>)" using rb by (rule reach_step) (rule step_shc)
  then have rc: "tracker_reach ?rate c" unfolding c_def by (rule reach_step) (rule step_read)
  have rd: "tracker_reach ?rate d"
    unfolding d_def by (rule reach_rtranclp [OF rc run_dispatch]) (simp add: c new_tracker_def)
  have "run_read d = 240" "dropped_read d = 160"
    "map (\<lambda>e. (ii_Bytes (ie_Read e), ii_BytesTotal (ie_Read e))) (run_events d) = [(80, 240)]"
    by (simp_all add: d_def c defs dropped_read_def)
  then show ?thesis using tracker_conserves_bytes [OF rd] rd
    by (intro exI [of _ d] conjI) (assumption | (elim conjE, assumption))+
qed

end
