(* ===== verification/ServerRun.thy ===== *)
theory ServerRun
  imports WsServer
begin

section \<open>A server with its sessions, while it is shut down (transport/ws/server.go)\<close>

text \<open>
  The upgrade handler runs in a goroutine of its own for every HTTP request, next to one
  caller of \<open>Shutdown\<close>. Requests are numbered; \<open>ids\<close> gives the ID of the session of each.
  A step is a decision of the handler, a critical section of the server's mutex or a
  call; \<open>Shutdown\<close> keeps the mutex while it closes the sessions, so it is explicit there.
  Whether authorisation or the upgrade fail, when a session ends and in which order
  the map is iterated is left open.
\<close>

datatype up_pc = UpIdle | UpRefused | UpAdd | UpServing | UpClosing | UpRemove | UpDone

datatype sd_pc = SdIdle | SdLock | SdLoop "string list" | SdClosing nat "string list" | SdHttp | SdReturned "goerr option"

record srv =
  sr_table :: "string \<rightharpoonup> nat"
  sr_locked :: bool
  sr_up :: "nat \<Rightarrow> up_pc"
  sr_shut :: sd_pc
  sr_closed :: "nat \<Rightarrow> bool"
  sr_final :: "nat \<Rightarrow> bool"
  sr_done :: "nat \<Rightarrow> bool"
  sr_ctx :: bool
  sr_listed :: "string \<rightharpoonup> nat"

text \<open>
  \<open>sr_closed\<close>: \<open>Close\<close> was called on the session; \<open>sr_final\<close>: it is finalised, which ends every
  call of \<open>Close\<close> on it; \<open>sr_done\<close>: its \<open>Run\<close> reported the end; \<open>sr_ctx\<close>: the context of
  \<open>Shutdown\<close> ended; \<open>sr_listed\<close> is the table when \<open>Shutdown\<close> got the mutex.
\<close>

definition srv_new :: srv where
  "srv_new = \<lparr>sr_table = Map.empty, sr_locked = False, sr_up = (\<lambda>_. UpIdle), sr_shut = SdIdle,
     sr_closed = (\<lambda>_. False), sr_final = (\<lambda>_. False), sr_done = (\<lambda>_. False), sr_ctx = False,
     sr_listed = Map.empty\<rparr>"

definition set_up :: "nat \<Rightarrow> up_pc \<Rightarrow> srv \<Rightarrow> srv" where
  "set_up n p s = s\<lparr>sr_up := (sr_up s)(n := p)\<rparr>"

definition close_session :: "nat \<Rightarrow> srv \<Rightarrow> srv" where
  "close_session n s = s\<lparr>sr_closed := (sr_closed s)(n := True)\<rparr>"

inductive upgrade_step :: "(nat \<Rightarrow> string) \<Rightarrow> srv \<Rightarrow> srv \<Rightarrow> bool" for ids where
  up_refused: "sr_up s n = UpIdle \<Longrightarrow> upgrade_step ids s (set_up n UpRefused s)"
| up_run: "sr_up s n = UpIdle \<Longrightarrow> upgrade_step ids s (set_up n UpAdd s)"
| up_add: "sr_up s n = UpAdd \<Longrightarrow> \<not> sr_locked s \<Longrightarrow>
    upgrade_step ids s (set_up n UpServing s\<lparr>sr_table := (sr_table s)(ids n \<mapsto> n)\<rparr>)"
| up_ctx: "sr_up s n = UpServing \<Longrightarrow> upgrade_step ids s (close_session n (set_up n UpClosing s))"
| up_closed: "sr_up s n = UpClosing \<Longrightarrow> sr_final s n \<Longrightarrow> upgrade_step ids s (set_up n UpRemove s)"
| up_done: "sr_up s n = UpServing \<Longrightarrow> sr_done s n \<Longrightarrow> upgrade_step ids s (set_up n UpRemove s)"
| up_remove: "sr_up s n = UpRemove \<Longrightarrow> \<not> sr_locked s \<Longrightarrow>
    upgrade_step ids s (set_up n UpDone s\<lparr>sr_table := (sr_table s)(ids n := None)\<rparr>)"
| ses_done: "sr_up s n \<notin> {UpIdle, UpRefused} \<Longrightarrow>
    upgrade_step ids s (s\<lparr>sr_done := (sr_done s)(n := True)\<rparr>)"
| ses_final: "sr_up s n \<notin> {UpIdle, UpRefused} \<Longrightarrow>
    upgrade_step ids s (s\<lparr>sr_final := (sr_final s)(n := True)\<rparr>)"

text \<open>\<open>Shutdown\<close> waits in each \<open>Close\<close> until the session is finalised or its own context ends.\<close>

inductive shutdown_step :: "srv \<Rightarrow> srv \<Rightarrow> bool" where
  sd_call: "sr_shut s = SdIdle \<Longrightarrow> shutdown_step s (s\<lparr>sr_shut := SdLock\<rparr>)"
| sd_lock: "sr_shut s = SdLock \<Longrightarrow> \<not> sr_locked s \<Longrightarrow> set order = dom (sr_table s) \<Longrightarrow> distinct order \<Longrightarrow>
    shutdown_step s (s\<lparr>sr_locked := True, sr_shut := SdLoop order, sr_listed := sr_table s\<rparr>)"
| sd_close: "sr_shut s = SdLoop (i # is) \<Longrightarrow> sr_table s i = Some n \<Longrightarrow>
    shutdown_step s (close_session n s\<lparr>sr_shut := SdClosing n is\<rparr>)"
| sd_closed: "sr_shut s = SdClosing n is \<Longrightarrow> sr_final s n \<or> sr_ctx s \<Longrightarrow>
    shutdown_step s (s\<lparr>sr_shut := SdLoop is\<rparr>)"
| sd_ctx: "shutdown_step s (s\<lparr>sr_ctx := True\<rparr>)"
| sd_http: "sr_shut s = SdLoop [] \<Longrightarrow> shutdown_step s (s\<lparr>sr_shut := SdHttp\<rparr>)"
| sd_return: "sr_shut s = SdHttp \<Longrightarrow>
    shutdown_step s (s\<lparr>sr_shut := SdReturned http_err, sr_locked := False\<rparr>)"

definition srv_step :: "(nat \<Rightarrow> string) \<Rightarrow> srv \<Rightarrow> srv \<Rightarrow> bool" where
  "srv_step ids s s' \<longleftrightarrow> upgrade_step ids s s' \<or> shutdown_step s s'"

abbreviation srv_reach :: "(nat \<Rightarrow> string) \<Rightarrow> srv \<Rightarrow> bool" where
  "srv_reach ids \<equiv> reach (\<lambda>s. s = srv_new) (srv_step ids)"

lemmas srv_updates = set_up_def close_session_def

lemma srv_stepI:
  "upgrade_step ids s s' \<Longrightarrow> srv_step ids s s'" "shutdown_step s s' \<Longrightarrow> srv_step ids s s'"
  by (simp_all add: srv_step_def)

subsection \<open>Invariants\<close>

definition holds_lock :: "sd_pc \<Rightarrow> bool" where
  "holds_lock p \<longleftrightarrow> (case p of SdLoop is \<Rightarrow> True | SdClosing n is \<Rightarrow> True | SdHttp \<Rightarrow> True | _ \<Rightarrow> False)"

fun left_to_close :: "sd_pc \<Rightarrow> string set" where
  "left_to_close (SdLoop is) = set is"
| "left_to_close (SdClosing n is) = set is"
| "left_to_close _ = {}"

definition listing :: "sd_pc \<Rightarrow> bool" where
  "listing p \<longleftrightarrow> p \<noteq> SdIdle \<and> p \<noteq> SdLock"

definition shut_inv :: "srv \<Rightarrow> bool" where
  "shut_inv s \<longleftrightarrow> (sr_locked s \<longleftrightarrow> holds_lock (sr_shut s))
     \<and> (holds_lock (sr_shut s) \<longrightarrow> sr_table s = sr_listed s)
     \<and> left_to_close (sr_shut s) \<subseteq> dom (sr_listed s)
     \<and> (listing (sr_shut s) \<longrightarrow>
          (\<forall>i n. sr_listed s i = Some n \<longrightarrow> i \<in> left_to_close (sr_shut s) \<or> sr_closed s n))"

definition serving :: "up_pc \<Rightarrow> bool" where
  "serving p \<longleftrightarrow> p = UpServing \<or> p = UpClosing \<or> p = UpRemove"

definition table_inv :: "(nat \<Rightarrow> string) \<Rightarrow> srv \<Rightarrow> bool" where
  "table_inv ids s \<longleftrightarrow> (\<forall>i n. sr_table s i = Some n \<longleftrightarrow> i = ids n \<and> serving (sr_up s n))"

lemmas lock_simps = holds_lock_def listing_def

lemma shut_inv_upgrade: "upgrade_step ids s s' \<Longrightarrow> shut_inv s \<Longrightarrow> shut_inv s'"
  by (erule upgrade_step.cases) (auto simp: shut_inv_def srv_updates)

lemma shut_inv_shutdown:
  assumes "shutdown_step s s'" and "shut_inv s"
  shows "shut_inv s'"
  using assms(1)
proof (cases rule: shutdown_step.cases)
  case (sd_close i "is" n)
  have locked: "sr_locked s" and tab: "sr_table s = sr_listed s" and sub: "set (i # is) \<subseteq> dom (sr_listed s)"
    and cl: "\<And>j m. sr_listed s j = Some m \<Longrightarrow> j \<in> set (i # is) \<or> sr_closed s m"
    using assms(2) sd_close(2) unfolding shut_inv_def by (simp_all add: lock_simps)
  have "\<forall>j m. sr_listed s j = Some m \<longrightarrow> j \<in> set is \<or> m = n \<or> sr_closed s m"
    using cl sd_close(3) tab by fastforce
  with locked tab sub sd_close(1) show ?thesis by (simp add: shut_inv_def srv_updates lock_simps) blast
qed (use assms(2) in \<open>auto simp: shut_inv_def srv_updates lock_simps\<close>)

lemma shut_inv_step: "srv_step ids s s' \<Longrightarrow> shut_inv s \<Longrightarrow> shut_inv s'"
  unfolding srv_step_def using shut_inv_upgrade shut_inv_shutdown by blast

lemma shut_inv_new: "shut_inv srv_new"
  by (simp add: shut_inv_def srv_new_def lock_simps)

lemma shut_inv_reach: "srv_reach ids s \<Longrightarrow> shut_inv s"
  by (erule reach_invariant [where I = shut_inv]) (simp_all add: shut_inv_new shut_inv_step)

lemma table_inv_upgrade:
  assumes "inj ids" and "upgrade_step ids s s'" and inv: "table_inv ids s"
  shows "table_inv ids s'"
proof -
  have inj: "ids m = ids n \<longleftrightarrow> m = n" for m n using assms(1) by (simp add: inj_eq)
  show ?thesis
    using assms(2) inv by cases (auto simp: table_inv_def srv_updates serving_def inj)
qed

lemma table_inv_shutdown: "shutdown_step s s' \<Longrightarrow> table_inv ids s \<Longrightarrow> table_inv ids s'"
  by (erule shutdown_step.cases) (simp_all add: table_inv_def srv_updates)

lemma table_inv_step: "inj ids \<Longrightarrow> srv_step ids s s' \<Longrightarrow> table_inv ids s \<Longrightarrow> table_inv ids s'"
  unfolding srv_step_def using table_inv_upgrade table_inv_shutdown by blast

lemma table_inv_new: "table_inv ids srv_new"
  by (simp add: table_inv_def srv_new_def serving_def)

lemma table_inv_reach: "inj ids \<Longrightarrow> srv_reach ids s \<Longrightarrow> table_inv ids s"
  by (erule reach_invariant [where I = "table_inv ids"]) (simp_all add: table_inv_new table_inv_step)

subsection \<open>What the table and Shutdown guarantee\<close>

text \<open>
  C25. The server's table is exact: with distinct session IDs, at every moment it holds
  under its ID each session whose handler has added it and not yet removed it, and
  nothing else; so a refused request, a failed upgrade and a finished handler leave no
  entry.
\<close>

theorem server_table_exact:
  assumes "inj ids" and "srv_reach ids s"
  shows "sr_table s i = Some n \<longleftrightarrow> i = ids n \<and> serving (sr_up s n)"
  using table_inv_reach [OF assms] by (simp add: table_inv_def)

text \<open>
  C26. \<open>Shutdown\<close> closes what it lists: whatever the handlers do meanwhile, once it has
  returned \<open>Close\<close> has been called on every session that was in the table when it got
  the mutex, and it has released the mutex.
\<close>

theorem shutdown_closes_listed:
  assumes "srv_reach ids s" and "sr_shut s = SdReturned e" and "sr_listed s i = Some n"
  shows "sr_closed s n \<and> \<not> sr_locked s"
  using shut_inv_reach [OF assms(1)] assms(2,3) by (auto simp: shut_inv_def lock_simps)

text \<open>Runs for the witnesses: a session is served; a server with one session is shut down.\<close>

definition some_ids :: "nat \<Rightarrow> string" where
  "some_ids n = replicate n CHR ''s''"

lemma inj_some_ids: "inj some_ids"
  by (simp add: inj_def some_ids_def)

definition served :: srv where
  "served = set_up 0 UpServing srv_new\<lparr>sr_table := [some_ids 0 \<mapsto> 0]\<rparr>"

lemma served_reach: "srv_reach some_ids served"
proof -
  let ?s1 = "set_up 0 UpAdd srv_new"
  have 0: "srv_reach some_ids srv_new" by (rule reach_init) simp
  have 1: "srv_step some_ids srv_new ?s1" by (intro srv_stepI up_run) (simp add: srv_new_def)
  have 2: "srv_step some_ids ?s1
      (set_up 0 UpServing ?s1\<lparr>sr_table := (sr_table ?s1)(some_ids 0 \<mapsto> 0)\<rparr>)"
    by (intro srv_stepI up_add) (simp_all add: srv_new_def srv_updates)
  from reach_step [OF reach_step [OF 0 1] 2] show ?thesis
    by (simp add: served_def srv_updates srv_new_def)
qed

definition shut_down :: "srv \<Rightarrow> srv" where
  "shut_down s = close_session 0 s\<lparr>sr_final := (sr_final s)(0 := True), sr_shut := SdReturned None, sr_listed := sr_table s\<rparr>"

lemma shut_down_run:
  assumes "sr_shut s = SdIdle" and "\<not> sr_locked s" and "sr_table s = [i \<mapsto> 0]" and "sr_up s 0 = UpServing"
  shows "(srv_step ids)\<^sup>*\<^sup>* s (shut_down s)"
proof -
  define s1 where "s1 = s\<lparr>sr_shut := SdLock\<rparr>"
  define s2 where "s2 = s1\<lparr>sr_locked := True, sr_shut := SdLoop [i], sr_listed := sr_table s1\<rparr>"
  define sc where "sc = close_session 0 s2\<lparr>sr_shut := SdClosing 0 []\<rparr>"
  define sf where "sf = sc\<lparr>sr_final := (sr_final sc)(0 := True)\<rparr>"
  define s3 where "s3 = sf\<lparr>sr_shut := SdLoop []\<rparr>"
  define s4 where "s4 = s3\<lparr>sr_shut := SdHttp\<rparr>"
  define s5 where "s5 = s4\<lparr>sr_shut := SdReturned None, sr_locked := False\<rparr>"
  note defs = s1_def s2_def sc_def sf_def s3_def s4_def s5_def srv_updates assms
  have 1: "srv_step ids s s1" unfolding s1_def by (intro srv_stepI sd_call) (simp add: defs)
  have 2: "srv_step ids s1 s2" unfolding s2_def by (intro srv_stepI sd_lock) (simp_all add: defs)
  have c: "srv_step ids s2 sc" unfolding sc_def
    by (intro srv_stepI sd_close [where i = i]) (simp_all add: defs)
  have f: "srv_step ids sc sf" unfolding sf_def by (intro srv_stepI ses_final) (simp add: defs)
  have 3: "srv_step ids sf s3" unfolding s3_def by (rule srv_stepI(2), rule sd_closed [where n = 0]) (simp_all add: defs)
  have 4: "srv_step ids s3 s4" unfolding s4_def by (intro srv_stepI sd_http) (simp add: defs)
  have 5: "srv_step ids s4 s5" unfolding s5_def by (intro srv_stepI sd_return) (simp add: defs)
  have "(srv_step ids)\<^sup>*\<^sup>* s s5"
    by (rule run_step [OF 1 run_step [OF 2 run_step [OF c run_step [OF f run_step [OF 3 run_step [OF 4
          r_into_rtranclp [of "srv_step ids", OF 5]]]]]]])
  moreover have "s5 = shut_down s" using assms(2) by (cases s) (simp add: defs shut_down_def)
  ultimately show ?thesis by simp
qed

theorem server_table_exact_witness: "sr_table served (some_ids 0) = Some 0 \<longleftrightarrow> serving (sr_up served 0)"
  using server_table_exact [OF inj_some_ids served_reach, of "some_ids 0" 0] by simp

theorem shutdown_closes_listed_witness: "sr_closed (shut_down served) 0 \<and> \<not> sr_locked (shut_down served)"
proof -
  have "(srv_step some_ids)\<^sup>*\<^sup>* served (shut_down served)"
    by (rule shut_down_run [where i = "some_ids 0"]) (simp_all add: served_def srv_new_def srv_updates)
  from shutdown_closes_listed [OF reach_rtranclp [OF served_reach this], of None "some_ids 0" 0]
  show ?thesis by (simp add: shut_down_def served_def srv_updates)
qed

text \<open>
  C39. \<open>Shutdown\<close> can miss a session: a handler that has started its session before
  \<open>Shutdown\<close> was called, but not yet entered it in the table, enters it after \<open>Shutdown\<close>
  has returned, and serves on; \<open>Close\<close> is never called on it.
\<close>

theorem shutdown_misses_late_session:
  "\<exists>s1 s2. srv_reach some_ids s1 \<and> sr_up s1 1 = UpAdd \<and> sr_shut s1 = SdIdle
     \<and> (srv_step some_ids)\<^sup>*\<^sup>* s1 s2 \<and> sr_shut s2 = SdReturned None \<and> sr_up s2 1 = UpServing
     \<and> sr_table s2 (some_ids 1) = Some 1 \<and> \<not> sr_closed s2 1"
proof -
  define s1 where "s1 = set_up 1 UpAdd served"
  define s2 where "s2 = shut_down s1"
  define s3 where "s3 = set_up 1 UpServing s2\<lparr>sr_table := (sr_table s2)(some_ids 1 \<mapsto> 1)\<rparr>"
  note defs = s1_def s2_def s3_def served_def shut_down_def srv_updates srv_new_def
  have 1: "srv_step some_ids served s1" unfolding s1_def
    by (intro srv_stepI up_run) (simp add: served_def srv_updates srv_new_def)
  have 2: "(srv_step some_ids)\<^sup>*\<^sup>* s1 s2" unfolding s2_def
    by (rule shut_down_run [where i = "some_ids 0"]) (simp_all add: s1_def served_def srv_updates srv_new_def)
  have 3: "srv_step some_ids s2 s3" unfolding s3_def
    by (intro srv_stepI up_add) (simp_all add: defs)
  have "(srv_step some_ids)\<^sup>*\<^sup>* s1 s3" using 2 3 by (rule rtranclp.rtrancl_into_rtrancl)
  with reach_step [OF served_reach 1] show ?thesis
    by (intro exI [of _ s1] exI [of _ s3]) (simp add: defs)
qed

end
