(* ===== verification/Refinement.thy ===== *)
theory Refinement
  imports Prelude
begin

section \<open>Refinement of an abstract step relation\<close>

text \<open>
  The interface of every refinement proof of the development: a step relation with an
  invariant, an abstraction of its states, and an abstract step relation that each
  concrete step either follows or leaves where it is. What holds of every reachable
  abstract state then holds of the abstraction of every reachable concrete one.
\<close>

locale simulation =
  fixes init :: "'s \<Rightarrow> bool"
    and stp :: "'s \<Rightarrow> 's \<Rightarrow> bool"
    and inv :: "'s \<Rightarrow> bool"
    and absf :: "'s \<Rightarrow> 'a"
    and ainit :: "'a \<Rightarrow> bool"
    and astp :: "'a \<Rightarrow> 'a \<Rightarrow> bool"
  assumes sim_init: "init s \<Longrightarrow> ainit (absf s)"
    and sim_inv: "reach init stp s \<Longrightarrow> inv s"
    and sim_step: "inv s \<Longrightarrow> stp s t \<Longrightarrow> absf t = absf s \<or> astp (absf s) (absf t)"
begin

lemma abs_reach: "reach init stp s \<Longrightarrow> reach ainit astp (absf s)"
proof (induction rule: reach.induct)
  case (reach_init s)
  then show ?case by (intro reach.reach_init sim_init)
next
  case (reach_step s t)
  from sim_step [OF sim_inv [OF reach_step.hyps(1)] reach_step.hyps(2)] reach_step.IH
  show ?case by (metis reach.reach_step)
qed

lemma refines:
  assumes "reach init stp s" and "stp s t"
  shows "reach ainit astp (absf s) \<and> (absf t = absf s \<or> astp (absf s) (absf t))"
  using abs_reach [OF assms(1)] sim_step [OF sim_inv [OF assms(1)] assms(2)] by blast

lemma abs_run: "stp\<^sup>*\<^sup>* s t \<Longrightarrow> reach init stp s \<Longrightarrow> astp\<^sup>*\<^sup>* (absf s) (absf t)"
proof (induction rule: converse_rtranclp_induct)
  case base
  then show ?case by simp
next
  case (step s u)
  from step.prems step.hyps(1) have "reach init stp u" by (rule reach.reach_step)
  with step.IH have "astp\<^sup>*\<^sup>* (absf u) (absf t)" by blast
  with sim_step [OF sim_inv [OF step.prems] step.hyps(1)] show ?case
    by (metis converse_rtranclp_into_rtranclp)
qed

lemma abs_holds: "(\<And>a. reach ainit astp a \<Longrightarrow> P a) \<Longrightarrow> reach init stp s \<Longrightarrow> P (absf s)"
  using abs_reach by blast

end

end
