(* ===== verification/LifeSpec.thy ===== *)
theory LifeSpec
  imports Lifecycle Refinement
begin

section \<open>What a session promises, and that its goroutines keep it\<close>

text \<open>
  The contract of \<open>NewSession\<close>, \<open>OnClose\<close>, \<open>Run\<close> and \<open>Close\<close> as a user of the package sees
  it: a session is started at most once; when it begins to stop, all close handlers
  registered by then are due; they run one after the other, in that order; the session has
  stopped only when none is left, and only then does \<open>Close\<close> return nil. The step relation
  of \<open>Lifecycle\<close> refines it: every step of a goroutine is a step of the contract or invisible.
\<close>

datatype phase = Unstarted | Refused | Running | Stopping | Stopped

record 'h promise =
  sp_phase :: phase
  sp_handlers :: "'h list"
  sp_due :: "'h list"
  sp_ran :: "'h list"
  sp_returned :: "nat set"

definition promise_new :: "'h \<Rightarrow> 'h promise" where
  "promise_new h0 = \<lparr>sp_phase = Unstarted, sp_handlers = [h0], sp_due = [], sp_ran = [], sp_returned = {}\<rparr>"

inductive promise_step :: "'h \<Rightarrow> 'h promise \<Rightarrow> 'h promise \<Rightarrow> bool" for ht where
  sp_register: "promise_step ht p (p\<lparr>sp_handlers := sp_handlers p @ [h]\<rparr>)"
| sp_refuse: "sp_phase p = Unstarted \<Longrightarrow> promise_step ht p (p\<lparr>sp_phase := Refused\<rparr>)"
| sp_start: "sp_phase p = Unstarted \<Longrightarrow>
    promise_step ht p (p\<lparr>sp_phase := Running, sp_handlers := sp_handlers p @ [ht]\<rparr>)"
| sp_begin_stop: "sp_phase p = Running \<Longrightarrow>
    promise_step ht p (p\<lparr>sp_phase := Stopping, sp_due := sp_handlers p\<rparr>)"
| sp_run_handler: "sp_phase p = Stopping \<Longrightarrow> sp_due p = sp_ran p @ h # hs \<Longrightarrow>
    promise_step ht p (p\<lparr>sp_ran := sp_ran p @ [h]\<rparr>)"
| sp_stop: "sp_phase p = Stopping \<Longrightarrow> sp_ran p = sp_due p \<Longrightarrow> promise_step ht p (p\<lparr>sp_phase := Stopped\<rparr>)"
| sp_return: "sp_phase p = Stopped \<Longrightarrow> promise_step ht p (p\<lparr>sp_returned := insert n (sp_returned p)\<rparr>)"

text \<open>What is visible of a session's state.\<close>

definition life_phase :: "'h life \<Rightarrow> phase" where
  "life_phase l = (case l_run l of RunNotCalled \<Rightarrow> Unstarted | RunRefused \<Rightarrow> Refused
     | RunStarted \<Rightarrow>
         if l_final l then Stopped
         else if l_closer l \<in> {CNotStarted, CSelect, CFinalize} then Running
         else Stopping)"

definition life_abs :: "'h life \<Rightarrow> 'h promise" where
  "life_abs l =
     \<lparr>sp_phase = life_phase l, sp_handlers = l_handlers l, sp_due = l_snapshot l, sp_ran = l_ran l,
      sp_returned = {n. l_pc l (Caller n) = ClosedOk}\<rparr>"

lemmas life_abs_defs = life_abs_def life_phase_def

lemma life_abs_new: "life_abs (life_new h0) = promise_new h0"
  by (simp add: life_abs_defs life_new_def promise_new_def)

text \<open>What is not visible: everything but registering, starting, running handlers, finishing and returning.\<close>

lemma life_abs_invisible [simp]:
  "life_abs (l\<lparr>l_once := x1\<rparr>) = life_abs l" "life_abs (l\<lparr>l_trigger := x2\<rparr>) = life_abs l"
  "life_abs (l\<lparr>l_ctx := x2\<rparr>) = life_abs l" "life_abs (l\<lparr>l_in_closed := x2\<rparr>) = life_abs l"
  "life_abs (l\<lparr>l_state := x3\<rparr>) = life_abs l" "life_abs (l\<lparr>l_begin := x6\<rparr>) = life_abs l"
  "life_abs (l\<lparr>l_reader := x7\<rparr>) = life_abs l" "life_abs (l\<lparr>l_done := x8\<rparr>) = life_abs l"
  "life_abs (l\<lparr>l_panicked := x2\<rparr>) = life_abs l"
  by (simp_all add: life_abs_defs)

lemma life_abs_set_pc: "p \<noteq> ClosedOk \<Longrightarrow> l_pc l t \<noteq> ClosedOk \<Longrightarrow> life_abs (set_pc t p l) = life_abs l"
  by (auto simp: life_abs_defs)

lemma life_abs_set_pc_Reader [simp]: "life_abs (set_pc Reader p l) = life_abs l"
  by (simp add: life_abs_defs)

text \<open>The closer's own steps.\<close>

lemma closer_simulation:
  assumes inv: "closer_inv l" and st: "closer_step l l'"
  shows "life_abs l' = life_abs l \<or> promise_step ht (life_abs l) (life_abs l')"
  using st
proof (cases rule: closer_step.cases)
  case ls_finalize
  then have "l_run l = RunStarted" "\<not> l_final l" using inv by (auto simp: closer_inv_def)
  with ls_finalize have "sp_phase (life_abs l) = Running"
    "life_abs l' = life_abs l\<lparr>sp_phase := Stopping, sp_due := sp_handlers (life_abs l)\<rparr>"
    by (simp_all add: life_abs_defs)
  then show ?thesis by (simp add: sp_begin_stop)
next
  case (ls_handled h hs)
  then have run: "l_run l = RunStarted" "\<not> l_final l" "l_ran l @ h # hs = l_snapshot l"
    using inv by (auto simp: closer_inv_def)
  have "sp_phase (life_abs l) = Stopping" "sp_due (life_abs l) = sp_ran (life_abs l) @ h # hs"
    "life_abs l' = life_abs l\<lparr>sp_ran := sp_ran (life_abs l) @ [h]\<rparr>"
    using run(1,2) run(3) [symmetric] ls_handled by (simp_all add: life_abs_defs)
  then show ?thesis using sp_run_handler [of "life_abs l" h hs ht] by simp
next
  case (ls_close_final b)
  then have run: "l_run l = RunStarted" "\<not> l_final l" "b" "l_ran l = l_snapshot l"
    using inv by (auto simp: closer_inv_def)
  then have "sp_phase (life_abs l) = Stopping" "sp_ran (life_abs l) = sp_due (life_abs l)"
    "life_abs l' = life_abs l\<lparr>sp_phase := Stopped\<rparr>"
    using ls_close_final by (simp_all add: life_abs_defs)
  then show ?thesis by (simp add: sp_stop)
qed (use inv in \<open>auto simp: life_abs_defs closer_inv_def split: run_call.split\<close>)

lemma life_simulation:
  assumes "life_inv h0 ht l" and "life_step ht l l'"
  shows "life_abs l' = life_abs l \<or> promise_step ht (life_abs l) (life_abs l')"
proof -
  have inv: "closer_inv l" "caller_inv l" using assms(1) by (simp_all add: life_inv_def)
  from assms(2) show ?thesis
  proof (cases rule: life_step.cases)
    case (ls_on_close h)
    then have "life_abs l' = life_abs l\<lparr>sp_handlers := sp_handlers (life_abs l) @ [h]\<rparr>" by (simp add: life_abs_defs)
    then show ?thesis by (simp add: sp_register)
  next
    case (ls_run_refused e c)
    then have "sp_phase (life_abs l) = Unstarted" "life_abs l' = life_abs l\<lparr>sp_phase := Refused\<rparr>"
      by (simp_all add: life_abs_defs)
    then show ?thesis by (simp add: sp_refuse)
  next
    case ls_run
    then have "\<not> l_final l" using inv(1) by (auto simp: closer_inv_def)
    with ls_run have "sp_phase (life_abs l) = Unstarted"
      "life_abs l' = life_abs l\<lparr>sp_phase := Running, sp_handlers := sp_handlers (life_abs l) @ [ht]\<rparr>"
      by (simp_all add: life_abs_defs)
    then show ?thesis by (simp add: sp_start)
  next
    case ls_closer
    then show ?thesis by (rule closer_simulation [OF inv(1)])
  next
    case (ls_return_ok n)
    then have "sp_phase (life_abs l) = Stopped"
      using inv(1) by (auto simp: life_abs_defs closer_inv_def split: run_call.split)
    moreover have "life_abs l' = life_abs l\<lparr>sp_returned := insert n (sp_returned (life_abs l))\<rparr>"
      using ls_return_ok by (auto simp: life_abs_defs)
    ultimately show ?thesis by (simp add: sp_return)
  qed (simp_all add: life_abs_set_pc)
qed

abbreviation promise_reach :: "'h \<Rightarrow> 'h \<Rightarrow> 'h promise \<Rightarrow> bool" where
  "promise_reach h0 ht \<equiv> reach (\<lambda>p. p = promise_new h0) (promise_step ht)"

interpretation session_sim: simulation "\<lambda>l. l = life_new h0" "life_step ht" "life_inv h0 ht" life_abs
    "\<lambda>p. p = promise_new h0" "promise_step ht" for h0 ht
  by unfold_locales (auto simp: life_abs_new life_reach_inv life_simulation)

text \<open>
  C12. The goroutines of a session refine its contract: whatever has happened, what is
  visible of the session is a state the contract can reach, and each further step of the
  closer, the reader, \<open>OnBegin\<close> or a caller of \<open>Close\<close> is a step of the contract or
  changes nothing visible. So a session stops once, after all the close handlers that were
  registered when it began to stop have run in order.
\<close>

theorem session_refines_promise:
  assumes "life_reach h0 ht l" and "life_step ht l l'"
  shows "promise_reach h0 ht (life_abs l)
    \<and> (life_abs l' = life_abs l \<or> promise_step ht (life_abs l) (life_abs l'))"
  by (rule session_sim.refines [OF assms])

text \<open>The contract itself: nil only from a stopped session, all of whose handlers have run.\<close>

lemma promise_inv:
  assumes "promise_reach h0 ht p"
  shows "(sp_returned p \<noteq> {} \<longrightarrow> sp_phase p = Stopped)
    \<and> (sp_phase p = Stopped \<longrightarrow> sp_ran p = sp_due p)
    \<and> (sp_phase p \<in> {Stopping, Stopped} \<longrightarrow> ht \<in> set (sp_due p))
    \<and> (sp_phase p = Running \<longrightarrow> ht \<in> set (sp_handlers p))
    \<and> prefix (sp_ran p) (sp_due p) \<and> prefix (sp_due p) (sp_handlers p)
    \<and> (sp_phase p \<notin> {Stopping, Stopped} \<longrightarrow> sp_due p = [] \<and> sp_ran p = [])"
  using assms
proof (induction rule: reach.induct)
  case (reach_step p q)
  from reach_step.hyps(2) reach_step.IH show ?case
    by cases (auto intro: prefix_order.trans)
qed (simp add: promise_new_def)

theorem session_refines_promise_witness:
  "\<exists>l l'. life_reach 0 1 l \<and> promise_reach 0 1 (life_abs l) \<and> life_step 1 l l'
     \<and> (life_abs l' = life_abs l \<or> promise_step 1 (life_abs l) (life_abs l'))
     \<and> sp_phase (life_abs l) = Running \<and> sp_phase (life_abs l') = Stopping \<and> sp_due (life_abs l') = [0 :: nat, 1]"
proof -
  let ?l = "closing_run\<lparr>l_closer := CFinalize\<rparr>"
  let ?l' = "?l\<lparr>l_state := SessionStateClosing, l_closer := CRun (l_handlers ?l), l_snapshot := l_handlers ?l\<rparr>"
  have "closer_step closing_run ?l" by (rule ls_select) (simp_all add: closing_run_def)
  then have "life_step 1 closing_run ?l" by (rule ls_closer)
  with closing_run_reach have r: "life_reach 0 1 ?l" by (rule reach_step)
  have "closer_step ?l ?l'" by (rule ls_finalize) simp
  then have st: "life_step 1 ?l ?l'" by (rule ls_closer)
  have "sp_phase (life_abs ?l) = Running" "sp_phase (life_abs ?l') = Stopping" "sp_due (life_abs ?l') = [0, 1]"
    by (simp_all add: life_abs_defs closing_run_def life_new_def)
  with session_refines_promise [OF r st] r st show ?thesis by blast
qed

end
