(* ===== verification/Rpc.thy ===== *)
theory Rpc
  imports Hops Direct
begin

section \<open>Two sessions and their concurrent calls\<close>

text \<open>
  The whole of a request between two peers: any number of goroutines of each peer call
  \<open>Session.Request\<close>, the reader of each starts a goroutine for every message it parses
  (\<open>go s.handleIncomingMessage\<close>), and those run in any order, while the transports move
  on. Sending, waiting, handling and the table of pending requests are the session's own
  functions; what the transports may do is the locale \<open>network\<close>.
\<close>

datatype call =
    NotMade
  | Registered Request pendingRequest
  | Awaiting Request pendingRequest
  | Returned Request "goerr + Response"

record ('tr, 'u) node =
  nd_sess :: "('tr, 'u) session_scheme"
  nd_calls :: "nat \<Rightarrow> call"
  nd_jobs :: "nat \<Rightarrow> message option"

definition set_transport :: "'tr \<Rightarrow> ('tr, 'u) node \<Rightarrow> ('tr, 'u) node" where
  "set_transport t n = n\<lparr>nd_sess := (nd_sess n)\<lparr>s_transport := Some t\<rparr>\<rparr>"

text \<open>
  One step of a peer; \<open>ids\<close> gives the fresh ID of each of its calls, \<open>b\<close> is the other peer's
  transport. \<open>deliver b a p a'\<close>: the transport \<open>a\<close> hands the package \<open>p\<close> to the reader;
  \<open>move b a a'\<close>: it does something else. A step that panics is not a step: the process is
  gone; one that blocks comes later.
\<close>

inductive node_step ::
    "('tr, ('tr, 'u) session_scheme) env \<Rightarrow> ('tr, 'u) session_scheme SessionHandler
       \<Rightarrow> (nat \<Rightarrow> string) \<Rightarrow> ('tr \<Rightarrow> 'tr \<Rightarrow> 'tr \<Rightarrow> bool) \<Rightarrow> ('tr \<Rightarrow> 'tr \<Rightarrow> DataPackage \<Rightarrow> 'tr \<Rightarrow> bool) \<Rightarrow> 'tr
       \<Rightarrow> ('tr, 'u) node \<Rightarrow> ('tr, 'u) node \<Rightarrow> bool"
  for env h ids move deliver b where
  nd_register: "nd_calls n k = NotMade \<Longrightarrow> newPendingRequest (ids k) (s_pending (nd_sess n)) = (pr, p) \<Longrightarrow>
    node_step env h ids move deliver b n (n\<lparr>nd_sess := (nd_sess n)\<lparr>s_pending := p\<rparr>,
      nd_calls := (nd_calls n)(k := Registered (NewRequest (ids k) m x) pr)\<rparr>)"
| nd_send: "nd_calls n k = Registered req pr \<Longrightarrow> sendMessage env (MRequest req) (nd_sess n) = (Ret e, s) \<Longrightarrow>
    node_step env h ids move deliver b n (n\<lparr>nd_sess := s, nd_calls := (nd_calls n)(k :=
      (case e of Some err \<Rightarrow> Returned req (Inl (Wrap2 ErrRequestFailed err)) | None \<Rightarrow> Awaiting req pr))\<rparr>)"
| nd_await: "nd_calls n k = Awaiting req pr \<Longrightarrow>
    await_response (env\<lparr>others := id, ctx_done := (\<lambda>_. late)\<rparr>) req pr (nd_sess n) = (Ret r, s) \<Longrightarrow>
    node_step env h ids move deliver b n (n\<lparr>nd_sess := s, nd_calls := (nd_calls n)(k := Returned req r)\<rparr>)"
| nd_read: "s_transport (nd_sess n) = Some a \<Longrightarrow> deliver b a p a' \<Longrightarrow> nd_jobs n g = None \<Longrightarrow>
    receive_package now p = Ret (Some m) \<Longrightarrow>
    node_step env h ids move deliver b n ((set_transport a' n)\<lparr>nd_jobs := (nd_jobs n)(g \<mapsto> m)\<rparr>)"
| nd_invalid: "s_transport (nd_sess n) = Some a \<Longrightarrow> deliver b a p a' \<Longrightarrow> receive_package now p = Ret None \<Longrightarrow>
    node_step env h ids move deliver b n (set_transport a' n)"
| nd_job: "nd_jobs n g = Some m \<Longrightarrow> handleIncomingMessage env (Some h) m (nd_sess n) = (Ret (), s) \<Longrightarrow>
    node_step env h ids move deliver b n (n\<lparr>nd_sess := s, nd_jobs := (nd_jobs n)(g := None)\<rparr>)"
| nd_move: "s_transport (nd_sess n) = Some a \<Longrightarrow> move b a a' \<Longrightarrow> node_step env h ids move deliver b n (set_transport a' n)"

text \<open>Both peers; each has its environment, handler and IDs.\<close>

definition rpc_step ::
    "(side \<Rightarrow> ('tr, ('tr, 'u) session_scheme) env)
       \<Rightarrow> (side \<Rightarrow> ('tr, 'u) session_scheme SessionHandler) \<Rightarrow> (side \<Rightarrow> nat \<Rightarrow> string)
       \<Rightarrow> ('tr \<Rightarrow> 'tr \<Rightarrow> 'tr \<Rightarrow> bool) \<Rightarrow> ('tr \<Rightarrow> 'tr \<Rightarrow> DataPackage \<Rightarrow> 'tr \<Rightarrow> bool)
       \<Rightarrow> (side \<Rightarrow> ('tr, 'u) node) \<Rightarrow> (side \<Rightarrow> ('tr, 'u) node) \<Rightarrow> bool" where
  "rpc_step env h ids move deliver S S' \<longleftrightarrow> (\<exists>sd n b.
     s_transport (nd_sess (S (other_side sd))) = Some b
     \<and> node_step (env sd) (h sd) (ids sd) move deliver b (S sd) n \<and> S' = S(sd := n))"

definition rpc_start :: "('tr \<Rightarrow> 'tr \<Rightarrow> bool) \<Rightarrow> (side \<Rightarrow> ('tr, 'u) node) \<Rightarrow> bool" where
  "rpc_start start S \<longleftrightarrow>
     (\<forall>sd. s_pending (nd_sess (S sd)) = no_pendings \<and> nd_calls (S sd) = (\<lambda>_. NotMade) \<and> nd_jobs (S sd) = (\<lambda>_. None))
     \<and> (\<exists>a b. s_transport (nd_sess (S T1)) = Some a \<and> s_transport (nd_sess (S T2)) = Some b \<and> start a b)"

subsection \<open>What the transports of two peers promise\<close>

text \<open>
  \<open>written\<close> is what a transport has accepted for its peer. \<open>joint\<close> relates the two transports;
  what one delivers the other has accepted, in whatever order and however often.
\<close>

locale network = transport_write wr written
  for wr :: "wire \<Rightarrow> (goerr option, 'tr) io" and written :: "'tr \<Rightarrow> wire list" +
  fixes start :: "'tr \<Rightarrow> 'tr \<Rightarrow> bool"
    and joint :: "'tr \<Rightarrow> 'tr \<Rightarrow> bool"
    and move :: "'tr \<Rightarrow> 'tr \<Rightarrow> 'tr \<Rightarrow> bool"
    and deliver :: "'tr \<Rightarrow> 'tr \<Rightarrow> DataPackage \<Rightarrow> 'tr \<Rightarrow> bool"
  assumes started: "start a b \<Longrightarrow> joint a b \<and> written a = [] \<and> written b = []"
    and joint_sym: "joint a b \<Longrightarrow> joint b a"
    and joint_write: "joint a b \<Longrightarrow> wr f a = (Ret r, a') \<Longrightarrow> joint a' b"
    and joint_move: "joint a b \<Longrightarrow> move b a a' \<Longrightarrow> joint a' b \<and> written a' = written a"
    and joint_deliver: "joint a b \<Longrightarrow> deliver b a p a' \<Longrightarrow>
      joint a' b \<and> written a' = written a \<and> dp_Data p \<in> set (written b)"

text \<open>A run of writes and the frames it got accepted.\<close>

inductive sends :: "(wire \<Rightarrow> (goerr option, 'tr) io) \<Rightarrow> 'tr \<Rightarrow> wire list \<Rightarrow> 'tr \<Rightarrow> bool" for wr where
  sends_none: "sends wr t [] t"
| sends_ok: "wr f t = (Ret None, t1) \<Longrightarrow> sends wr t1 fs t2 \<Longrightarrow> sends wr t (f # fs) t2"
| sends_err: "wr f t = (Ret (Some e), t1) \<Longrightarrow> sends wr t1 fs t2 \<Longrightarrow> sends wr t fs t2"

lemma sends_append: "sends wr t fs t1 \<Longrightarrow> sends wr t1 gs t2 \<Longrightarrow> sends wr t (fs @ gs) t2"
  by (induction rule: sends.induct) (auto intro: sends.intros)

context network
begin

lemma sends_written: "sends wr t fs t' \<Longrightarrow> written t' = written t @ fs"
  by (induction rule: sends.induct) (auto dest: write_accepted write_refused)

lemma sends_joint: "sends wr a fs a' \<Longrightarrow> joint a b \<Longrightarrow> joint a' b"
  by (induction rule: sends.induct) (auto dest: joint_write)

end

text \<open>
  A call that is made, sent and answered without anything in between is \<open>Session.Request\<close>.
\<close>

lemma request_is_three_steps:
  assumes "fresh_ID env s = ids k" and "others env = id" and "ctx_done env = (\<lambda>_. late)"
    and "Session_Request env m x s = (Ret r, s')"
  shows "\<exists>req pr p e s1. newPendingRequest (ids k) (s_pending s) = (pr, p) \<and> req = NewRequest (ids k) m x
     \<and> sendMessage env (MRequest req) (s\<lparr>s_pending := p\<rparr>) = (Ret e, s1)
     \<and> (case e of Some err \<Rightarrow> r = Inl (Wrap2 ErrRequestFailed err) \<and> s' = s1
        | None \<Rightarrow> await_response (env\<lparr>others := id, ctx_done := (\<lambda>_. late)\<rparr>) req pr s1 = (Ret r, s'))"
proof -
  have env: "env\<lparr>others := id, ctx_done := (\<lambda>_. late)\<rparr> = env" using assms(2,3) by (cases env) simp
  obtain pr p where p: "newPendingRequest (ids k) (s_pending s) = (pr, p)" by fastforce
  have id: "req_ID (NewRequest (ids k) m x) = ids k" by (simp add: constructor_defs)
  show ?thesis
    using assms(4) p unfolding env
    by (auto simp: Session_Request_def assms(1) id bind_io_apply Let_def split: go.splits prod.splits option.splits)
qed

subsection \<open>What frames parse to\<close>

lemma response_frame:
  assumes "Response_Validate resp = Ret None" and "marshal_Response resp = Inr j"
    and "ParseValidMessage (wire_of_json j) = Ret (Inr m)"
  shows "m = received (MResponse resp)"
  using sent_message_parses [of "MResponse resp" j] assms by simp

lemma request_frame:
  assumes "Request_Validate req = Ret None" and "marshal_Request req = Inr j"
  shows "ParseValidMessage (wire_of_json j) = Ret (Inr (received (MRequest req)))"
  using sent_message_parses [of "MRequest req" j] assms by simp

lemma sendMessage_sends:
  assumes "tr_Write env = wr" and "s_transport s = Some t" and "sendMessage env m s = (Ret e, s')"
  shows "\<exists>fs t'. s_transport s' = Some t' \<and> sends wr t fs t' \<and>
    (fs = [] \<or> (\<exists>j. Validate m = Ret None \<and> marshal_message m = Inr j \<and> fs = [wire_of_json j]))"
proof (cases "\<exists>j. Validate m = Ret None \<and> marshal_message m = Inr j")
  case False
  with assms have "s' = s"
    by (auto simp: sendMessage_def bind_io_apply split: go.splits option.splits sum.splits)
  with assms(2) sends_none [of wr t] show ?thesis by auto
next
  case True
  then obtain j where j: "Validate m = Ret None" "marshal_message m = Inr j" by blast
  obtain t' where t': "wr (wire_of_json j) t = (Ret e, t')" "s_transport s' = Some t'"
    using assms by (auto simp: sendMessage_valid [OF j] write_transport_def split: prod.splits)
  show ?thesis
  proof (cases e)
    case None
    with t' j show ?thesis by (metis sends_none sends_ok)
  next
    case (Some err)
    with t' show ?thesis by (metis sends_none sends_err)
  qed
qed

lemma parsed_receivedAt: "ParseValidMessage w = Ret (Inr m) \<Longrightarrow> GetReceivedAt m = 0"
  by (auto simp: ParseValidMessage_def parseMessage_def constructor_defs bind_go_eq_Ret
      split: sum.splits if_splits option.splits)

subsection \<open>Handlers that answer what they were asked\<close>

text \<open>
  What a handler may write: handling a request, nothing that parses to a request, and
  no response but answers to that request, which \<open>ans\<close> describes; handling an event, no
  response. It leaves the table of pending requests alone.
\<close>

definition frame_answers :: "(Response \<Rightarrow> bool) \<Rightarrow> wire \<Rightarrow> bool" where
  "frame_answers P f \<longleftrightarrow> (\<forall>m. ParseValidMessage f = Ret (Inr m) \<longrightarrow>
     (case m of MRequest q \<Rightarrow> False | MResponse p \<Rightarrow> P p | MEvent e \<Rightarrow> True))"

definition writes_only ::
    "(wire \<Rightarrow> (goerr option, 'tr) io) \<Rightarrow> (Response \<Rightarrow> bool) \<Rightarrow> ('tr, 'u) session_scheme \<Rightarrow> ('tr, 'u) session_scheme \<Rightarrow> bool" where
  "writes_only wr P s s' \<longleftrightarrow> s_pending s' = s_pending s \<and>
     (\<forall>t. s_transport s = Some t \<longrightarrow>
        (\<exists>fs t'. s_transport s' = Some t' \<and> sends wr t fs t' \<and> list_all (frame_answers P) fs))"

definition answers_only ::
    "('tr, ('tr, 'u) session_scheme) env \<Rightarrow> ('tr, 'u) session_scheme SessionHandler
       \<Rightarrow> (Request \<Rightarrow> Response \<Rightarrow> bool) \<Rightarrow> bool" where
  "answers_only env h ans \<longleftrightarrow>
     (\<forall>q s s'. handleRequest env (Some h) q s = (Ret (), s') \<longrightarrow>
        writes_only (tr_Write env) (\<lambda>p. Response_ID p = req_ID q \<and> ans q p) s s') \<and>
     (\<forall>e s s'. handleEvent env (Some h) e s = (Ret (), s') \<longrightarrow> writes_only (tr_Write env) (\<lambda>p. False) s s')"

subsection \<open>The invariant\<close>

fun call_req :: "call \<Rightarrow> Request option" where
  "call_req NotMade = None"
| "call_req (Registered req pr) = Some req"
| "call_req (Awaiting req pr) = Some req"
| "call_req (Returned req r) = Some req"

fun call_handle :: "call \<Rightarrow> nat option" where
  "call_handle (Registered req pr) = Some (pr_ch pr)"
| "call_handle (Awaiting req pr) = Some (pr_ch pr)"
| "call_handle _ = None"

text \<open>A request as it arrives at the peer, up to its receive time.\<close>

definition arrived_as :: "Request \<Rightarrow> Request \<Rightarrow> bool" where
  "arrived_as req q \<longleftrightarrow> q\<lparr>receivedAt := 0\<rparr> = req\<lparr>receivedAt := 0, Params := received_any (Params req)\<rparr>"

definition asked :: "(nat \<Rightarrow> call) \<Rightarrow> Request \<Rightarrow> bool" where
  "asked C q \<longleftrightarrow> (\<exists>k req. call_req (C k) = Some req \<and> arrived_as req q)"

definition answered :: "(Request \<Rightarrow> Response \<Rightarrow> bool) \<Rightarrow> (nat \<Rightarrow> call) \<Rightarrow> Response \<Rightarrow> bool" where
  "answered ans C p \<longleftrightarrow> (\<exists>k req q. call_req (C k) = Some req \<and> arrived_as req q
     \<and> ans q (p\<lparr>receivedAt := 0\<rparr>) \<and> Response_ID p = req_ID req)"

definition calls_inv :: "(nat \<Rightarrow> string) \<Rightarrow> (nat \<Rightarrow> call) \<Rightarrow> pendings \<Rightarrow> bool" where
  "calls_inv ids C p \<longleftrightarrow> pendings_ok p
     \<and> (\<forall>k req. call_req (C k) = Some req \<longrightarrow> req_ID req = ids k)
     \<and> (\<forall>k a. call_handle (C k) = Some a \<longrightarrow> waits (ids k) a p)
     \<and> (\<forall>k k' a. call_handle (C k) = Some a \<longrightarrow> call_handle (C k') = Some a \<longrightarrow> k = k')"

text \<open>What a peer has got back, with \<open>ans\<close> the answers of the other one.\<close>

definition got_inv :: "(Request \<Rightarrow> Response \<Rightarrow> bool) \<Rightarrow> ('tr, 'u) node \<Rightarrow> bool" where
  "got_inv ans n \<longleftrightarrow>
     (\<forall>a. \<forall>r \<in> set (answer_in (s_pending (nd_sess n)) a). answered ans (nd_calls n) r)
     \<and> (\<forall>g r. nd_jobs n g = Some (MResponse r) \<longrightarrow> answered ans (nd_calls n) r)
     \<and> (\<forall>k req r. nd_calls n k = Returned req (Inr r) \<longrightarrow>
          answered ans (nd_calls n) r \<and> Response_ID r = req_ID req \<and> Error r = None)"

text \<open>What a peer works on and has written, with \<open>C\<close> the calls of the other one.\<close>

definition frame_inv :: "(Request \<Rightarrow> Response \<Rightarrow> bool) \<Rightarrow> (nat \<Rightarrow> call) \<Rightarrow> (nat \<Rightarrow> call) \<Rightarrow> wire \<Rightarrow> bool" where
  "frame_inv ans D C f \<longleftrightarrow> (\<forall>m. ParseValidMessage f = Ret (Inr m) \<longrightarrow>
     (case m of MRequest q \<Rightarrow> asked D q | MResponse p \<Rightarrow> answered ans C p | MEvent e \<Rightarrow> True))"

definition gave_inv ::
    "('tr \<Rightarrow> wire list) \<Rightarrow> (Request \<Rightarrow> Response \<Rightarrow> bool) \<Rightarrow> (nat \<Rightarrow> call) \<Rightarrow> ('tr, 'u) node \<Rightarrow> bool" where
  "gave_inv written ans C n \<longleftrightarrow>
     (\<forall>g q. nd_jobs n g = Some (MRequest q) \<longrightarrow> asked C q)
     \<and> (\<exists>t. s_transport (nd_sess n) = Some t \<and> list_all (frame_inv ans (nd_calls n) C) (written t))"

text \<open>Calls are only ever added, and keep their request.\<close>

lemma calls_grow: "node_step env h ids move deliver b n n' \<Longrightarrow> call_req (nd_calls n k) = Some req \<Longrightarrow>
    call_req (nd_calls n' k) = Some req"
  by (erule node_step.cases) (auto simp: set_transport_def split: option.split)

lemma asked_grow:
  "(\<And>k req. call_req (C k) = Some req \<Longrightarrow> call_req (C' k) = Some req) \<Longrightarrow> asked C q \<Longrightarrow> asked C' q"
  unfolding asked_def by blast

lemma answered_grow:
  "(\<And>k req. call_req (C k) = Some req \<Longrightarrow> call_req (C' k) = Some req) \<Longrightarrow> answered ans C p \<Longrightarrow> answered ans C' p"
  unfolding answered_def by blast

lemma frame_inv_grow:
  assumes "\<And>k req. call_req (C k) = Some req \<Longrightarrow> call_req (C' k) = Some req"
    and "\<And>k req. call_req (D k) = Some req \<Longrightarrow> call_req (D' k) = Some req"
  shows "frame_inv ans D C f \<Longrightarrow> frame_inv ans D' C' f"
  using asked_grow [of D D', OF assms(2)] answered_grow [of C C', OF assms(1)]
  unfolding frame_inv_def by (metis message.exhaust message.simps(10) message.simps(11) message.simps(12))

lemma gave_inv_grow:
  assumes "\<And>k req. call_req (C k) = Some req \<Longrightarrow> call_req (C' k) = Some req"
  shows "gave_inv written ans C n \<Longrightarrow> gave_inv written ans C' n"
  using asked_grow [of C C', OF assms] frame_inv_grow [of C C' "nd_calls n" "nd_calls n", OF assms]
  unfolding gave_inv_def by (blast intro: list.pred_mono_strong)

subsection \<open>The table while calls are made and answered\<close>

lemma take_ok:
  assumes "pendings_ok p" and "recv_chan (pr_chans p a) = Ret (y, c)"
  shows "pendings_ok (p\<lparr>pr_chans := (pr_chans p)(a := c)\<rparr>)"
proof -
  have "pendingRequests p j = Some pr \<Longrightarrow> pr_ch pr \<noteq> a" for j pr
    using pendings_ok_entry [OF assms(1), of j pr] assms(2) by (auto simp: recv_chan_def)
  with assms(1) show ?thesis by (auto simp: pendings_ok_def)
qed

lemma call_handle_req: "call_handle c = Some a \<Longrightarrow> \<exists>req. call_req c = Some req"
  by (cases c) auto

lemma calls_inv_register:
  assumes inv: "calls_inv ids C p" and "inj ids" and "C k = NotMade"
    and new: "newPendingRequest (ids k) p = (pr, p')"
  shows "calls_inv ids (C(k := Registered (NewRequest (ids k) m x) pr)) p'"
proof -
  have ok: "pendings_ok p" using inv by (simp add: calls_inv_def)
  have ok': "pendings_ok p'" using newPendingRequest_ok [OF ok, of "ids k"] new by simp
  have mine: "waits (ids k) (pr_ch pr) p'" using waits_new [OF ok new] .
  have other: "waits (ids k') a p'" "a \<noteq> pr_ch pr" if "k' \<noteq> k" "call_handle (C k') = Some a" for k' a
  proof -
    have w: "waits (ids k') a p" using inv that(2) by (simp add: calls_inv_def)
    have "ids k \<noteq> ids k'" using that(1) \<open>inj ids\<close> by (auto dest: injD)
    from waits_step [OF ps_register [OF this new] w] show "waits (ids k') a p'" .
    show "a \<noteq> pr_ch pr" using w new by (auto simp: waits_def newPendingRequest_def Let_def)
  qed
  show ?thesis
    using inv ok' mine other unfolding calls_inv_def
    by (auto simp: constructor_defs split: if_splits)
qed

text \<open>Any other change of the table that keeps every wait; a call may end with it.\<close>

lemma calls_inv_change:
  assumes inv: "calls_inv ids C p" and "pendings_ok p'"
    and "\<And>k' a. call_handle (C' k') = Some a \<Longrightarrow> waits (ids k') a p \<Longrightarrow> waits (ids k') a p'"
    and "\<And>k'. call_req (C' k') = call_req (C k')"
    and "\<And>k'. call_handle (C' k') = call_handle (C k') \<or> call_handle (C' k') = None"
  shows "calls_inv ids C' p'"
proof -
  have old: "call_handle (C' k') = Some a \<Longrightarrow> call_handle (C k') = Some a" for k' a
    using assms(5) [of k'] by auto
  show ?thesis
    unfolding calls_inv_def
  proof (intro conjI allI impI)
    show "pendings_ok p'" by (rule assms(2))
    show "call_req (C' k) = Some req \<Longrightarrow> req_ID req = ids k" for k req
      using inv assms(4) by (simp add: calls_inv_def)
    show "call_handle (C' k) = Some a \<Longrightarrow> waits (ids k) a p'" for k a
      using inv old assms(3) by (simp add: calls_inv_def)
    show "call_handle (C' k) = Some a \<Longrightarrow> call_handle (C' k') = Some a \<Longrightarrow> k = k'" for k k' a
      using inv old unfolding calls_inv_def by blast
  qed
qed

lemma await_cases:
  assumes "await_response (env\<lparr>others := id, ctx_done := (\<lambda>_. late)\<rparr>) req pr s = (Ret r, s')"
  obtains (gave_up) e where "r = Inl e" "s' = s\<lparr>s_pending := deletePendingRequest (req_ID req) (s_pending s)\<rparr>"
  | (took) resp c where "recv_chan (pr_chans (s_pending s) (pr_ch pr)) = Ret (Some resp, c)"
      "r = (case Error resp of Some e \<Rightarrow> Inl (ResponseErr e) | None \<Rightarrow> Inr resp)"
      "s' = s\<lparr>s_pending := (s_pending s)\<lparr>pr_chans := (pr_chans (s_pending s))(pr_ch pr := c)\<rparr>\<rparr>"
  using assms
  by (auto simp: await_response_def Let_def split: option.splits go.splits prod.splits)

lemma calls_inv_await:
  assumes inv: "calls_inv ids C (s_pending s)" and "inj ids" and k: "C k = Awaiting req pr"
    and run: "await_response (env\<lparr>others := id, ctx_done := (\<lambda>_. late)\<rparr>) req pr s = (Ret r, s')"
  shows "calls_inv ids (C(k := Returned req r)) (s_pending s')"
proof -
  let ?p = "s_pending s"
  have ok: "pendings_ok ?p" and id: "req_ID req = ids k"
    and uniq: "\<And>k' a. call_handle (C k') = Some a \<Longrightarrow> k' \<noteq> k \<Longrightarrow> a \<noteq> pr_ch pr"
    using inv k by (auto simp: calls_inv_def)
  have ne: "k' \<noteq> k \<Longrightarrow> ids k \<noteq> ids k'" for k' using \<open>inj ids\<close> by (auto dest: injD)
  have "pendings_ok (s_pending s') \<and> (\<forall>k' a. k' \<noteq> k \<longrightarrow> call_handle (C k') = Some a \<longrightarrow>
      waits (ids k') a ?p \<longrightarrow> waits (ids k') a (s_pending s'))"
    using run
  proof (cases rule: await_cases)
    case (gave_up e)
    have "waits (ids k') a ?p \<Longrightarrow> k' \<noteq> k \<Longrightarrow> waits (ids k') a (deletePendingRequest (ids k) ?p)" for k' a
      by (rule waits_step [OF ps_delete [OF ne]]) simp_all
    with delete_ok [OF ok, of "ids k"] show ?thesis by (simp add: gave_up id)
  next
    case (took resp c)
    have "waits (ids k') a ?p \<Longrightarrow> k' \<noteq> k \<Longrightarrow> call_handle (C k') = Some a \<Longrightarrow>
        waits (ids k') a (?p\<lparr>pr_chans := (pr_chans ?p)(pr_ch pr := c)\<rparr>)" for k' a
      by (rule waits_step [OF ps_take [OF uniq [symmetric] took(1)]]) simp_all
    with take_ok [OF ok took(1)] show ?thesis by (simp add: took(3))
  qed
  then show ?thesis
    by (intro calls_inv_change [OF inv]) (auto simp: k split: if_splits)
qed

lemma calls_inv_resolve:
  assumes inv: "calls_inv ids C p" and res: "resolvePendingRequest r p = Ret p'"
  shows "calls_inv ids C p'"
proof (rule calls_inv_change [OF inv])
  show "pendings_ok p'" using inv res by (auto simp: calls_inv_def intro: resolve_ok)
  show "waits i a p \<Longrightarrow> waits i a p'" for i a by (rule waits_step [OF ps_resolve [OF res]])
qed simp_all

end
