(* ===== verification/RpcSafe.thy ===== *)
theory RpcSafe
  imports Rpc
begin

section \<open>A call returns the answer to its own request\<close>

text \<open>
  The invariant of theory \<open>Rpc\<close> over every step of both peers, for any transports that keep
  the contract \<open>network\<close>, and what it says of a call that has returned.
\<close>

subsection \<open>Each step keeps the invariant\<close>

definition node_inv ::
    "('tr \<Rightarrow> wire list) \<Rightarrow> (nat \<Rightarrow> string) \<Rightarrow> (Request \<Rightarrow> Response \<Rightarrow> bool) \<Rightarrow> (Request \<Rightarrow> Response \<Rightarrow> bool) \<Rightarrow> (nat \<Rightarrow> call)
       \<Rightarrow> ('tr, 'u) node \<Rightarrow> bool" where
  "node_inv written ids ans theirs C n \<longleftrightarrow>
     calls_inv ids (nd_calls n) (s_pending (nd_sess n)) \<and> got_inv theirs n \<and> gave_inv written ans C n"

text \<open>A change of one call and the session that adds no answer and no frame.\<close>

lemma got_inv_change:
  assumes "got_inv ans n"
    and grow: "\<And>j req. call_req (nd_calls n j) = Some req \<Longrightarrow> call_req (nd_calls n' j) = Some req"
    and "\<And>a r. r \<in> set (answer_in (s_pending (nd_sess n')) a) \<Longrightarrow>
      r \<in> set (answer_in (s_pending (nd_sess n)) a) \<or> answered ans (nd_calls n') r"
    and "\<And>g r. nd_jobs n' g = Some (MResponse r) \<Longrightarrow>
      nd_jobs n g = Some (MResponse r) \<or> answered ans (nd_calls n') r"
    and "\<And>k req r. nd_calls n' k = Returned req (Inr r) \<Longrightarrow> nd_calls n k = Returned req (Inr r)
      \<or> answered ans (nd_calls n') r \<and> Response_ID r = req_ID req \<and> Error r = None"
  shows "got_inv ans n'"
  unfolding got_inv_def
proof (intro conjI allI ballI impI)
  note up = answered_grow [of "nd_calls n" "nd_calls n'", OF grow]
  show "answered ans (nd_calls n') r" if "r \<in> set (answer_in (s_pending (nd_sess n')) a)" for a r
    using assms(1) assms(3) [OF that] up unfolding got_inv_def by blast
  show "answered ans (nd_calls n') r" if "nd_jobs n' g = Some (MResponse r)" for g r
    using assms(1) assms(4) [OF that] up unfolding got_inv_def by blast
  show "answered ans (nd_calls n') r" "Response_ID r = req_ID req" "Error r = None"
    if "nd_calls n' k = Returned req (Inr r)" for k req r
    using assms(1) assms(5) [OF that] up unfolding got_inv_def by blast+
qed

lemma gave_inv_change:
  assumes inv: "gave_inv written ans C n"
    and grow: "\<And>j req. call_req (nd_calls n j) = Some req \<Longrightarrow> call_req (nd_calls n' j) = Some req"
    and jobs: "\<And>g q. nd_jobs n' g = Some (MRequest q) \<Longrightarrow> nd_jobs n g = Some (MRequest q) \<or> asked C q"
    and tr: "\<And>t. s_transport (nd_sess n) = Some t \<Longrightarrow>
      \<exists>t' fs. s_transport (nd_sess n') = Some t' \<and> written t' = written t @ fs
        \<and> list_all (frame_inv ans (nd_calls n') C) fs"
  shows "gave_inv written ans C n'"
proof -
  obtain t where t: "s_transport (nd_sess n) = Some t" "list_all (frame_inv ans (nd_calls n) C) (written t)"
    using inv unfolding gave_inv_def by blast
  obtain t' fs where fs: "s_transport (nd_sess n') = Some t'" "written t' = written t @ fs"
      "list_all (frame_inv ans (nd_calls n') C) fs"
    using tr [OF t(1)] by blast
  have "list_all (frame_inv ans (nd_calls n') C) (written t)"
    using t(2) frame_inv_grow [of C C "nd_calls n" "nd_calls n'", OF _ grow] by (auto elim: list.pred_mono_strong)
  with fs inv jobs show ?thesis unfolding gave_inv_def by auto
qed

lemma arrived_as_received: "arrived_as req (req\<lparr>receivedAt := t, Params := received_any (Params req)\<rparr>)"
  by (simp add: arrived_as_def)

lemma asked_receivedAt [simp]: "asked C (q\<lparr>receivedAt := t\<rparr>) \<longleftrightarrow> asked C q"
  by (simp add: asked_def arrived_as_def)

lemma answered_receivedAt [simp]: "answered ans C (p\<lparr>receivedAt := t\<rparr>) \<longleftrightarrow> answered ans C p"
  by (simp add: answered_def)

lemma received_package_frame:
  assumes "receive_package now \<lparr>dp_Data = f, dp_ReceivedAt = t\<rparr> = Ret (Some m)"
  obtains m0 t' where "ParseValidMessage f = Ret (Inr m0)" "m = SetReceivedAt t' m0"
proof -
  obtain x where x: "ParseValidMessage f = Ret x"
    using assms by (auto simp: receive_package_def bind_go_eq_Ret)
  show ?thesis
    using assms that by (cases x) (auto simp: receive_package_def x)
qed

lemma arrived_as_ID: "arrived_as req q \<Longrightarrow> req_ID q = req_ID req"
  unfolding arrived_as_def by (drule arg_cong [where f = req_ID]) simp

lemma frame_inv_answers:
  assumes "frame_answers (\<lambda>p. Response_ID p = req_ID q \<and> ans q p) f" and "asked C q"
  shows "frame_inv ans D C f"
  unfolding frame_inv_def
proof (intro allI impI)
  fix m assume m: "ParseValidMessage f = Ret (Inr m)"
  obtain k req where req: "call_req (C k) = Some req" "arrived_as req q"
    using assms(2) unfolding asked_def by blast
  have id: "req_ID q = req_ID req" using req(2) by (rule arrived_as_ID)
  show "case m of MRequest q \<Rightarrow> asked D q | MResponse p \<Rightarrow> answered ans C p | MEvent e \<Rightarrow> True"
  proof (cases m)
    case (MResponse p)
    have "receivedAt p = 0" using parsed_receivedAt [OF m] MResponse by simp
    then have "p\<lparr>receivedAt := 0\<rparr> = p" by (cases p) simp
    moreover have "Response_ID p = req_ID q \<and> ans q p" using assms(1) m MResponse by (auto simp: frame_answers_def)
    ultimately have "answered ans C p" unfolding answered_def using req id by (metis (no_types))
    then show ?thesis by (simp add: MResponse)
  qed (use assms(1) m in \<open>auto simp: frame_answers_def\<close>)
qed

lemma node_inv_register:
  assumes inv: "node_inv written ids ans theirs C n" and "inj ids" and k: "nd_calls n k = NotMade"
    and new: "newPendingRequest (ids k) (s_pending (nd_sess n)) = (pr, p)"
  shows "node_inv written ids ans theirs C (n\<lparr>nd_sess := (nd_sess n)\<lparr>s_pending := p\<rparr>,
      nd_calls := (nd_calls n)(k := Registered (NewRequest (ids k) m x) pr)\<rparr>)" (is "node_inv _ _ _ _ _ ?n")
proof -
  have calls: "calls_inv ids (nd_calls n) (s_pending (nd_sess n))" and got: "got_inv theirs n"
    and gave: "gave_inv written ans C n" using inv by (simp_all add: node_inv_def)
  have grow: "call_req (nd_calls n j) = Some req \<Longrightarrow> call_req (nd_calls ?n j) = Some req" for j req
    by (auto simp: k)
  have ok: "pendings_ok (s_pending (nd_sess n))" using calls by (simp add: calls_inv_def)
  have reg: "register_request (ids k) (s_pending (nd_sess n)) = (pr_ch pr, p)"
    using new by (simp add: register_request_def)
  have "got_inv theirs ?n"
    by (rule got_inv_change [OF got grow]) (auto simp: pend.answer_register [OF ok reg] split: if_splits)
  moreover have "gave_inv written ans C ?n"
    by (rule gave_inv_change [OF gave grow]) simp_all
  ultimately show ?thesis
    using calls_inv_register [OF calls assms(2) k new] by (simp add: node_inv_def)
qed

lemma sent_request_frame:
  assumes "Validate (MRequest req) = Ret None" and "marshal_message (MRequest req) = Inr j" and "call_req (D k) = Some req"
  shows "frame_inv ans D C (wire_of_json j)"
proof -
  have "asked D (req\<lparr>receivedAt := 0, Params := received_any (Params req)\<rparr>)"
    unfolding asked_def using assms(3) arrived_as_received by blast
  then show ?thesis
    using request_frame [of req j] assms(1,2) by (simp add: frame_inv_def)
qed

context network
begin

lemma node_inv_send:
  assumes inv: "node_inv written ids ans theirs C n" and w: "tr_Write env = wr"
    and k: "nd_calls n k = Registered req pr"
    and run: "sendMessage env (MRequest req) (nd_sess n) = (Ret e, s)"
  shows "node_inv written ids ans theirs C (n\<lparr>nd_sess := s, nd_calls := (nd_calls n)(k :=
      (case e of Some err \<Rightarrow> Returned req (Inl (Wrap2 ErrRequestFailed err)) | None \<Rightarrow> Awaiting req pr))\<rparr>)"
    (is "node_inv _ _ _ _ _ ?n")
proof -
  have calls: "calls_inv ids (nd_calls n) (s_pending (nd_sess n))" and got: "got_inv theirs n"
    and gave: "gave_inv written ans C n" using inv by (simp_all add: node_inv_def)
  have grow: "call_req (nd_calls n j) = Some req' \<Longrightarrow> call_req (nd_calls ?n j) = Some req'" for j req'
    by (auto simp: k split: option.split)
  have pend: "s_pending s = s_pending (nd_sess n)" using sendMessage_frame [OF run] by auto
  have "calls_inv ids (nd_calls ?n) (s_pending (nd_sess ?n))"
    by (rule calls_inv_change [OF calls])
      (use calls in \<open>auto simp: pend k calls_inv_def split: option.splits if_splits\<close>)
  moreover have "got_inv theirs ?n"
    by (rule got_inv_change [OF got grow]) (auto simp: pend split: if_splits option.splits)
  moreover have "gave_inv written ans C ?n"
  proof (rule gave_inv_change [OF gave grow])
    fix t assume t: "s_transport (nd_sess n) = Some t"
    obtain fs t' where t': "s_transport s = Some t'" "sends wr t fs t'"
      and fs: "fs = [] \<or> (\<exists>j. Validate (MRequest req) = Ret None \<and> marshal_message (MRequest req) = Inr j
        \<and> fs = [wire_of_json j])"
      using sendMessage_sends [OF w t run] by blast
    have k': "call_req (nd_calls ?n k) = Some req" by (simp split: option.split)
    have "frame_inv ans (nd_calls ?n) C f" if "f \<in> set fs" for f
      using that fs sent_request_frame [where D = "nd_calls ?n", OF _ _ k'] by (elim disjE exE conjE) simp_all
    then have "list_all (frame_inv ans (nd_calls ?n) C) fs" by (simp add: list_all_iff)
    with t'(1) sends_written [OF t'(2)]
    show "\<exists>t' fs. s_transport (nd_sess ?n) = Some t' \<and> written t' = written t @ fs
        \<and> list_all (frame_inv ans (nd_calls ?n) C) fs" by auto
  qed simp_all
  ultimately show ?thesis by (simp add: node_inv_def)
qed

lemma node_inv_await:
  assumes inv: "node_inv written ids ans theirs C n" and "inj ids" and k: "nd_calls n k = Awaiting req pr"
    and run: "await_response (env\<lparr>others := id, ctx_done := (\<lambda>_. late)\<rparr>) req pr (nd_sess n) = (Ret r, s)"
  shows "node_inv written ids ans theirs C (n\<lparr>nd_sess := s, nd_calls := (nd_calls n)(k := Returned req r)\<rparr>)"
    (is "node_inv _ _ _ _ _ ?n")
proof -
  have calls: "calls_inv ids (nd_calls n) (s_pending (nd_sess n))" and got: "got_inv theirs n"
    and gave: "gave_inv written ans C n" using inv by (simp_all add: node_inv_def)
  have grow: "call_req (nd_calls n j) = Some req' \<Longrightarrow> call_req (nd_calls ?n j) = Some req'" for j req'
    by (auto simp: k)
  have w: "waits (ids k) (pr_ch pr) (s_pending (nd_sess n))" "req_ID req = ids k"
    using calls k by (simp_all add: calls_inv_def)
  have buf: "x \<in> set (answer_in (s_pending s) a) \<Longrightarrow> x \<in> set (answer_in (s_pending (nd_sess n)) a)"
    and tr: "s_transport s = s_transport (nd_sess n)"
    and resp: "r = Inr x \<Longrightarrow> x \<in> set (answer_in (s_pending (nd_sess n)) (pr_ch pr)) \<and> Error x = None" for x a
    using run
    by (auto elim!: await_cases simp: answer_in_def deletePendingRequest_def recv_chan_def
        split: list.splits if_splits option.splits)
  have "got_inv theirs ?n"
  proof (rule got_inv_change [OF got grow])
    fix j req' x assume "nd_calls ?n j = Returned req' (Inr x)"
    then consider "nd_calls n j = Returned req' (Inr x)" | "req' = req" "r = Inr x" by (auto split: if_splits)
    then show "nd_calls n j = Returned req' (Inr x)
      \<or> answered theirs (nd_calls ?n) x \<and> Response_ID x = req_ID req' \<and> Error x = None"
    proof cases
      case 2
      have "answered theirs (nd_calls n) x" using resp [OF 2(2)] got unfolding got_inv_def by blast
      then have "answered theirs (nd_calls ?n) x"
        using answered_grow [of "nd_calls n" "nd_calls ?n", OF grow] by blast
      moreover have "Response_ID x = ids k" using w(1) resp [OF 2(2)] by (auto simp: waits_def)
      ultimately show ?thesis using resp [OF 2(2)] w(2) 2(1) by simp
    qed simp
  qed (use buf in simp_all)
  moreover have "gave_inv written ans C ?n"
    by (rule gave_inv_change [OF gave grow]) (simp_all add: tr)
  ultimately show ?thesis
    using calls_inv_await [OF calls assms(2) k run] by (simp add: node_inv_def)
qed

text \<open>The transport moves, or hands over a package.\<close>

lemma node_inv_transport:
  assumes inv: "node_inv written ids ans theirs C n" and a: "s_transport (nd_sess n) = Some a"
    and a': "written a' = written a"
  shows "node_inv written ids ans theirs C (set_transport a' n)" (is "node_inv _ _ _ _ _ ?n")
proof -
  have calls: "calls_inv ids (nd_calls n) (s_pending (nd_sess n))" and got: "got_inv theirs n"
    and gave: "gave_inv written ans C n" using inv by (simp_all add: node_inv_def)
  have "got_inv theirs ?n"
    by (rule got_inv_change [OF got]) (simp_all add: set_transport_def)
  moreover have "gave_inv written ans C ?n"
    by (rule gave_inv_change [OF gave]) (simp_all add: set_transport_def a a')
  ultimately show ?thesis using calls by (simp add: node_inv_def set_transport_def)
qed

lemma node_inv_job:
  assumes inv: "node_inv written ids ans theirs C n" and F: "frame_inv theirs C (nd_calls n) (dp_Data p)"
    and m: "receive_package now p = Ret (Some m)"
  shows "node_inv written ids ans theirs C (n\<lparr>nd_jobs := (nd_jobs n)(g \<mapsto> m)\<rparr>)" (is "node_inv _ _ _ _ _ ?n")
proof -
  have calls: "calls_inv ids (nd_calls n) (s_pending (nd_sess n))" and got: "got_inv theirs n"
    and gave: "gave_inv written ans C n" using inv by (simp_all add: node_inv_def)
  obtain m0 t' where m0: "ParseValidMessage (dp_Data p) = Ret (Inr m0)" "m = SetReceivedAt t' m0"
    using m received_package_frame [of now "dp_Data p" "dp_ReceivedAt p" m] by (cases p) auto
  have job: "case m0 of MRequest q \<Rightarrow> asked C q | MResponse p \<Rightarrow> answered theirs (nd_calls n) p | MEvent e \<Rightarrow> True"
    using F m0(1) unfolding frame_inv_def by blast
  have "got_inv theirs ?n"
    by (rule got_inv_change [OF got]) (use job in \<open>auto simp: m0(2) split: if_splits message.splits\<close>)
  moreover have "gave_inv written ans C ?n"
    by (rule gave_inv_change [OF gave]) (use job in \<open>auto simp: m0(2) split: if_splits message.splits\<close>)
  ultimately show ?thesis using calls by (simp add: node_inv_def)
qed

text \<open>A handler's run: it leaves the table alone and writes only what \<open>P\<close> allows.\<close>

lemma node_inv_wrote:
  assumes inv: "node_inv written ids ans theirs C n" and s: "writes_only wr P (nd_sess n) s"
    and P: "\<And>f. frame_answers P f \<Longrightarrow> frame_inv ans (nd_calls n) C f"
  shows "node_inv written ids ans theirs C (n\<lparr>nd_sess := s, nd_jobs := (nd_jobs n)(g := None)\<rparr>)" (is "node_inv _ _ _ _ _ ?n")
proof -
  have calls: "calls_inv ids (nd_calls n) (s_pending (nd_sess n))" and got: "got_inv theirs n"
    and gave: "gave_inv written ans C n" using inv by (simp_all add: node_inv_def)
  have pend: "s_pending s = s_pending (nd_sess n)" using s by (simp add: writes_only_def)
  have "got_inv theirs ?n"
    by (rule got_inv_change [OF got]) (auto simp: pend split: if_splits)
  moreover have "gave_inv written ans C ?n"
  proof (rule gave_inv_change [OF gave])
    fix t assume "s_transport (nd_sess n) = Some t"
    then obtain fs t' where t': "s_transport s = Some t'" "sends wr t fs t'" "list_all (frame_answers P) fs"
      using s unfolding writes_only_def by blast
    then show "\<exists>t' fs. s_transport (nd_sess ?n) = Some t' \<and> written t' = written t @ fs
        \<and> list_all (frame_inv ans (nd_calls ?n) C) fs"
      using P sends_written [OF t'(2)] by (auto elim: list.pred_mono_strong)
  qed (auto split: if_splits)
  ultimately show ?thesis using calls by (simp add: node_inv_def pend)
qed

lemma node_inv_resolved:
  assumes inv: "node_inv written ids ans theirs C n" and r: "answered theirs (nd_calls n) r"
    and run: "resolvePending r (nd_sess n) = (Ret (), s)"
  shows "node_inv written ids ans theirs C (n\<lparr>nd_sess := s, nd_jobs := (nd_jobs n)(g := None)\<rparr>)" (is "node_inv _ _ _ _ _ ?n")
proof -
  have calls: "calls_inv ids (nd_calls n) (s_pending (nd_sess n))" and got: "got_inv theirs n"
    and gave: "gave_inv written ans C n" using inv by (simp_all add: node_inv_def)
  obtain p where p: "resolvePendingRequest r (s_pending (nd_sess n)) = Ret p" "s = (nd_sess n)\<lparr>s_pending := p\<rparr>"
    using run by (auto simp: resolvePending_def split: go.splits)
  have ok: "pendings_ok (s_pending (nd_sess n))" using calls by (simp add: calls_inv_def)
  have buf: "x \<in> set (answer_in p a) \<Longrightarrow> x \<in> set (answer_in (s_pending (nd_sess n)) a) \<or> x = r" for x a
    using pend.answer_resolve [OF ok _ p(1)] pend.resolve_unknown [OF ok, of r] p(1)
    by (cases "waiting_on (s_pending (nd_sess n)) (Response_ID r)") (auto split: if_splits)
  have "got_inv theirs ?n"
    by (rule got_inv_change [OF got]) (use buf r in \<open>auto simp: p(2) split: if_splits\<close>)
  moreover have "gave_inv written ans C ?n"
    by (rule gave_inv_change [OF gave]) (auto simp: p(2) split: if_splits)
  ultimately show ?thesis using calls_inv_resolve [OF calls p(1)] by (simp add: node_inv_def p(2))
qed

lemma node_inv_step:
  assumes inv: "node_inv written ids ans theirs C n" and "inj ids" and w: "tr_Write env = wr"
    and h: "answers_only env h ans" and a: "s_transport (nd_sess n) = Some a" and ab: "joint a b"
    and F: "list_all (frame_inv theirs C (nd_calls n)) (written b)"
    and "node_step env h ids move deliver b n n'"
  shows "node_inv written ids ans theirs C n'"
  using assms(8)
proof cases
  case (nd_register k pr p m x)
  from node_inv_register [OF inv assms(2) nd_register(2,3)] show ?thesis unfolding nd_register(1) .
next
  case (nd_send k req pr e s)
  from node_inv_send [OF inv w nd_send(2,3)] show ?thesis unfolding nd_send(1) .
next
  case (nd_await k req pr late r s)
  from node_inv_await [OF inv assms(2) nd_await(2,3)] show ?thesis unfolding nd_await(1) .
next
  case (nd_read a1 p a' g now m)
  have a': "written a' = written a" "dp_Data p \<in> set (written b)"
    using joint_deliver [OF ab] nd_read(2,3) a by auto
  have "frame_inv theirs C (nd_calls n) (dp_Data p)" using F a'(2) by (simp add: list_all_iff)
  from node_inv_job [OF node_inv_transport [OF inv a a'(1)], of p now m g] this nd_read(5)
  show ?thesis unfolding nd_read(1) by (simp add: set_transport_def)
next
  case (nd_invalid a1 p a' now)
  have "written a' = written a" using joint_deliver [OF ab] nd_invalid(2,3) a by auto
  from node_inv_transport [OF inv a this] show ?thesis unfolding nd_invalid(1) .
next
  case (nd_move a1 a')
  have "written a' = written a" using joint_move [OF ab] nd_move(2,3) a by auto
  from node_inv_transport [OF inv a this] show ?thesis unfolding nd_move(1) .
next
  case (nd_job g m s)
  have gave: "gave_inv written ans C n" and got: "got_inv theirs n" using inv by (simp_all add: node_inv_def)
  show ?thesis
  proof (cases m)
    case (MEvent e)
    then have "writes_only wr (\<lambda>p. False) (nd_sess n) s" using nd_job(3) h w unfolding answers_only_def by simp
    then show ?thesis
      unfolding nd_job(1)
      by (rule node_inv_wrote [OF inv]) (auto simp: frame_answers_def frame_inv_def split: message.splits)
  next
    case (MRequest q)
    then have wo: "writes_only wr (\<lambda>p. Response_ID p = req_ID q \<and> ans q p) (nd_sess n) s"
      using nd_job(3) h w unfolding answers_only_def by simp
    have "asked C q" using gave nd_job(2) MRequest unfolding gave_inv_def by blast
    from node_inv_wrote [OF inv wo frame_inv_answers [OF _ this]] show ?thesis unfolding nd_job(1) .
  next
    case (MResponse r)
    have "answered theirs (nd_calls n) r" using got nd_job(2) MResponse unfolding got_inv_def by blast
    from node_inv_resolved [OF inv this] nd_job(3) MResponse show ?thesis unfolding nd_job(1) by simp
  qed
qed

text \<open>The transport of a peer stays related to the other one's.\<close>

lemma sendMessage_joint:
  assumes "tr_Write env = wr" and "s_transport s = Some a" and "joint a b" and "sendMessage env m s = (Ret e, s')"
  shows "\<exists>a'. s_transport s' = Some a' \<and> joint a' b"
  using sendMessage_sends [OF assms(1,2,4)] sends_joint [OF _ assms(3)] by blast

lemma writes_only_joint:
  "writes_only wr P s s' \<Longrightarrow> s_transport s = Some a \<Longrightarrow> joint a b \<Longrightarrow> \<exists>a'. s_transport s' = Some a' \<and> joint a' b"
  unfolding writes_only_def using sends_joint by blast

lemma node_step_joint:
  assumes w: "tr_Write env = wr" and h: "answers_only env h ans" and a: "s_transport (nd_sess n) = Some a"
    and ab: "joint a b" and "node_step env h ids move deliver b n n'"
  shows "\<exists>a'. s_transport (nd_sess n') = Some a' \<and> joint a' b"
  using assms(5)
proof cases
  case (nd_send k req pr e s)
  from sendMessage_joint [OF w a ab nd_send(3)] show ?thesis unfolding nd_send(1) by simp
next
  case (nd_await k req pr late r s)
  from nd_await(3) have "s_transport s = s_transport (nd_sess n)" by (rule await_cases) simp_all
  with a ab show ?thesis unfolding nd_await(1) by simp
next
  case (nd_job g m s)
  then show ?thesis
  proof (cases m)
    case (MEvent e)
    then have "writes_only wr (\<lambda>p. False) (nd_sess n) s" using nd_job(3) h w unfolding answers_only_def by simp
    from writes_only_joint [OF this a ab] show ?thesis unfolding nd_job(1) by simp
  next
    case (MRequest q)
    then have "writes_only wr (\<lambda>p. Response_ID p = req_ID q \<and> ans q p) (nd_sess n) s"
      using nd_job(3) h w unfolding answers_only_def by simp
    from writes_only_joint [OF this a ab] show ?thesis unfolding nd_job(1) by simp
  next
    case (MResponse r)
    then have "s_transport s = s_transport (nd_sess n)"
      using nd_job(3) by (auto simp: resolvePending_def split: go.splits)
    with a ab show ?thesis unfolding nd_job(1) by simp
  qed
qed (use a ab joint_deliver [OF ab] joint_move [OF ab] in \<open>auto simp: set_transport_def\<close>)

end

subsection \<open>Both peers\<close>

definition rpc_inv ::
    "('tr \<Rightarrow> wire list) \<Rightarrow> ('tr \<Rightarrow> 'tr \<Rightarrow> bool) \<Rightarrow> (side \<Rightarrow> nat \<Rightarrow> string)
       \<Rightarrow> (side \<Rightarrow> Request \<Rightarrow> Response \<Rightarrow> bool) \<Rightarrow> (side \<Rightarrow> ('tr, 'u) node) \<Rightarrow> bool" where
  "rpc_inv written joint ids ans S \<longleftrightarrow>
     (\<forall>sd. node_inv written (ids sd) (ans sd) (ans (other_side sd)) (nd_calls (S (other_side sd))) (S sd))
     \<and> (\<exists>a b. s_transport (nd_sess (S T1)) = Some a \<and> s_transport (nd_sess (S T2)) = Some b \<and> joint a b)"

lemma other_other [simp]: "other_side (other_side sd) = sd"
  by (cases sd) simp_all

lemma other_ne: "sd' \<noteq> sd \<Longrightarrow> sd' = other_side sd"
  by (cases sd; cases sd') simp_all

lemma other_ne_self [simp]: "other_side sd \<noteq> sd" "sd \<noteq> other_side sd"
  by (cases sd; simp)+

lemma answer_in_no_pendings: "answer_in no_pendings a = []"
  by (simp add: answer_in_def no_pendings_def)

context network
begin

lemma rpc_inv_start:
  assumes "rpc_start start S"
  shows "rpc_inv written joint ids ans S"
proof -
  obtain a b where ab: "s_transport (nd_sess (S T1)) = Some a" "s_transport (nd_sess (S T2)) = Some b"
      "joint a b" "written a = []" "written b = []"
    using assms started unfolding rpc_start_def by blast
  have "\<exists>t. s_transport (nd_sess (S sd)) = Some t \<and> written t = []" for sd
    using ab by (cases sd) simp_all
  then have "node_inv written (ids sd) (ans sd) (ans (other_side sd)) (nd_calls (S (other_side sd))) (S sd)" for sd
    using assms by (fastforce simp: rpc_start_def node_inv_def calls_inv_def got_inv_def gave_inv_def
        answer_in_no_pendings)
  with ab(1-3) show ?thesis unfolding rpc_inv_def by blast
qed

lemma rpc_inv_joint:
  assumes "rpc_inv written joint ids ans S"
  obtains a b where "s_transport (nd_sess (S sd)) = Some a" "s_transport (nd_sess (S (other_side sd))) = Some b" "joint a b"
  using assms joint_sym unfolding rpc_inv_def by (cases sd) auto

lemma rpc_inv_step:
  assumes inv: "rpc_inv written joint ids ans S" and ids: "\<And>sd. inj (ids sd)" and w: "\<And>sd. tr_Write (env sd) = wr"
    and h: "\<And>sd. answers_only (env sd) (h sd) (ans sd)" and stp: "rpc_step env h ids move deliver S S'"
  shows "rpc_inv written joint ids ans S'"
proof -
  obtain sd n b where b: "s_transport (nd_sess (S (other_side sd))) = Some b"
    and n: "node_step (env sd) (h sd) (ids sd) move deliver b (S sd) n"
    and S': "S' = S(sd := n)" using stp unfolding rpc_step_def by blast
  obtain a where a: "s_transport (nd_sess (S sd)) = Some a" and ab: "joint a b"
    using rpc_inv_joint [OF inv, of sd] b by auto
  let ?C = "nd_calls (S (other_side sd))"
  have mine: "node_inv written (ids sd) (ans sd) (ans (other_side sd)) ?C (S sd)" using inv by (simp add: rpc_inv_def)
  have other: "node_inv written (ids (other_side sd)) (ans (other_side sd)) (ans sd) (nd_calls (S sd)) (S (other_side sd))"
    using inv unfolding rpc_inv_def by (metis other_other)
  have "gave_inv written (ans (other_side sd)) (nd_calls (S sd)) (S (other_side sd))" using other by (simp add: node_inv_def)
  then have F: "list_all (frame_inv (ans (other_side sd)) ?C (nd_calls (S sd))) (written b)"
    using b by (auto simp: gave_inv_def)
  have mine': "node_inv written (ids sd) (ans sd) (ans (other_side sd)) ?C n"
    by (rule node_inv_step [OF mine ids w h a ab F n])
  have "gave_inv written (ans (other_side sd)) (nd_calls n) (S (other_side sd))"
    using gave_inv_grow [of "nd_calls (S sd)" "nd_calls n"] calls_grow [OF n] other unfolding node_inv_def by blast
  then have other': "node_inv written (ids (other_side sd)) (ans (other_side sd)) (ans sd) (nd_calls n) (S (other_side sd))"
    using other by (simp add: node_inv_def)
  have "node_inv written (ids sd') (ans sd') (ans (other_side sd')) (nd_calls (S' (other_side sd'))) (S' sd')" for sd'
    using mine' other' other_ne [of sd' sd] by (cases "sd' = sd") (simp add: S', simp add: S')
  moreover obtain a' where "s_transport (nd_sess n) = Some a'" "joint a' b"
    using node_step_joint [OF w h a ab n] by blast
  then have "\<exists>a b. s_transport (nd_sess (S' T1)) = Some a \<and> s_transport (nd_sess (S' T2)) = Some b \<and> joint a b"
    using b joint_sym S' by (cases sd) auto
  ultimately show ?thesis unfolding rpc_inv_def by blast
qed

lemma rpc_inv_reach:
  assumes ids: "\<And>sd. inj (ids sd)" and w: "\<And>sd. tr_Write (env sd) = wr"
    and h: "\<And>sd. answers_only (env sd) (h sd) (ans sd)"
  shows "reach (rpc_start start) (rpc_step env h ids move deliver) S \<Longrightarrow> rpc_inv written joint ids ans S"
proof (induction rule: reach.induct)
  case (reach_init S)
  then show ?case by (rule rpc_inv_start)
next
  case (reach_step S S')
  from rpc_inv_step [OF reach_step.IH ids w h reach_step.hyps(2)] show ?case .
qed

text \<open>What a caller may conclude from a response.\<close>

lemma returned_own_answer:
  assumes ids: "\<And>sd. inj (ids sd)" and "\<And>sd. tr_Write (env sd) = wr"
    and "\<And>sd. answers_only (env sd) (h sd) (ans sd)"
    and "reach (rpc_start start) (rpc_step env h ids move deliver) S"
    and got: "nd_calls (S sd) k = Returned req (Inr resp)"
  shows "req_ID req = ids sd k \<and> Response_ID resp = ids sd k \<and> Error resp = None
    \<and> (\<exists>q. arrived_as req q \<and> ans (other_side sd) q (resp\<lparr>receivedAt := 0\<rparr>))"
proof -
  have "rpc_inv written joint ids ans S" by (rule rpc_inv_reach [OF assms(1-4)])
  then have calls: "calls_inv (ids sd) (nd_calls (S sd)) (s_pending (nd_sess (S sd)))"
    and g: "got_inv (ans (other_side sd)) (S sd)" by (simp_all add: rpc_inv_def node_inv_def)
  have id: "call_req (nd_calls (S sd) k') = Some r \<Longrightarrow> req_ID r = ids sd k'" for k' r
    using calls by (simp add: calls_inv_def)
  have req: "req_ID req = ids sd k" using id [of k] got by simp
  have resp: "Response_ID resp = req_ID req" "Error resp = None"
    and "answered (ans (other_side sd)) (nd_calls (S sd)) resp"
    using g got unfolding got_inv_def by blast+
  then obtain k' r q where r: "call_req (nd_calls (S sd) k') = Some r" "arrived_as r q"
      "ans (other_side sd) q (resp\<lparr>receivedAt := 0\<rparr>)" "Response_ID resp = req_ID r"
    unfolding answered_def by blast
  have "ids sd k' = ids sd k" using id [OF r(1)] r(4) resp(1) req by simp
  then have "k' = k" using ids [of sd] by (simp add: inj_eq)
  with r(1) got have "r = req" by simp
  with r req resp show ?thesis by auto
qed

end

end
