(* ===== verification/RpcCalls.thy ===== *)
theory RpcCalls
  imports RpcSafe Ping
begin

section \<open>Calls to typed handlers\<close>

text \<open>
  What the handlers that \<open>NewHandler\<close> dispatches to answer, and the guarantee a caller has:
  typed handlers without a reply hook, whose own code leaves the session alone, answer
  the request they were given, with their result or an error.
\<close>

text \<open>A response that reports an error, or the result \<open>R\<close> allows, as it arrives.\<close>

definition answers :: "(Request \<Rightarrow> any \<Rightarrow> bool) \<Rightarrow> Request \<Rightarrow> Response \<Rightarrow> bool" where
  "answers R q p \<longleftrightarrow> Error p \<noteq> None \<or> (\<exists>y. received (MResponse (Ok q y)) = MResponse p \<and> R q y)"

definition answers_request ::
    "('tr, ('tr, 'u) session_scheme) env \<Rightarrow> (Request \<Rightarrow> any \<Rightarrow> bool)
       \<Rightarrow> ('tr, 'u) session_scheme RequestHandler \<Rightarrow> bool" where
  "answers_request env R rh \<longleftrightarrow> (\<forall>q s e s'. Method q = rh_MethodName rh \<longrightarrow>
     rh_Handle rh (session_SHC env) q s = (Ret e, s') \<longrightarrow>
     writes_only (tr_Write env) (\<lambda>p. Response_ID p = req_ID q \<and> answers R q p) s s')"

lemma writes_only_refl [simp]: "writes_only wr P s s"
  using sends_none [of wr] by (auto simp: writes_only_def intro!: exI [of _ "[]"])

lemma writes_only_trans:
  assumes "writes_only wr P s s1" and "writes_only wr P s1 s2"
  shows "writes_only wr P s s2"
  unfolding writes_only_def
proof (intro conjI allI impI)
  show "s_pending s2 = s_pending s" using assms by (simp add: writes_only_def)
  fix t assume "s_transport s = Some t"
  then obtain fs t1 where t1: "s_transport s1 = Some t1" "sends wr t fs t1" "list_all (frame_answers P) fs"
    using assms(1) unfolding writes_only_def by blast
  then obtain gs t2 where "s_transport s2 = Some t2" "sends wr t1 gs t2" "list_all (frame_answers P) gs"
    using assms(2) unfolding writes_only_def by blast
  with t1 sends_append [OF t1(2), of gs t2]
  show "\<exists>fs t'. s_transport s2 = Some t' \<and> sends wr t fs t' \<and> list_all (frame_answers P) fs"
    by (intro exI [of _ "fs @ gs"] exI [of _ t2]) simp
qed

lemma writes_only_quiet:
  "s_pending s1 = s_pending s \<Longrightarrow> s_transport s1 = s_transport s \<Longrightarrow> writes_only wr P s s1"
  using sends_none [of wr] by (auto simp: writes_only_def intro!: exI [of _ "[]"])

lemma writes_response:
  assumes run: "sendMessage env (MResponse p) s = (Ret e, s')"
    and P: "\<And>p'. received (MResponse p) = MResponse p' \<Longrightarrow> P p'"
  shows "writes_only (tr_Write env) P s s'"
  unfolding writes_only_def
proof (intro conjI allI impI)
  show "s_pending s' = s_pending s" using sendMessage_frame [OF run] by auto
  fix t assume t: "s_transport s = Some t"
  obtain fs t' where fs: "s_transport s' = Some t'" "sends (tr_Write env) t fs t'"
    "fs = [] \<or> (\<exists>j. Validate (MResponse p) = Ret None \<and> marshal_message (MResponse p) = Inr j \<and> fs = [wire_of_json j])"
    using sendMessage_sends [OF refl t run] by blast
  have "frame_answers P f" if "f \<in> set fs" for f
    using that fs(3) response_frame [of p] P by (fastforce simp: frame_answers_def)
  then have "list_all (frame_answers P) fs" by (simp add: list_all_iff)
  with fs show "\<exists>fs t'. s_transport s' = Some t' \<and> sends (tr_Write env) t fs t' \<and> list_all (frame_answers P) fs"
    by blast
qed

lemma writes_error:
  "sendMessage env (MResponse (NotOk q err)) s = (Ret e, s') \<Longrightarrow>
   writes_only (tr_Write env) (\<lambda>p. Response_ID p = req_ID q \<and> answers R q p) s s'"
  by (erule writes_response) (auto simp: answers_def constructor_defs)

lemma writes_result:
  "R q y \<Longrightarrow> sendMessage env (MResponse (Ok q y)) s = (Ret e, s') \<Longrightarrow>
   writes_only (tr_Write env) (\<lambda>p. Response_ID p = req_ID q \<and> answers R q p) s s'"
  by (rule writes_response) (auto simp: answers_def constructor_defs)

subsection \<open>One typed handler\<close>

text \<open>The handler's own code neither sends nor touches the table.\<close>

definition quiet ::
    "('tr, ('tr, 'u) session_scheme) env \<Rightarrow> ('req, 'res, ('tr, 'u) session_scheme) typedRequestHandler \<Rightarrow> bool" where
  "quiet env th \<longleftrightarrow> (\<forall>q x s r s'. th_h th q (session_SHC env) x s = (Ret r, s') \<longrightarrow>
     s_pending s' = s_pending s \<and> s_transport s' = s_transport s)"

text \<open>The results the handler's code computes for a request.\<close>

definition computes ::
    "('tr, ('tr, 'u) session_scheme) env \<Rightarrow> ('req, 'res, ('tr, 'u) session_scheme) typedRequestHandler
       \<Rightarrow> Request \<Rightarrow> any \<Rightarrow> bool" where
  "computes env th q y \<longleftrightarrow> (\<exists>raw x s res s'. marshal_any (Params q) = Inr raw
     \<and> rt_Unmarshal (th_type th) raw = Inr x \<and> validate_params (th_type th) x = Ret None
     \<and> th_h th q (session_SHC env) x s = (Ret (Inr res), s') \<and> y = th_res th res)"

lemma handler_result_quiet:
  assumes "quiet env th" and "handler_result th (session_SHC env) q s = (Ret r, s')"
  shows "s_pending s' = s_pending s \<and> s_transport s' = s_transport s
    \<and> (\<forall>x y. r = Inr (x, y) \<longrightarrow> computes env th q y)"
proof (cases "\<exists>raw x. marshal_any (Params q) = Inr raw \<and> rt_Unmarshal (th_type th) raw = Inr x
    \<and> validate_params (th_type th) x = Ret None")
  case False
  have b: "bind_res (marshal_any (Params q)) Inr = marshal_any (Params q)"
    by (cases "marshal_any (Params q)") simp_all
  from False assms(2) show ?thesis
    by (auto simp: handler_result_def b bind_io_apply split: sum.splits go.splits option.splits)
next
  case True
  then obtain raw x where d: "marshal_any (Params q) = Inr raw" "rt_Unmarshal (th_type th) raw = Inr x"
      "validate_params (th_type th) x = Ret None" by blast
  obtain r1 s1 where run: "th_h th q (session_SHC env) x s = (Ret r1, s1)"
    using assms(2) by (auto simp: handler_result_def d bind_io_apply split: go.splits prod.splits)
  have s1: "s_pending s1 = s_pending s \<and> s_transport s1 = s_transport s"
    using assms(1) run unfolding quiet_def by blast
  have c: "r1 = Inr res \<Longrightarrow> computes env th q (th_res th res)" for res
    unfolding computes_def using d run by blast
  from assms(2) s1 c show ?thesis
    by (auto simp: handler_result_def d run bind_io_apply split: sum.splits go.splits option.splits)
qed

lemma typed_answers:
  assumes q: "quiet env th" and hook: "rt_OnAfterReply (th_type th) = None"
    and R: "\<And>r y. Method r = rt_MethodName (th_type th) \<Longrightarrow> computes env th r y \<Longrightarrow> R r y"
  shows "answers_request env R (HandleRequest th)"
  unfolding answers_request_def HandleRequest_name HandleRequest_Handle
proof (intro allI impI)
  fix r s e s'
  assume m: "Method r = rt_MethodName (th_type th)" and run: "Handle th (session_SHC env) r s = (Ret e, s')"
  obtain v s1 where v: "handler_result th (session_SHC env) r s = (Ret v, s1)"
    using run by (auto simp: Handle_split bind_io_apply split: go.splits prod.splits)
  note hr = handler_result_quiet [OF q v]
  have quiet: "writes_only (tr_Write env) (\<lambda>p. Response_ID p = req_ID r \<and> answers R r p) s s1"
    using hr by (simp add: writes_only_quiet)
  show "writes_only (tr_Write env) (\<lambda>p. Response_ID p = req_ID r \<and> answers R r p) s s'"
  proof (cases v)
    case (Inl err)
    with run v quiet show ?thesis by (simp add: Handle_split)
  next
    case (Inr px)
    obtain x y where px: "px = (x, y)" by fastforce
    have "R r y" using hr Inr px R [OF m] by blast
    moreover obtain e' where "sendMessage env (MResponse (Ok r y)) s1 = (Ret e', s')"
      using run v Inr px hook
      by (auto simp: Handle_split reply_and_hook_def bind_io_apply split: go.splits prod.splits option.splits)
    ultimately show ?thesis using writes_only_trans [OF quiet writes_result [where R = R]] by blast
  qed
qed

subsection \<open>A handler built by NewHandler\<close>

definition event_quiet ::
    "('tr, ('tr, 'u) session_scheme) env \<Rightarrow> ('tr, 'u) session_scheme EventHandler \<Rightarrow> bool" where
  "event_quiet env eh \<longleftrightarrow> (\<forall>e s r s'. eh_Handle eh (session_SHC env) e s = (Ret r, s') \<longrightarrow> writes_only (tr_Write env) (\<lambda>p. False) s s')"

fun arg_answers ::
    "('tr, ('tr, 'u) session_scheme) env \<Rightarrow> (Request \<Rightarrow> any \<Rightarrow> bool)
       \<Rightarrow> ('tr, 'u) session_scheme handler_arg \<Rightarrow> bool" where
  "arg_answers env R (ArgRequest rh) = answers_request env R rh"
| "arg_answers env R (ArgEvent eh) = event_quiet env eh"
| "arg_answers env R ArgOther = True"

lemma entry_sound:
  "(m, rh) \<in> set (request_entry x) \<Longrightarrow> x = ArgRequest rh \<and> rh_MethodName rh = m"
  "(n, eh) \<in> set (event_entry x) \<Longrightarrow> x = ArgEvent eh \<and> eh_EventName eh = n"
  by (cases x; simp)+

lemma entries_sound:
  "map_of (rev (concat (map request_entry args))) m = Some rh \<Longrightarrow> ArgRequest rh \<in> set args \<and> rh_MethodName rh = m"
  "map_of (rev (concat (map event_entry args))) n = Some eh \<Longrightarrow> ArgEvent eh \<in> set args \<and> eh_EventName eh = n"
  by (drule map_of_SomeD, fastforce dest: entry_sound)+

lemma NewHandler_answers_only:
  assumes args: "list_all (arg_answers env R) args"
  shows "answers_only env (NewHandler b args) (answers R)"
  unfolding answers_only_def
proof (intro conjI allI impI)
  fix q s s' assume run: "handleRequest env (Some (NewHandler b args)) q s = (Ret (), s')"
  let ?P = "\<lambda>p. Response_ID p = req_ID q \<and> answers R q p"
  obtain e s1 where on: "OnRequest (NewHandler b args) (session_SHC env) q s = (Ret e, s1)"
    using run by (auto simp: handleRequest_def bind_io_apply split: go.splits prod.splits)
  have first: "writes_only (tr_Write env) ?P s s1"
  proof (cases "map_of (rev (concat (map request_entry args))) (Method q)")
    case None
    with on show ?thesis by (simp add: NewHandler_simps)
  next
    case (Some rh)
    with args have "answers_request env R rh" "Method q = rh_MethodName rh"
      using entries_sound(1) [OF Some] by (auto simp: list_all_iff)
    moreover have "rh_Handle rh (session_SHC env) q s = (Ret e, s1)" using on Some by (simp add: NewHandler_simps)
    ultimately show ?thesis unfolding answers_request_def by blast
  qed
  show "writes_only (tr_Write env) ?P s s'"
  proof (cases e)
    case None
    with run on first show ?thesis by (simp add: handleRequest_def)
  next
    case (Some err)
    obtain e' where "sendMessage env (MResponse (NotOk q (ToResponseError err))) s1 = (Ret e', s')"
      using run on Some by (auto simp: handleRequest_def bind_io_apply split: go.splits prod.splits)
    from writes_only_trans [OF first writes_error [OF this]] show ?thesis .
  qed
next
  fix e s s' assume run: "handleEvent env (Some (NewHandler b args)) e s = (Ret (), s')"
  obtain r where on: "OnEvent (NewHandler b args) (session_SHC env) e s = (Ret r, s')"
    using run by (auto simp: handleEvent_def bind_io_apply split: go.splits prod.splits)
  show "writes_only (tr_Write env) (\<lambda>p. False) s s'"
  proof (cases "map_of (rev (concat (map event_entry args))) (EventName e)")
    case None
    with on show ?thesis by (simp add: NewHandler_simps)
  next
    case (Some eh)
    with args have "event_quiet env eh" using entries_sound(2) [OF Some] by (auto simp: list_all_iff)
    moreover have "eh_Handle eh (session_SHC env) e s = (Ret r, s')" using on Some by (simp add: NewHandler_simps)
    ultimately show ?thesis unfolding event_quiet_def by blast
  qed
qed

end
