(* ===== verification/WsSpec.thy ===== *)
theory WsSpec
  imports WsTransport Refinement "HOL-Library.Multiset"
begin

section \<open>What the websocket transport promises about outgoing messages\<close>

text \<open>
  A message accepted into the queue is sent at most once: it is in the queue, in the
  hands of the sender or of a caller of \<open>Close\<close> that drains the queue, sent, or lost in a
  failed write. The order is kept only until \<open>Close\<close> is called, so the contract speaks of
  multisets, and the step relation of \<open>WsTransport\<close> refines it, whatever drains
  run concurrently.
\<close>

record outbox =
  ob_accepted :: "wsMessage multiset"
  ob_sent :: "wsMessage multiset"
  ob_lost :: "wsMessage multiset"
  ob_closed :: bool

definition outbox_new :: outbox where
  "outbox_new = \<lparr>ob_accepted = {#}, ob_sent = {#}, ob_lost = {#}, ob_closed = False\<rparr>"

definition undecided :: "outbox \<Rightarrow> wsMessage multiset" where
  "undecided b = ob_accepted b - (ob_sent b + ob_lost b)"

inductive outbox_step :: "outbox \<Rightarrow> outbox \<Rightarrow> bool" where
  ob_accept: "outbox_step b (b\<lparr>ob_accepted := add_mset m (ob_accepted b)\<rparr>)"
| ob_send: "m \<in># undecided b \<Longrightarrow> \<not> ob_closed b \<Longrightarrow> outbox_step b (b\<lparr>ob_sent := add_mset m (ob_sent b)\<rparr>)"
| ob_lose: "m \<in># undecided b \<Longrightarrow> outbox_step b (b\<lparr>ob_lost := add_mset m (ob_lost b)\<rparr>)"
| ob_close: "outbox_step b (b\<lparr>ob_closed := True\<rparr>)"

definition outbox_abs :: "ws \<Rightarrow> outbox" where
  "outbox_abs s = \<lparr>ob_accepted = mset (w_accepted s), ob_sent = mset (w_sent s), ob_lost = mset (w_lost s),
     ob_closed = w_conn_closed s\<rparr>"

subsection \<open>Messages in somebody's hands\<close>

fun drain_hand :: "close_pc \<Rightarrow> wsMessage multiset" where
  "drain_hand (ClDrainSend m) = {#m#}"
| "drain_hand _ = {#}"

definition busy :: "(closer \<Rightarrow> close_pc) \<Rightarrow> closer set" where
  "busy cl = {k. cl k \<noteq> ClIdle}"

definition drain_hands :: "(closer \<Rightarrow> close_pc) \<Rightarrow> wsMessage multiset" where
  "drain_hands cl = (\<Sum>k \<in> busy cl. drain_hand (cl k))"

lemma finite_busy: "finite (busy cl) \<Longrightarrow> finite (busy (cl(k := p)))"
  by (rule finite_subset [of _ "insert k (busy cl)"]) (auto simp: busy_def)

lemma drain_hands_over:
  assumes "finite S" and "busy cl \<subseteq> S"
  shows "drain_hands cl = (\<Sum>k \<in> S. drain_hand (cl k))"
  unfolding drain_hands_def using assms by (intro sum.mono_neutral_left) (auto simp: busy_def)

lemma drain_hands_upd:
  assumes "finite (busy cl)"
  shows "drain_hands (cl(k := p)) + drain_hand (cl k) = drain_hands cl + drain_hand p"
proof -
  let ?S = "insert k (busy cl)"
  have S: "finite ?S" "busy cl \<subseteq> ?S" "busy (cl(k := p)) \<subseteq> ?S" using assms by (auto simp: busy_def)
  have rest: "(\<Sum>j \<in> ?S - {k}. drain_hand ((cl(k := p)) j)) = (\<Sum>j \<in> ?S - {k}. drain_hand (cl j))"
    by (rule sum.cong) auto
  show ?thesis
    using drain_hands_over [OF S(1,2)] drain_hands_over [OF S(1,3)] rest
      sum.remove [OF S(1), of k "\<lambda>j. drain_hand (cl j)"]
      sum.remove [OF S(1), of k "\<lambda>j. drain_hand ((cl(k := p)) j)"] by simp
qed

definition hands_inv :: "ws \<Rightarrow> bool" where
  "hands_inv s \<longleftrightarrow> finite (busy (w_closers s))
     \<and> w_accepted s = w_taken s @ ch_buf (w_out s)
     \<and> mset (w_taken s) = mset (w_sent s) + mset (w_lost s) + mset (sender_hand (w_sender s))
         + drain_hands (w_closers s)"

text \<open>The sender calls \<open>Close\<close> at most once, as the last thing it does.\<close>

definition sender_inv :: "ws \<Rightarrow> bool" where
  "sender_inv s \<longleftrightarrow> (w_closers s SenderClose \<noteq> ClIdle \<longrightarrow> w_sender s = SeClosing \<or> w_sender s = SeExit)"

lemma sender_inv_step: "ws_step s s' \<Longrightarrow> sender_inv s \<Longrightarrow> sender_inv s'"
  unfolding ws_step_def
  by (elim disjE; erule writer_step.cases incoming_step.cases outgoing_step.cases close_step.cases main_step.cases)
     (auto simp: sender_inv_def ws_updates split: if_splits)

lemma hands_inv_new: "hands_inv (ws_new a)"
  by (simp add: hands_inv_def ws_new_def busy_def drain_hands_def)

lemma drain_hands_idle:
  "finite (busy cl) \<Longrightarrow> drain_hand (cl k) = {#} \<Longrightarrow> drain_hands (cl(k := p)) = drain_hands cl + drain_hand p"
  using drain_hands_upd [of cl k p] by simp

lemma drain_hands_put:
  "finite (busy cl) \<Longrightarrow> cl k = ClDrainSend m \<Longrightarrow> drain_hand p = {#} \<Longrightarrow>
   drain_hands cl = add_mset m (drain_hands (cl(k := p)))"
  using drain_hands_upd [of cl k p] by simp

text \<open>Finishing a drained message: it leaves the hand as sent or as lost.\<close>

lemma hands_inv_put:
  assumes "hands_inv s" and "w_closers s k = ClDrainSend m" and "drain_hand p = {#}"
  shows "hands_inv (record_sent m (set_closer k p s))" and "hands_inv (record_lost m (set_closer k p s))"
  using assms drain_hands_put [of "w_closers s" k m p]
  by (simp_all add: hands_inv_def ws_updates finite_busy)

lemma hands_inv_move:
  assumes "hands_inv s" and "drain_hand (w_closers s k) = {#}" and "drain_hand p = {#}"
  shows "hands_inv (set_closer k p s)"
  using assms drain_hands_idle [of "w_closers s" k p]
  by (simp add: hands_inv_def ws_updates finite_busy)

lemma hands_inv_close: "close_step s s' \<Longrightarrow> hands_inv s \<Longrightarrow> hands_inv s'"
proof (induction rule: close_step.induct)
  case (cl_drain s k m c)
  then show ?case
    using drain_hands_idle [of "w_closers s" k "ClDrainSend m"]
    by (auto simp: hands_inv_def ws_updates finite_busy recv_chan_def split: list.splits if_splits)
next
  case (cl_trigger s k)
  then show ?case using hands_inv_move [of s k ClDrain] by (simp add: hands_inv_def ws_updates)
next
  case (cl_push s k c)
  then show ?case using hands_inv_move [of s k ClWait]
    by (simp add: hands_inv_def ws_updates send_chan_Ret)
qed (auto intro: hands_inv_put hands_inv_move)

lemma hands_inv_outgoing: "outgoing_step s s' \<Longrightarrow> sender_inv s \<Longrightarrow> hands_inv s \<Longrightarrow> hands_inv s'"
proof (induction rule: outgoing_step.induct)
  case (se_ctx s)
  then show ?case
    using drain_hands_idle [of "w_closers s" SenderClose ClCheck]
    by (simp add: hands_inv_def sender_inv_def ws_updates finite_busy)
qed (auto simp: hands_inv_def ws_updates chan_step_simps split: list.splits if_splits)

lemma hands_inv_other: "writer_step s s' \<or> incoming_step s s' \<or> main_step s s' \<Longrightarrow> hands_inv s \<Longrightarrow> hands_inv s'"
  by (elim disjE; erule writer_step.cases incoming_step.cases main_step.cases)
     (auto simp: hands_inv_def ws_updates send_chan_Ret)

lemma hands_inv_step: "ws_step s s' \<Longrightarrow> sender_inv s \<Longrightarrow> hands_inv s \<Longrightarrow> hands_inv s'"
  unfolding ws_step_def using hands_inv_close hands_inv_outgoing hands_inv_other by blast

lemma hands_inv_reach: "ws_reach a s \<Longrightarrow> hands_inv s"
proof -
  assume "ws_reach a s"
  then have "sender_inv s \<and> hands_inv s"
  proof (induction rule: reach.induct)
    case (reach_init s)
    then show ?case using hands_inv_new [of a] by (simp add: sender_inv_def ws_new_def)
  next
    case (reach_step s t)
    then show ?case using sender_inv_step hands_inv_step by blast
  qed
  then show ?thesis by simp
qed

subsection \<open>The refinement\<close>

text \<open>What a message in a hand means to the contract.\<close>

lemma undecided_abs:
  "hands_inv s \<Longrightarrow> undecided (outbox_abs s) =
     mset (sender_hand (w_sender s)) + drain_hands (w_closers s) + mset (ch_buf (w_out s))"
  by (simp add: hands_inv_def undecided_def outbox_abs_def)

lemma in_drain_hands: "finite (busy cl) \<Longrightarrow> cl k = ClDrainSend m \<Longrightarrow> m \<in># drain_hands cl"
  using drain_hands_put [of cl k m ClIdle] by simp

lemma outbox_abs_simps:
  "outbox_abs (set_closer k p s) = outbox_abs s" "outbox_abs (set_writer n q s) = outbox_abs s"
  "outbox_abs (push_out m c s) = outbox_abs s\<lparr>ob_accepted := add_mset m (ob_accepted (outbox_abs s))\<rparr>"
  "outbox_abs (take_out m c s) = outbox_abs s"
  "outbox_abs (record_sent m s) = outbox_abs s\<lparr>ob_sent := add_mset m (ob_sent (outbox_abs s))\<rparr>"
  "outbox_abs (record_lost m s) = outbox_abs s\<lparr>ob_lost := add_mset m (ob_lost (outbox_abs s))\<rparr>"
  by (simp_all add: outbox_abs_def ws_updates)

lemma outbox_abs_invisible:
  "outbox_abs (s\<lparr>w_in := x1\<rparr>) = outbox_abs s" "outbox_abs (s\<lparr>w_input := x2\<rparr>) = outbox_abs s"
  "outbox_abs (s\<lparr>w_cc_closed := x3\<rparr>) = outbox_abs s" "outbox_abs (s\<lparr>w_mu := x4\<rparr>) = outbox_abs s"
  "outbox_abs (s\<lparr>w_closeChan := x3\<rparr>) = outbox_abs s" "outbox_abs (s\<lparr>w_doneChan := x3\<rparr>) = outbox_abs s"
  "outbox_abs (s\<lparr>w_ctx := x3\<rparr>) = outbox_abs s" "outbox_abs (s\<lparr>w_main := x5\<rparr>) = outbox_abs s"
  "outbox_abs (s\<lparr>w_reader := x6\<rparr>) = outbox_abs s" "outbox_abs (s\<lparr>w_pump := x7\<rparr>) = outbox_abs s"
  "outbox_abs (s\<lparr>w_proc := x8\<rparr>) = outbox_abs s" "outbox_abs (s\<lparr>w_sender := x9\<rparr>) = outbox_abs s"
  "outbox_abs (s\<lparr>w_read := x10\<rparr>) = outbox_abs s" "outbox_abs (s\<lparr>w_handed := x10\<rparr>) = outbox_abs s"
  "outbox_abs (s\<lparr>w_delivered := x11\<rparr>) = outbox_abs s" "outbox_abs (s\<lparr>w_audio_in := x12\<rparr>) = outbox_abs s"
  "outbox_abs (s\<lparr>w_panicked := x3\<rparr>) = outbox_abs s"
  by (simp_all add: outbox_abs_def)

definition visible :: "ws \<Rightarrow> ws \<Rightarrow> bool" where
  "visible s s' \<longleftrightarrow> outbox_abs s' = outbox_abs s \<or> outbox_step (outbox_abs s) (outbox_abs s')"

lemma undecided_hand:
  "hands_inv s \<Longrightarrow> w_closers s k = ClDrainSend m \<Longrightarrow> m \<in># undecided (outbox_abs s)"
  "hands_inv s \<Longrightarrow> w_sender s = SeSend m \<Longrightarrow> m \<in># undecided (outbox_abs s)"
  using in_drain_hands [of "w_closers s" k m] by (simp_all add: undecided_abs) (simp add: hands_inv_def)

lemma ob_closed_abs [simp]: "ob_closed (outbox_abs s) = w_conn_closed s"
  by (simp add: outbox_abs_def)

lemma outbox_abs_conn_closed: "outbox_abs (s\<lparr>w_conn_closed := True\<rparr>) = outbox_abs s\<lparr>ob_closed := True\<rparr>"
  by (simp add: outbox_abs_def)

lemmas visible_simps = visible_def outbox_abs_simps outbox_abs_invisible outbox_abs_conn_closed

lemma visible_close: "close_step s s' \<Longrightarrow> hands_inv s \<Longrightarrow> visible s s'"
  by (erule close_step.cases) (auto simp: visible_simps intro: outbox_step.intros undecided_hand)

lemma visible_outgoing: "outgoing_step s s' \<Longrightarrow> hands_inv s \<Longrightarrow> visible s s'"
  by (erule outgoing_step.cases) (auto simp: visible_simps intro: outbox_step.intros undecided_hand)

lemma visible_other: "writer_step s s' \<or> incoming_step s s' \<or> main_step s s' \<Longrightarrow> visible s s'"
  by (elim disjE; erule writer_step.cases incoming_step.cases main_step.cases)
     (auto simp: visible_simps intro: outbox_step.intros)

lemma visible_step: "ws_step s s' \<Longrightarrow> hands_inv s \<Longrightarrow> visible s s'"
  unfolding ws_step_def using visible_close visible_outgoing visible_other by blast

abbreviation outbox_reach :: "outbox \<Rightarrow> bool" where
  "outbox_reach \<equiv> reach (\<lambda>b. b = outbox_new) outbox_step"

interpretation transport_sim: simulation "\<lambda>s. s = ws_new a" ws_step hands_inv outbox_abs
    "\<lambda>b. b = outbox_new" outbox_step for a
  by unfold_locales
     (auto simp: hands_inv_reach outbox_abs_def ws_new_def outbox_new_def dest: visible_step simp: visible_def)

text \<open>
  C11. The transport refines an at-most-once outbox: each step of its goroutines, with any
  number of callers of \<open>Write\<close> and \<open>Close\<close>, accepts a message, sends or loses one that was
  accepted and neither sent nor lost before, closes the connection, or changes nothing
  visible; in particular nothing is sent after the connection was closed.
\<close>

theorem transport_refines_outbox:
  assumes "ws_reach a s" and "ws_step s s'"
  shows "outbox_reach (outbox_abs s)
    \<and> (outbox_abs s' = outbox_abs s \<or> outbox_step (outbox_abs s) (outbox_abs s'))"
  by (rule transport_sim.refines [OF assms])

text \<open>One message of a full queue, taken and then written to the connection.\<close>

theorem transport_refines_outbox_witness:
  "\<exists>s m. ws_reach True s \<and> ws_step s (record_sent m (s\<lparr>w_sender := SeSelect\<rparr>))
     \<and> outbox_reach (outbox_abs s)
     \<and> outbox_step (outbox_abs s) (outbox_abs (record_sent m (s\<lparr>w_sender := SeSelect\<rparr>)))
     \<and> ob_sent (outbox_abs (record_sent m (s\<lparr>w_sender := SeSelect\<rparr>))) = {#m#}"
proof -
  let ?m = "text_message (OtherText ''x'')" and ?o = "make_chan 16 :: wsMessage chan"
  let ?a = "(ws_new True)\<lparr>w_out := ?o\<lparr>ch_buf := [?m]\<rparr>, w_accepted := [?m]\<rparr>"
  let ?b = "take_out ?m ?o (?a\<lparr>w_sender := SeSend ?m\<rparr>)"
  let ?c = "record_sent ?m (?b\<lparr>w_sender := SeSelect\<rparr>)"
  have "ws_reach True (ws_new True)" by (rule reach_init) simp
  moreover have "ws_step\<^sup>*\<^sup>* (ws_new True) ?a" using write_once [of "ws_new True" "OtherText ''x''"]
    by (simp add: ws_new_def)
  ultimately have "ws_reach True ?a" by (rule reach_rtranclp)
  moreover have "ws_step ?a ?b" by (intro ws_stepI se_recv) (simp_all add: ws_new_def recv_chan_def make_chan_def)
  ultimately have r: "ws_reach True ?b" by (rule reach_step)
  have st: "ws_step ?b ?c" by (intro ws_stepI se_sent) (simp_all add: ws_new_def take_out_def)
  have "ob_sent (outbox_abs ?b) = {#}" "ob_sent (outbox_abs ?c) = {#?m#}"
    by (simp_all add: outbox_abs_def ws_updates ws_new_def)
  with transport_refines_outbox [OF r st] r st show ?thesis
    by (intro exI [of _ ?b] exI [of _ ?m]) auto
qed

text \<open>
  C15. No message is duplicated or invented, however many callers of \<open>Close\<close> drain the
  queue at once: the messages accepted are exactly those sent, lost in a failed write,
  in the sender's or a closer's hands, or still queued.
\<close>

theorem messages_conserved:
  assumes "ws_reach a s"
  shows "mset (w_accepted s) = mset (w_sent s) + mset (w_lost s) + mset (sender_hand (w_sender s))
    + drain_hands (w_closers s) + mset (ch_buf (w_out s))"
  using hands_inv_reach [OF assms] by (simp add: hands_inv_def)

theorem messages_conserved_witness:
  "\<exists>s. ws_reach True s \<and> length (w_accepted s) = 16 \<and> w_sent s = []
     \<and> mset (w_accepted s) = mset (w_sent s) + mset (w_lost s) + mset (sender_hand (w_sender s))
         + drain_hands (w_closers s) + mset (ch_buf (w_out s))"
proof -
  obtain s where s: "ws_reach True s" "length (w_accepted s) = 16" "w_sent s = []"
    using stuck_reachable by blast
  from messages_conserved [OF s(1)] s show ?thesis by blast
qed

end
