(* ===== verification/WsLink.thy ===== *)
theory WsLink
  imports WsSpec Direct
begin

section \<open>Two websocket transports and the connection between them\<close>

text \<open>
  The transports of both peers run concurrently; the connection delivers the data frames
  that one side wrote, in order, to the reader of the other (control frames are handled
  inside the websocket package, and a close frame is a read error). A read may fail at any
  time. Two transports of the repository talk to each other this way in the demo.
\<close>

definition data_frames :: "wsMessage list \<Rightarrow> (frame_type \<times> wire) list" where
  "data_frames ms = map (\<lambda>m. (mt m, data m)) (filter (\<lambda>m. mt m = TextMessage \<or> mt m = BinaryMessage) ms)"

definition frames_of :: "wsMessage list \<Rightarrow> (frame_type \<times> wire) list" where
  "frames_of ms = map (\<lambda>m. (mt m, data m)) ms"

text \<open>What \<open>a\<close> has read is what its peer \<open>b\<close> has sent so far, as far as it has come.\<close>

definition carried :: "ws \<Rightarrow> ws \<Rightarrow> bool" where
  "carried a b \<longleftrightarrow> prefix (frames_of (w_read a)) (data_frames (w_sent b))"

definition link_step :: "(side \<Rightarrow> ws) \<Rightarrow> (side \<Rightarrow> ws) \<Rightarrow> bool" where
  "link_step S S' \<longleftrightarrow> (\<exists>sd n. ws_step (S sd) n \<and> carried n (S (other_side sd)) \<and> S' = S(sd := n))"

definition link_start :: "(side \<Rightarrow> bool) \<Rightarrow> (side \<Rightarrow> ws) \<Rightarrow> bool" where
  "link_start audio S \<longleftrightarrow> (\<forall>sd. S sd = ws_new (audio sd))"

abbreviation link_reach :: "(side \<Rightarrow> bool) \<Rightarrow> (side \<Rightarrow> ws) \<Rightarrow> bool" where
  "link_reach audio \<equiv> reach (link_start audio) link_step"

lemma data_frames_append [simp]: "data_frames (xs @ ys) = data_frames xs @ data_frames ys"
  by (simp add: data_frames_def)

lemma ws_step_sent: "ws_step s s' \<Longrightarrow> prefix (w_sent s) (w_sent s') \<and> prefix (w_read s) (w_read s')"
  unfolding ws_step_def
  by (elim disjE; erule writer_step.cases incoming_step.cases outgoing_step.cases close_step.cases main_step.cases)
     (auto simp: ws_updates)

lemma carried_sent: "carried a b \<Longrightarrow> prefix (w_sent b) (w_sent b') \<Longrightarrow> carried a b'"
  by (auto simp: carried_def prefix_def)

lemma carried_read: "carried a b \<Longrightarrow> prefix (w_read a') (w_read a) \<Longrightarrow> carried a' b"
  by (auto simp: carried_def prefix_def frames_of_def)

lemma other_side_twice [simp]: "other_side (other_side sd) = sd"
  by (cases sd) simp_all

lemma other_side_cases: "sd' = sd \<or> sd' = other_side sd"
  by (cases sd; cases sd') simp_all

lemma other_side_differs [simp]: "other_side sd \<noteq> sd"
  by (cases sd) simp_all

definition link_inv :: "(side \<Rightarrow> bool) \<Rightarrow> (side \<Rightarrow> ws) \<Rightarrow> bool" where
  "link_inv audio S \<longleftrightarrow> (\<forall>sd. ws_reach (audio sd) (S sd) \<and> carried (S sd) (S (other_side sd)))"

lemma link_inv_step:
  assumes inv: "link_inv audio S" and stp: "link_step S S'"
  shows "link_inv audio S'"
proof -
  obtain sd n where n: "ws_step (S sd) n" "carried n (S (other_side sd))" and S': "S' = S(sd := n)"
    using stp unfolding link_step_def by blast
  have "ws_reach (audio sd) n" using inv n(1) unfolding link_inv_def by (blast intro: reach.reach_step)
  moreover have "carried (S (other_side sd)) n"
    using inv ws_step_sent [OF n(1)] carried_sent unfolding link_inv_def by (metis other_side_twice)
  moreover have "ws_reach (audio (other_side sd)) (S (other_side sd))" using inv by (simp add: link_inv_def)
  ultimately have "ws_reach (audio sd') (S' sd') \<and> carried (S' sd') (S' (other_side sd'))" for sd'
    using n(2) other_side_cases [of sd' sd] by (auto simp: S')
  then show ?thesis by (simp add: link_inv_def)
qed

lemma link_inv_reach: "link_reach audio S \<Longrightarrow> link_inv audio S"
proof (induction rule: reach.induct)
  case (reach_init S)
  then show ?case
    by (auto simp: link_start_def link_inv_def carried_def ws_new_def frames_of_def intro: reach.reach_init)
next
  case (reach_step S S')
  then show ?case by (blast intro: link_inv_step)
qed

subsection \<open>What arrives\<close>

definition picked :: "frame_type \<Rightarrow> (frame_type \<times> wire) list \<Rightarrow> wire list" where
  "picked t fs = map snd (filter (\<lambda>f. fst f = t) fs)"

lemma picked_texts:
  "picked TextMessage (data_frames ms) = texts ms" "picked TextMessage (frames_of ms) = texts ms"
  by (simp_all add: picked_def data_frames_def frames_of_def texts_def filter_map comp_def)
     (metis (no_types, lifting) comp_apply filter_cong map_eq_conv)

lemma picked_prefix: "prefix fs gs \<Longrightarrow> prefix (picked t fs) (picked t gs)"
  by (auto simp: picked_def prefix_def)

lemma texts_prefix: "prefix ms ns \<Longrightarrow> prefix (texts ms) (texts ns)"
  by (auto simp: prefix_def)

lemma carried_texts: "carried a b \<Longrightarrow> prefix (texts (w_read a)) (texts (w_sent b))"
  using picked_prefix [of "frames_of (w_read a)" "data_frames (w_sent b)" TextMessage]
  by (simp add: carried_def picked_texts)

lemma delivered_read: "ws_reach a s \<Longrightarrow> prefix (map dp_Data (w_delivered s)) (texts (w_read s))"
proof -
  assume "ws_reach a s"
  then have "in_inv s" by (rule in_inv_reach)
  then have "prefix (map dp_Data (w_delivered s)) (texts (w_handed s))"
    and "w_read s = w_handed s @ ch_buf (w_in s) @ reader_hand (w_reader s)"
    by (auto simp: in_inv_def intro: append_prefixD)
  then show ?thesis by simp
qed

lemma delivered_sent:
  assumes "link_reach audio S"
  shows "prefix (map dp_Data (w_delivered (S sd))) (texts (w_sent (S (other_side sd))))"
proof -
  have "ws_reach (audio sd) (S sd)" "carried (S sd) (S (other_side sd))"
    using link_inv_reach [OF assms] by (simp_all add: link_inv_def)
  then show ?thesis using delivered_read carried_texts by (blast intro: prefix_order.trans)
qed

lemma sent_accepted: "ws_reach a s \<Longrightarrow> mset (w_sent s) \<subseteq># mset (w_accepted s)"
  using hands_inv_reach [of a s] by (simp add: hands_inv_def)

lemma mset_texts: "mset (texts ms) = image_mset data (filter_mset (\<lambda>m. mt m = TextMessage) (mset ms))"
  by (simp add: texts_def)

text \<open>
  C13. Messages between two websocket peers: whatever both transports do, the packages one
  side receives from \<open>ReadChan\<close> are, unchanged, messages the other side's \<open>Write\<close> accepted,
  each at most as often as it was accepted; and as long as nobody on the other side is in
  \<open>Close\<close>, they are a prefix of them: in order, without gaps.
\<close>

theorem ws_link_in_order:
  assumes "link_reach audio S"
  shows "mset (map dp_Data (w_delivered (S sd))) \<subseteq># mset (texts (w_accepted (S (other_side sd))))
    \<and> (idle_close (S (other_side sd)) \<longrightarrow>
        prefix (map dp_Data (w_delivered (S sd))) (texts (w_accepted (S (other_side sd)))))"
proof -
  let ?b = "S (other_side sd)"
  have b: "ws_reach (audio (other_side sd)) ?b" using link_inv_reach [OF assms] by (simp add: link_inv_def)
  have d: "prefix (map dp_Data (w_delivered (S sd))) (texts (w_sent ?b))" by (rule delivered_sent [OF assms])
  have "mset (texts (w_sent ?b)) \<subseteq># mset (texts (w_accepted ?b))"
    unfolding mset_texts by (intro image_mset_subseteq_mono multiset_filter_mono sent_accepted [OF b])
  moreover have "mset (map dp_Data (w_delivered (S sd))) \<subseteq># mset (texts (w_sent ?b))"
    using d by (auto simp: prefix_def)
  ultimately have "mset (map dp_Data (w_delivered (S sd))) \<subseteq># mset (texts (w_accepted ?b))"
    by (metis subset_mset.order_trans)
  moreover have "prefix (map dp_Data (w_delivered (S sd))) (texts (w_accepted ?b))" if "idle_close ?b"
  proof -
    have "prefix (w_sent ?b) (w_accepted ?b)" using out_inv_reach [OF b] that by (simp add: out_inv_def)
    with d show ?thesis by (blast intro: prefix_order.trans texts_prefix)
  qed
  ultimately show ?thesis by blast
qed

subsection \<open>A message that arrives\<close>

lemma link_run:
  assumes S: "link_reach audio S" and run: "ws_step\<^sup>*\<^sup>* (S sd) n" and c: "carried n (S (other_side sd))"
  shows "link_reach audio (S(sd := n))"
  using run c
proof (induction rule: rtranclp_induct)
  case base
  with S show ?case by simp
next
  case (step m n)
  have "carried m (S (other_side sd))" using step.prems ws_step_sent [OF step.hyps(2)] by (blast intro: carried_read)
  then have "link_reach audio (S(sd := m))" by (rule step.IH)
  moreover have "link_step (S(sd := m)) (S(sd := n))"
    unfolding link_step_def by (intro exI [of _ sd] exI [of _ n]) (simp add: step)
  ultimately show ?case by (rule reach.reach_step [where step = link_step])
qed

text \<open>One text message from \<open>Write\<close> to the connection, and from there to \<open>ReadChan\<close>.\<close>

lemma write_and_send:
  "\<exists>s. ws_step\<^sup>*\<^sup>* (ws_new a) s \<and> w_accepted s = [text_message d] \<and> w_sent s = [text_message d] \<and> w_read s = []
     \<and> idle_close s"
proof -
  let ?c = "make_chan 16 :: wsMessage chan"
  define s1 where "s1 = (ws_new a)\<lparr>w_out := ?c\<lparr>ch_buf := [text_message d]\<rparr>, w_accepted := [text_message d]\<rparr>"
  define s2 where "s2 = take_out (text_message d) ?c (s1\<lparr>w_sender := SeSend (text_message d)\<rparr>)"
  define s3 where "s3 = record_sent (text_message d) (s2\<lparr>w_sender := SeSelect\<rparr>)"
  have 1: "ws_step\<^sup>*\<^sup>* (ws_new a) s1" using write_once [of "ws_new a" d] by (simp add: ws_new_def s1_def)
  have 2: "ws_step s1 s2"
    unfolding s2_def by (intro ws_stepI se_recv) (simp_all add: s1_def ws_new_def recv_chan_def make_chan_def)
  have 3: "ws_step s2 s3"
    unfolding s3_def by (intro ws_stepI se_sent) (simp_all add: s2_def s1_def ws_new_def ws_updates)
  from rtranclp.rtrancl_into_rtrancl [OF rtranclp.rtrancl_into_rtrancl [OF 1 2] 3]
  show ?thesis
    by (intro exI [of _ s3]) (simp add: s3_def s2_def s1_def ws_new_def ws_updates idle_close_def)
qed

lemma read_and_deliver:
  "\<exists>s. ws_step\<^sup>*\<^sup>* (ws_new a) s \<and> w_read s = [text_message d] \<and> map dp_Data (w_delivered s) = [d]"
proof -
  let ?c = "make_chan 16 :: wsMessage chan" and ?m = "text_message d" and ?i = "make_chan 16 :: DataPackage chan"
  let ?p = "package_of (text_message d) 1"
  define s1 where "s1 = (ws_new a)\<lparr>w_reader := RdPush ?m, w_read := w_read (ws_new a) @ [?m]\<rparr>"
  define s2 where "s2 = s1\<lparr>w_reader := RdRead, w_in := ?c\<lparr>ch_buf := [?m]\<rparr>\<rparr>"
  define s3 where "s3 = s2\<lparr>w_in := ?c, w_handed := w_handed s2 @ [?m], w_proc := proc_next ?m 1\<rparr>"
  define s4 where "s4 = s3\<lparr>w_proc := PrBody ?p, w_mu := Some HProc\<rparr>"
  define so where "so = s4\<lparr>w_proc := PrSend ?p\<rparr>"
  define s5 where "s5 = so\<lparr>w_proc := PrSelect, w_input := ?i\<lparr>ch_buf := [?p]\<rparr>, w_mu := None\<rparr>"
  define s6 where "s6 = s5\<lparr>w_input := ?i, w_delivered := w_delivered s5 @ [?p]\<rparr>"
  note defs = s1_def s2_def s3_def s4_def so_def s5_def s6_def ws_new_def
  have 1: "ws_step (ws_new a) s1" unfolding s1_def by (intro ws_stepI rd_frame) (simp_all add: ws_new_def)
  have 2: "ws_step s1 s2" unfolding s2_def
    by (intro ws_stepI rd_push [where m = ?m]) (simp_all add: defs send_chan_def make_chan_def)
  have 3: "ws_step s2 s3" unfolding s3_def by (intro ws_stepI pr_recv) (simp_all add: defs recv_chan_def make_chan_def)
  have 4: "ws_step s3 s4" unfolding s4_def
    by (intro ws_stepI pr_lock) (simp_all add: defs proc_next_def text_message_def)
  have o: "ws_step s4 so" unfolding so_def by (intro ws_stepI pr_open) (simp_all add: defs)
  have 5: "ws_step so s5" unfolding s5_def
    by (intro ws_stepI pr_send [where p = ?p]) (simp_all add: defs send_chan_def make_chan_def)
  have 6: "ws_step s5 s6" unfolding s6_def by (intro ws_stepI in_deliver) (simp_all add: defs recv_chan_def make_chan_def)
  have "ws_step\<^sup>*\<^sup>* (ws_new a) s6"
    by (rule run_step [OF 1 run_step [OF 2 run_step [OF 3 run_step [OF 4 run_step [OF o run_step [OF 5
      r_into_rtranclp [of ws_step, OF 6]]]]]]])
  then show ?thesis by (intro exI [of _ s6]) (simp add: defs package_of_def text_message_def)
qed

lemma link_delivers:
  "\<exists>S. link_reach (\<lambda>_. True) S \<and> map dp_Data (w_delivered (S T2)) = [d] \<and> idle_close (S T1)"
proof -
  obtain a where a: "ws_step\<^sup>*\<^sup>* (ws_new True) a" "w_sent a = [text_message d]" "w_read a = []" "idle_close a"
    using write_and_send [of True d] by blast
  obtain b where b: "ws_step\<^sup>*\<^sup>* (ws_new True) b" "w_read b = [text_message d]" "map dp_Data (w_delivered b) = [d]"
    using read_and_deliver [of True d] by (elim exE conjE) (rule that)
  let ?S0 = "\<lambda>_ :: side. ws_new True"
  have r0: "link_reach (\<lambda>_. True) ?S0"
    by (rule reach.reach_init [where init = "link_start (\<lambda>_. True)"]) (simp add: link_start_def)
  have "link_reach (\<lambda>_. True) (?S0(T1 := a))" (is "link_reach _ ?S1")
    by (rule link_run [OF r0]) (simp_all add: a carried_def frames_of_def)
  moreover have "ws_step\<^sup>*\<^sup>* (?S1 T2) b" using b(1) by simp
  moreover have "carried b (?S1 (other_side T2))"
    by (simp add: carried_def a b frames_of_def data_frames_def text_message_def)
  ultimately have "link_reach (\<lambda>_. True) (?S1(T2 := b))" by (rule link_run)
  moreover have "map dp_Data (w_delivered ((?S1(T2 := b)) T2)) = [d]" and "idle_close ((?S1(T2 := b)) T1)"
    using a(4) b(3) by simp_all
  ultimately show ?thesis by (intro exI [of _ "?S1(T2 := b)"]) simp
qed

theorem ws_link_in_order_witness:
  "\<exists>S. link_reach (\<lambda>_. True) S \<and> idle_close (S T1) \<and> prefix [OtherText ''a''] (texts (w_accepted (S T1)))"
proof -
  define d where "d = OtherText ''a''"
  obtain S where S: "link_reach (\<lambda>_. True) S" "map dp_Data (w_delivered (S T2)) = [d]" "idle_close (S T1)"
    using link_delivers [of d] by (elim exE conjE) (rule that)
  have T1: "other_side T2 = T1" by simp
  from ws_link_in_order [OF S(1), of T2] S(2,3) have "prefix [d] (texts (w_accepted (S T1)))" unfolding T1 by metis
  with S(1,3) show ?thesis unfolding d_def by (intro exI [of _ S]) simp
qed

end
