(* ===== verification/RpcWs.thy ===== *)
theory RpcWs
  imports RpcCalls WsLink
begin

section \<open>Remote calls over two websocket transports\<close>

text \<open>
  The peers of theory \<open>Rpc\<close> on the transports of theory \<open>WsLink\<close>: sessions, calls and
  handlers above, goroutines, queues and the connection below. \<open>Write\<close> is taken as one step
  of the transport; a caller that holds the control channel's mutex while the queue is
  full only keeps others from acting, so this leaves no outcome out.
\<close>

subsection \<open>Write, and what else a transport does\<close>

definition cc_view :: "ws \<Rightarrow> controlChannel" where
  "cc_view t = \<lparr>cc_closed = w_cc_closed t, cc_once = (if w_cc_closed t then OnceDone else OnceNew),
     cc_input = w_input t, cc_output = w_out t\<rparr>"

text \<open>\<open>Write\<close> waits for the mutex, then it is \<open>writeOut\<close> on the control channel.\<close>

definition ws_Write :: "wire \<Rightarrow> (goerr option, ws) io" where
  "ws_Write d = (\<lambda>t.
     (if w_mu t \<noteq> None then (Block, t)
      else case writeOut d (cc_view t) of
        (Ret None, cc) \<Rightarrow> (Ret None, push_out (text_message d) (cc_output cc) t)
      | (r, cc) \<Rightarrow> (r, t)))"

definition ws_written :: "ws \<Rightarrow> wire list" where
  "ws_written t = texts (w_accepted t)"

text \<open>The steps of the transport's goroutines; \<open>b\<close> is the peer's transport.\<close>

definition ws_move :: "ws \<Rightarrow> ws \<Rightarrow> ws \<Rightarrow> bool" where
  "ws_move b a a' \<longleftrightarrow> (incoming_step a a' \<and> w_delivered a' = w_delivered a
     \<or> outgoing_step a a' \<or> close_step a a' \<or> main_step a a') \<and> carried a' b"

definition ws_deliver :: "ws \<Rightarrow> ws \<Rightarrow> DataPackage \<Rightarrow> ws \<Rightarrow> bool" where
  "ws_deliver b a p a' \<longleftrightarrow> (\<exists>c. recv_chan (w_input a) = Ret (Some p, c)
     \<and> a' = a\<lparr>w_input := c, w_delivered := w_delivered a @ [p]\<rparr>)"

definition no_writer :: "ws \<Rightarrow> bool" where
  "no_writer t \<longleftrightarrow> w_writers t = (\<lambda>_. WIdle)"

definition ws_joint :: "ws \<Rightarrow> ws \<Rightarrow> bool" where
  "ws_joint a b \<longleftrightarrow> (\<exists>x y. ws_reach x a \<and> ws_reach y b) \<and> carried a b \<and> carried b a
     \<and> no_writer a \<and> no_writer b"

definition ws_start :: "ws \<Rightarrow> ws \<Rightarrow> bool" where
  "ws_start a b \<longleftrightarrow> (\<exists>x y. a = ws_new x \<and> b = ws_new y)"

subsection \<open>They keep the contract of a network\<close>

lemma ws_Write_accepted:
  "ws_Write d t = (Ret None, t') \<Longrightarrow> w_mu t = None \<and> \<not> w_cc_closed t \<and> has_room (w_out t)
     \<and> t' = t\<lparr>w_out := (w_out t)\<lparr>ch_buf := ch_buf (w_out t) @ [text_message d]\<rparr>,
              w_accepted := w_accepted t @ [text_message d]\<rparr>"
  by (auto simp: ws_Write_def writeOut_def cc_view_def push_out_def send_chan_Ret split: if_splits go.splits)

lemma ws_Write_refused: "ws_Write d t = (r, t') \<Longrightarrow> r \<noteq> Ret None \<Longrightarrow> t' = t"
  by (auto simp: ws_Write_def split: if_splits go.splits option.splits prod.splits)

lemma ws_Write_run: "ws_Write d t = (Ret r, t') \<Longrightarrow> no_writer t \<Longrightarrow> ws_step\<^sup>*\<^sup>* t t'"
  using ws_Write_accepted [of d t t'] ws_Write_refused [of d t "Ret r" t'] write_once [of t d]
  by (cases r) (auto simp: no_writer_def)

lemma ws_Write_same: "ws_Write d t = (Ret r, t') \<Longrightarrow>
    w_read t' = w_read t \<and> w_sent t' = w_sent t \<and> w_writers t' = w_writers t"
  using ws_Write_accepted [of d t t'] ws_Write_refused [of d t "Ret r" t'] by (cases r) auto

lemma goroutine_frame:
  "incoming_step a a' \<or> outgoing_step a a' \<or> close_step a a' \<or> main_step a a' \<Longrightarrow>
   w_writers a' = w_writers a \<and> ws_written a' = ws_written a"
  by (elim disjE; erule incoming_step.cases outgoing_step.cases close_step.cases main_step.cases)
     (simp_all add: ws_written_def ws_updates texts_one audio_message_def ping_message_def close_message_def)

lemma ws_move_step:
  assumes "ws_move b a a'"
  shows "ws_step a a' \<and> w_writers a' = w_writers a \<and> ws_written a' = ws_written a"
proof -
  have "incoming_step a a' \<or> outgoing_step a a' \<or> close_step a a' \<or> main_step a a'"
    using assms unfolding ws_move_def by blast
  then show ?thesis using goroutine_frame [of a a'] unfolding ws_step_def by blast
qed

lemma ws_deliver_step: "ws_deliver b a p a' \<Longrightarrow> ws_step a a' \<and> w_writers a' = w_writers a \<and> ws_written a' = ws_written a
    \<and> w_read a' = w_read a \<and> w_sent a' = w_sent a \<and> p \<in> set (w_delivered a')"
  using in_deliver [of a p] by (auto simp: ws_deliver_def ws_step_def ws_written_def)

lemma carried_same: "w_read a' = w_read a \<Longrightarrow> carried a' b = carried a b" "w_sent b' = w_sent b \<Longrightarrow> carried a b' = carried a b"
  by (simp_all add: carried_def)

lemma delivered_written:
  assumes "ws_joint a b" and "ws_deliver b a p a'"
  shows "dp_Data p \<in> set (ws_written b)"
proof -
  obtain x y where reach: "ws_reach x a" "ws_reach y b" and c: "carried a b" using assms(1) unfolding ws_joint_def by blast
  note st = ws_deliver_step [OF assms(2)]
  have "ws_reach x a'" using reach.reach_step [where step = ws_step, OF reach(1)] st by blast
  then have "prefix (map dp_Data (w_delivered a')) (texts (w_read a'))" by (rule delivered_read)
  moreover have "prefix (texts (w_read a')) (texts (w_sent b))" using carried_texts [OF c] st by simp
  ultimately have "set (map dp_Data (w_delivered a')) \<subseteq> set (texts (w_sent b))"
    by (meson prefix_order.trans set_mono_prefix)
  moreover have "set (texts (w_sent b)) \<subseteq> set (texts (w_accepted b))"
    using mset_subset_eqD [OF sent_accepted [OF reach(2)]] by (auto simp: texts_def)
  ultimately show ?thesis using st by (auto simp: ws_written_def)
qed

lemma ws_move_joint:
  assumes "ws_joint a b" and "ws_step a a'" and "carried a' b" and "w_writers a' = w_writers a"
  shows "ws_joint a' b"
proof -
  have "prefix (w_sent a) (w_sent a')" using ws_step_sent [OF assms(2)] by blast
  with assms show ?thesis
    unfolding ws_joint_def no_writer_def by (metis carried_sent reach.reach_step)
qed

lemma ws_write_joint:
  assumes ab: "ws_joint a b" and w: "ws_Write f a = (Ret r, a')"
  shows "ws_joint a' b"
proof -
  have "no_writer a" using ab by (simp add: ws_joint_def)
  then have "ws_step\<^sup>*\<^sup>* a a'" by (rule ws_Write_run [OF w])
  then have "ws_reach x a \<Longrightarrow> ws_reach x a'" for x by (rule reach_rtranclp [rotated])
  moreover have "carried a' b = carried a b" "carried b a' = carried b a" "no_writer a' = no_writer a"
    using ws_Write_same [OF w] by (simp_all add: carried_def no_writer_def)
  ultimately show ?thesis using ab unfolding ws_joint_def by blast
qed

interpretation ws_net: network ws_Write ws_written ws_start ws_joint ws_move ws_deliver
proof
  fix a b a' :: ws and f :: wire and p r
  show "ws_Write f a = (Ret None, a') \<Longrightarrow> ws_written a' = ws_written a @ [f]"
    using ws_Write_accepted [of f a a'] by (auto simp: ws_written_def texts_one text_message_def)
  show "ws_Write f a = (r, a') \<Longrightarrow> r \<noteq> Ret None \<Longrightarrow> ws_written a' = ws_written a"
    using ws_Write_refused [of f a r a'] by simp
  show "ws_start a b \<Longrightarrow> ws_joint a b \<and> ws_written a = [] \<and> ws_written b = []"
    unfolding ws_start_def ws_joint_def
    by (elim exE conjE) (auto simp: carried_def frames_of_def ws_written_def texts_def no_writer_def ws_new_def
        intro: reach.reach_init)
  show "ws_joint a b \<Longrightarrow> ws_joint b a" unfolding ws_joint_def by blast
  show "ws_joint a b \<Longrightarrow> ws_Write f a = (Ret r, a') \<Longrightarrow> ws_joint a' b" for r by (rule ws_write_joint)
  show "ws_joint a b \<Longrightarrow> ws_move b a a' \<Longrightarrow> ws_joint a' b \<and> ws_written a' = ws_written a"
    using ws_move_step [of b a a'] ws_move_joint [of a b a'] by (simp add: ws_move_def)
  assume "ws_joint a b" "ws_deliver b a p a'"
  moreover from this have "carried a' b" using ws_deliver_step [of b a p a'] by (simp add: ws_joint_def carried_def)
  ultimately show "ws_joint a' b \<and> ws_written a' = ws_written a \<and> dp_Data p \<in> set (ws_written b)"
    using ws_deliver_step [of b a p a'] ws_move_joint [of a b a'] delivered_written [of a b p a'] by blast
qed

subsection \<open>The guarantee\<close>

text \<open>
  C4. Remote calls end to end, over websockets: two peers with typed handlers, any number of
  concurrent calls from each, every interleaving of their goroutines and of their
  transports, messages lost in a closing transport. Whenever \<open>Request\<close> has returned a
  response to a call, it has the ID of the call's own request and no error, and it is what
  the peer's handler computed for exactly that request as the peer parsed it - never the
  answer to another call.
\<close>

theorem rpc_over_websocket:
  assumes "\<And>sd. inj (ids sd)" and "\<And>sd. tr_Write (env sd) = ws_Write"
    and "\<And>sd. list_all (arg_answers (env sd) (R sd)) (args sd)"
    and "reach (rpc_start ws_start) (rpc_step env (\<lambda>sd. NewHandler (begin_fn sd) (args sd)) ids ws_move ws_deliver) S"
    and "nd_calls (S sd) k = Returned req (Inr resp)"
  shows "req_ID req = ids sd k \<and> Response_ID resp = ids sd k \<and> Error resp = None
    \<and> (\<exists>q y. arrived_as req q \<and> R (other_side sd) q y \<and> Result resp = received_any y)"
proof -
  have ans: "answers_only (env sd) (NewHandler (begin_fn sd) (args sd)) (answers (R sd))" for sd
    by (rule NewHandler_answers_only) (rule assms(3))
  from ws_net.returned_own_answer [OF assms(1,2) ans assms(4,5)]
  obtain q where q: "req_ID req = ids sd k" "Response_ID resp = ids sd k" "Error resp = None"
    "arrived_as req q" "answers (R (other_side sd)) q (resp\<lparr>receivedAt := 0\<rparr>)" by blast
  then obtain y where "received (MResponse (Ok q y)) = MResponse (resp\<lparr>receivedAt := 0\<rparr>)" "R (other_side sd) q y"
    by (auto simp: answers_def)
  then have "Result resp = received_any y"
    by (auto simp: constructor_defs dest!: arg_cong [where f = Result])
  with q \<open>R (other_side sd) q y\<close> show ?thesis by blast
qed

subsection \<open>A ping and its answer, through every queue\<close>

text \<open>A transport at rest: what it accepted and sent, read, delivered, and has yet to deliver.\<close>

definition at_rest :: "wsMessage list \<Rightarrow> wsMessage list \<Rightarrow> DataPackage list \<Rightarrow> DataPackage list \<Rightarrow> ws" where
  "at_rest acc rd dl inp = (ws_new True)\<lparr>w_accepted := acc, w_taken := acc, w_sent := acc, w_read := rd,
     w_handed := rd, w_delivered := dl, w_input := (make_chan 16)\<lparr>ch_buf := inp\<rparr>\<rparr>"

lemma carried_rest: "carried a b \<Longrightarrow> w_read a' = w_read a \<Longrightarrow> carried a' b"
  by (simp add: carried_def)

text \<open>A \<open>Write\<close>, and the sender that takes the message to the connection.\<close>

lemma rest_write:
  "ws_Write d (at_rest acc rd dl inp) = (Ret None, (at_rest acc rd dl inp)\<lparr>w_accepted := acc @ [text_message d],
     w_out := (make_chan 16)\<lparr>ch_buf := [text_message d]\<rparr>\<rparr>)"
  by (simp add: ws_Write_def writeOut_def cc_view_def at_rest_def ws_new_def send_chan_def make_chan_def push_out_def)

lemma rest_send:
  assumes c: "carried (at_rest acc rd dl inp) b"
  shows "(ws_move b)\<^sup>*\<^sup>* ((at_rest acc rd dl inp)\<lparr>w_accepted := acc @ [text_message d],
     w_out := (make_chan 16)\<lparr>ch_buf := [text_message d]\<rparr>\<rparr>) (at_rest (acc @ [text_message d]) rd dl inp)"
proof -
  let ?m = "text_message d"
  let ?s1 = "(at_rest acc rd dl inp)\<lparr>w_accepted := acc @ [?m], w_out := (make_chan 16)\<lparr>ch_buf := [?m]\<rparr>\<rparr>"
  let ?s2 = "take_out ?m (make_chan 16) (?s1\<lparr>w_sender := SeSend ?m\<rparr>)"
  let ?s3 = "record_sent ?m (?s2\<lparr>w_sender := SeSelect\<rparr>)"
  have "outgoing_step ?s1 ?s2"
    by (rule se_recv) (simp_all add: at_rest_def ws_new_def recv_chan_def make_chan_def)
  moreover have "carried ?s2 b" by (rule carried_rest [OF c]) (simp add: take_out_def)
  ultimately have 1: "ws_move b ?s1 ?s2" by (simp add: ws_move_def)
  have "outgoing_step ?s2 ?s3" by (rule se_sent) (simp_all add: at_rest_def ws_new_def take_out_def)
  moreover have "carried ?s3 b" by (rule carried_rest [OF c]) (simp add: take_out_def record_sent_def)
  ultimately have 2: "ws_move b ?s2 ?s3" by (simp add: ws_move_def)
  have "?s3 = at_rest (acc @ [?m]) rd dl inp"
    by (simp add: take_out_def record_sent_def at_rest_def ws_new_def)
  with run_step [OF 1 r_into_rtranclp [of "ws_move b", OF 2]] show ?thesis by simp
qed

text \<open>The reader and the processor that bring a frame to \<open>ReadChan\<close>.\<close>

lemma rest_receive:
  assumes c: "carried (at_rest acc (rd @ [text_message d]) dl []) b"
  shows "(ws_move b)\<^sup>*\<^sup>* (at_rest acc rd dl []) (at_rest acc (rd @ [text_message d]) dl [package_of (text_message d) now])"
proof -
  let ?c = "make_chan 16 :: wsMessage chan" and ?m = "text_message d" and ?i = "make_chan 16 :: DataPackage chan"
  let ?p = "package_of (text_message d) now"
  define s1 where "s1 = (at_rest acc rd dl [])\<lparr>w_reader := RdPush ?m, w_read := w_read (at_rest acc rd dl []) @ [?m]\<rparr>"
  define s2 where "s2 = s1\<lparr>w_reader := RdRead, w_in := ?c\<lparr>ch_buf := [?m]\<rparr>\<rparr>"
  define s3 where "s3 = s2\<lparr>w_in := ?c, w_handed := w_handed s2 @ [?m], w_proc := proc_next ?m now\<rparr>"
  define s4 where "s4 = s3\<lparr>w_proc := PrBody ?p, w_mu := Some HProc\<rparr>"
  define so where "so = s4\<lparr>w_proc := PrSend ?p\<rparr>"
  define s5 where "s5 = so\<lparr>w_proc := PrSelect, w_input := ?i\<lparr>ch_buf := [?p]\<rparr>, w_mu := None\<rparr>"
  note defs = s1_def s2_def s3_def s4_def so_def s5_def at_rest_def ws_new_def
  have "incoming_step (at_rest acc rd dl []) s1" unfolding s1_def by (rule rd_frame) (simp_all add: at_rest_def ws_new_def)
  moreover have "carried s1 b" by (rule carried_rest [OF c]) (simp add: s1_def at_rest_def)
  ultimately have 1: "ws_move b (at_rest acc rd dl []) s1" by (simp add: ws_move_def s1_def)
  have "incoming_step s1 s2" unfolding s2_def
    by (rule rd_push [where m = ?m]) (simp_all add: defs send_chan_def make_chan_def)
  moreover have "carried s2 b" by (rule carried_rest [OF c]) (simp add: s2_def s1_def at_rest_def)
  ultimately have 2: "ws_move b s1 s2" by (simp add: ws_move_def s2_def)
  have "incoming_step s2 s3" unfolding s3_def by (rule pr_recv) (simp_all add: defs recv_chan_def make_chan_def)
  moreover have "carried s3 b" by (rule carried_rest [OF c]) (simp add: s3_def s2_def s1_def at_rest_def)
  ultimately have 3: "ws_move b s2 s3" by (simp add: ws_move_def s3_def)
  have "incoming_step s3 s4" unfolding s4_def
    by (rule pr_lock) (simp_all add: defs proc_next_def text_message_def)
  moreover have "carried s4 b" by (rule carried_rest [OF c]) (simp add: s4_def s3_def s2_def s1_def at_rest_def)
  ultimately have 4: "ws_move b s3 s4" by (simp add: ws_move_def s4_def)
  have "incoming_step s4 so" unfolding so_def by (rule pr_open) (simp_all add: defs)
  moreover have "carried so b" by (rule carried_rest [OF c]) (simp add: so_def s4_def s3_def s2_def s1_def at_rest_def)
  ultimately have o: "ws_move b s4 so" by (simp add: ws_move_def so_def)
  have "incoming_step so s5" unfolding s5_def
    by (rule pr_send [where p = ?p]) (simp_all add: defs send_chan_def make_chan_def)
  moreover have "carried s5 b" by (rule carried_rest [OF c]) (simp add: s5_def so_def s4_def s3_def s2_def s1_def at_rest_def)
  ultimately have 5: "ws_move b so s5" by (simp add: ws_move_def s5_def)
  have "s5 = at_rest acc (rd @ [?m]) dl [?p]" by (simp add: defs)
  with run_step [OF 1 run_step [OF 2 run_step [OF 3 run_step [OF 4 run_step [OF o
    r_into_rtranclp [of "ws_move b", OF 5]]]]]]
  show ?thesis by simp
qed

lemma rest_deliver: "ws_deliver b (at_rest acc rd dl [p]) p (at_rest acc rd (dl @ [p]) [])"
  by (simp add: ws_deliver_def at_rest_def recv_chan_def make_chan_def)

text \<open>The peers: both answer pings.\<close>

definition ping_env :: "(ws, ws session) env" where
  "ping_env = \<lparr>tr_Write = ws_Write, fresh_ID = (\<lambda>_. ''a''), others = id, ctx_done = (\<lambda>_. None),
     audio_ClearReadBuffer = return_io (Inr 0)\<rparr>"

definition ping_args :: "ws session handler_arg list" where
  "ping_args = [ArgRequest (NewPingHandler (\<lambda>_. 9))]"

definition ping_results :: "Request \<Rightarrow> any \<Rightarrow> bool" where
  "ping_results q y \<longleftrightarrow> (\<exists>r. y = any_PingResponse r \<and> pp_T1 r = receivedAt q)"

definition sample_ids :: "nat \<Rightarrow> string" where
  "sample_ids k = replicate (Suc k) (CHR ''a'')"

lemma sample_ids_inj: "inj sample_ids"
  by (intro injI) (simp add: sample_ids_def replicate_eq_replicate)

lemma ping_args_answer: "list_all (arg_answers ping_env ping_results) ping_args"
proof -
  have "answers_request ping_env ping_results (HandleRequest (ping_handler (\<lambda>_. 9)))"
    by (rule typed_answers)
      (auto simp: quiet_def computes_def ping_handler_def PingRequest_type_def answer_ping_def
        ping_results_def Let_def split: option.splits)
  then show ?thesis by (simp add: ping_args_def NewPingHandler_def)
qed

definition ping_payload :: PingRequest where
  "ping_payload = \<lparr>pq_T0 = 5, pq_RTT = 0, pq_Data = JNull\<rparr>"

definition ping_call :: Request where
  "ping_call = NewRequest ''a'' ''ping'' (any_PingRequest ping_payload)"

definition ping_arrived :: Request where
  "ping_arrived = arrived ''a'' ''ping'' (any_PingRequest ping_payload) 7"

definition ping_response :: Response where
  "ping_response = Ok ping_arrived (any_PingResponse (ping_answer_of ping_payload 7 9))"

definition ping_returned :: Response where
  "ping_returned = ping_response\<lparr>receivedAt := 8, Result := received_any (Result ping_response)\<rparr>"

lemma ping_returned_simps [simp]: "Response_ID ping_returned = ''a''" "Error ping_returned = None"
  by (simp_all add: ping_returned_def ping_response_def ping_arrived_def constructor_defs)

definition ping_node :: "ws \<Rightarrow> pendings \<Rightarrow> (nat \<Rightarrow> call) \<Rightarrow> (nat \<Rightarrow> message option) \<Rightarrow> (ws, unit) node" where
  "ping_node t p c j = \<lparr>nd_sess = \<lparr>s_id = ''s'', s_state = SessionStateActive, s_transport = Some t, s_pending = p,
      s_once = OnceNew, s_trigger = False, s_final = False\<rparr>, nd_calls = c, nd_jobs = j\<rparr>"

lemma rpc_peer_simps [simp]:
  "s_transport (nd_sess (ping_node t p c j)) = Some t" "s_pending (nd_sess (ping_node t p c j)) = p"
  "nd_calls (ping_node t p c j) = c" "nd_jobs (ping_node t p c j) = j" "set_transport t' (ping_node t p c j) = ping_node t' p c j"
  "(ping_node t p c j)\<lparr>nd_jobs := j'\<rparr> = ping_node t p c j'"
  by (simp_all add: ping_node_def set_transport_def)

lemma ping_call_frame:
  "\<exists>j. marshal_message (MRequest ping_call) = Inr j \<and>
     receive_package 0 \<lparr>dp_Data = wire_of_json j, dp_ReceivedAt = 7\<rparr> = Ret (Some (MRequest ping_arrived))"
proof -
  have v: "Request_Validate (NewRequest ''a'' ''ping'' (any_PingRequest ping_payload)) = Ret None"
    by (simp add: constructor_defs Request_Validate_def validateBase_def Version_def wrap_verdict_def
        any_PingRequest_def PingRequest_Validate_def ping_payload_def)
  obtain j where j: "marshal_message (MRequest ping_call) = Inr j"
    by (simp add: ping_call_def constructor_defs marshal_Request_def any_field_def any_PingRequest_def)
  from request_arrives [OF v _ j [unfolded ping_call_def], of 7 0] j show ?thesis
    unfolding ping_arrived_def by auto
qed

lemma ping_call_sent:
  assumes "marshal_message (MRequest ping_call) = Inr j" and "ws_Write (wire_of_json j) t = (Ret None, t')"
  shows "sendMessage ping_env (MRequest ping_call) (nd_sess (ping_node t p c js)) = (Ret None, nd_sess (ping_node t' p c js))"
proof -
  have "Request_Validate ping_call = Ret None"
    by (simp add: ping_call_def constructor_defs Request_Validate_def validateBase_def Version_def wrap_verdict_def
        any_PingRequest_def PingRequest_Validate_def ping_payload_def)
  with assms show ?thesis
    by (simp add: sendMessage_def write_transport_def ping_env_def ping_node_def)
qed

lemma ping_call_handled:
  assumes room: "\<And>w. ws_Write w t = (Ret None, t2 w)"
  shows "\<exists>j. handleRequest ping_env (Some (NewHandler None ping_args)) ping_arrived (nd_sess (ping_node t p c js))
       = (Ret (), nd_sess (ping_node (t2 (wire_of_json j)) p c js))
     \<and> receive_package 0 \<lparr>dp_Data = wire_of_json j, dp_ReceivedAt = 8\<rparr> = Ret (Some (MResponse ping_returned))"
proof -
  let ?y = "any_PingResponse (ping_answer_of ping_payload 7 9)" and ?s = "nd_sess (ping_node t p c js)"
  have run: "handler_result (ping_handler (\<lambda>_. 9)) (session_SHC ping_env) ping_arrived ?s = (Ret (Inr (Some ping_payload, ?y)), ?s)"
    using ping_handler_result [of ping_payload ping_arrived "\<lambda>_. 9" ?s "session_SHC ping_env"]
    by (simp add: ping_payload_def ok_PingRequest_def exact_i64_def ping_arrived_def)
  have disp: "OnRequest (NewHandler None ping_args) (session_SHC ping_env) ping_arrived
      = Handle (ping_handler (\<lambda>_. 9)) (session_SHC ping_env) ping_arrived"
    by (simp add: ping_args_def NewHandler_simps NewPingHandler_def ping_handler_def PingRequest_type_def
        PingRequest_MethodName_def ping_arrived_def)
  have hook: "rt_OnAfterReply (th_type (ping_handler (\<lambda>_. 9))) = None"
    by (simp add: ping_handler_def PingRequest_type_def)
  have v: "Request_Validate ping_arrived = Ret None" unfolding ping_arrived_def by (rule arrived_valid) simp_all
  have y: "validate_any ?y = Ret None" "\<exists>k. marshal_any ?y = Inr k"
    by (simp_all add: any_PingResponse_def PingResponse_Validate_def ping_answer_of_def ping_payload_def)
  obtain j where j: "sendable (Ok ping_arrived ?y) j" using sendable_Ok [OF v _ y(1)] y(2) by blast
  have rj: "sendable (reply_for ping_arrived (Inr (Some ping_payload, ?y))) j" using j by (simp add: reply_for_def)
  have env: "tr_Write ping_env = ws_Write" by (simp add: ping_env_def)
  have h: "handleRequest ping_env (Some (NewHandler None ping_args)) ping_arrived ?s
      = (Ret (), ?s\<lparr>s_transport := Some (t2 (wire_of_json j))\<rparr>)"
    using ws_net.handleRequest_one_reply [OF env disp hook run _ rj room] by simp
  have "receive_package 0 \<lparr>dp_Data = wire_of_json j, dp_ReceivedAt = 8\<rparr>
      = Ret (Some (SetReceivedAt 8 (received (MResponse (Ok ping_arrived ?y)))))"
    by (simp add: receive_package_def ok_response_parses [OF j])
  with h show ?thesis
    by (intro exI [of _ j]) (simp add: ping_returned_def ping_response_def ping_node_def constructor_defs)
qed

definition ping_net :: "(side \<Rightarrow> (ws, unit) node) \<Rightarrow> (side \<Rightarrow> (ws, unit) node) \<Rightarrow> bool" where
  "ping_net = rpc_step (\<lambda>_. ping_env) (\<lambda>_. NewHandler None ping_args) (\<lambda>_. sample_ids) ws_move ws_deliver"

abbreviation ping_reach :: "(side \<Rightarrow> (ws, unit) node) \<Rightarrow> bool" where
  "ping_reach \<equiv> reach (rpc_start ws_start) ping_net"

abbreviation ping_step :: "ws \<Rightarrow> (ws, unit) node \<Rightarrow> (ws, unit) node \<Rightarrow> bool" where
  "ping_step \<equiv> node_step ping_env (NewHandler None ping_args) sample_ids ws_move ws_deliver"

definition both :: "'n \<Rightarrow> 'n \<Rightarrow> side \<Rightarrow> 'n" where
  "both a b = (\<lambda>sd. case sd of T1 \<Rightarrow> a | T2 \<Rightarrow> b)"

lemma peers_update: "(both a b)(T1 := a') = both a' b" "(both a b)(T2 := b') = both a b'"
  by (auto simp: both_def fun_eq_iff split: side.split)

lemma peers_steps:
  "s_transport (nd_sess b) = Some tb \<Longrightarrow> ping_step tb a a' \<Longrightarrow> ping_net (both a b) (both a' b)"
  "s_transport (nd_sess a) = Some ta \<Longrightarrow> ping_step ta b b' \<Longrightarrow> ping_net (both a b) (both a b')"
  unfolding ping_net_def rpc_step_def peers_update [symmetric]
  by (intro exI [of _ T1] exI [of _ a'] exI [of _ tb], simp add: both_def fun_eq_iff split: side.split)
     (intro exI [of _ T2] exI [of _ b'] exI [of _ ta], simp add: both_def fun_eq_iff split: side.split)

lemmas peers_step = reach.reach_step [where step = ping_net, OF _ peers_steps(1)]
  reach.reach_step [where step = ping_net, OF _ peers_steps(2)]

lemma peers_move1:
  assumes "(ws_move tb)\<^sup>*\<^sup>* t t'" and "ping_reach (both (ping_node t p c j) b)" and tb: "s_transport (nd_sess b) = Some tb"
  shows "ping_reach (both (ping_node t' p c j) b)"
  using assms(1,2)
proof (induction rule: rtranclp_induct)
  case (step u v)
  have "ping_step tb (ping_node u p c j) (ping_node v p c j)"
    using nd_move [of "ping_node u p c j" u ws_move tb v ping_env] step.hyps(2) by simp
  with step.IH [OF step.prems] tb show ?case by (blast intro: peers_step(1))
qed simp

lemma peers_move2:
  assumes "(ws_move ta)\<^sup>*\<^sup>* t t'" and "ping_reach (both a (ping_node t p c j))" and ta: "s_transport (nd_sess a) = Some ta"
  shows "ping_reach (both a (ping_node t' p c j))"
  using assms(1,2)
proof (induction rule: rtranclp_induct)
  case (step u v)
  have "ping_step ta (ping_node u p c j) (ping_node v p c j)"
    using nd_move [of "ping_node u p c j" u ws_move ta v ping_env] step.hyps(2) by simp
  with step.IH [OF step.prems] ta show ?case by (blast intro: peers_step(2))
qed simp

text \<open>The steps of the caller that touch only its table.\<close>

definition ping_pr :: pendingRequest where
  "ping_pr = \<lparr>pr_id = ''a'', pr_ch = 0\<rparr>"

definition ping_table :: "Response list \<Rightarrow> bool \<Rightarrow> pendings" where
  "ping_table rs waiting = \<lparr>pendingRequests = (if waiting then [''a'' \<mapsto> ping_pr] else Map.empty),
     pr_chans = (\<lambda>_. make_chan 1)(0 := (make_chan 1)\<lparr>ch_buf := rs\<rparr>), pr_next = 1\<rparr>"

lemma ping_register: "newPendingRequest (sample_ids 0) no_pendings = (ping_pr, ping_table [] True)"
  by (simp add: newPendingRequest_def no_pendings_def ping_pr_def ping_table_def sample_ids_def make_chan_def
      Let_def fun_eq_iff)

lemma ping_resolve: "handleIncomingMessage env h (MResponse ping_returned) (nd_sess (ping_node t (ping_table [] True) c j))
    = (Ret (), nd_sess (ping_node t (ping_table [ping_returned] False) c j))"
  by (simp add: resolvePending_def resolvePendingRequest_def send_chan_def ping_node_def ping_table_def ping_pr_def
      make_chan_def fun_eq_iff)

lemma ping_await: "await_response (ping_env\<lparr>others := id, ctx_done := (\<lambda>_. None)\<rparr>) ping_call ping_pr
      (nd_sess (ping_node t (ping_table [ping_returned] False) c j))
    = (Ret (Inr ping_returned), nd_sess (ping_node t (ping_table [] False) c j))"
  by (simp add: await_response_def recv_chan_def ping_node_def ping_table_def ping_pr_def make_chan_def Let_def)

lemma peer_eqI: "(ping_node t p c j)\<lparr>nd_sess := nd_sess (ping_node t' p' c' j'), nd_calls := c2\<rparr> = ping_node t' p' c2 j"
    "(ping_node t p c j)\<lparr>nd_sess := nd_sess (ping_node t' p' c' j'), nd_jobs := j2\<rparr> = ping_node t' p' c j2"
    "(ping_node t p c j)\<lparr>nd_sess := (nd_sess (ping_node t p c j))\<lparr>s_pending := p2\<rparr>, nd_calls := c2\<rparr> = ping_node t p2 c2 j"
  by (simp_all add: ping_node_def)

lemma peer_read:
  assumes "receive_package 0 \<lparr>dp_Data = d, dp_ReceivedAt = t\<rparr> = Ret (Some m)" and "j 0 = None"
  shows "ping_step b (ping_node (at_rest acc rd dl [package_of (text_message d) t]) p c j)
    (ping_node (at_rest acc rd (dl @ [package_of (text_message d) t]) []) p c (j(0 \<mapsto> m)))"
proof -
  let ?n = "ping_node (at_rest acc rd dl [package_of (text_message d) t]) p c j"
  have "package_of (text_message d) t = \<lparr>dp_Data = d, dp_ReceivedAt = t\<rparr>"
    by (simp add: package_of_def text_message_def)
  then show ?thesis
    using nd_read [where n = ?n and deliver = ws_deliver and move = ws_move and ids = sample_ids and g = 0 and b = b
        and env = ping_env and h = "NewHandler None ping_args", OF rpc_peer_simps(1) rest_deliver, of 0 m] assms by simp
qed

lemma peer_job:
  assumes "handleIncomingMessage ping_env (Some (NewHandler None ping_args)) m (nd_sess (ping_node t p c j))
      = (Ret (), nd_sess (ping_node t' p' c' j'))" and "j 0 = Some m"
  shows "ping_step b (ping_node t p c j) (ping_node t' p' c (j(0 := None)))"
proof -
  have "nd_jobs (ping_node t p c j) 0 = Some m" using assms(2) by simp
  from nd_job [OF this assms(1), of sample_ids ws_move ws_deliver b] show ?thesis by (simp add: peer_eqI)
qed

lemma ping_run: "\<exists>S. ping_reach S \<and> nd_calls (S T1) 0 = Returned ping_call (Inr ping_returned)"
proof -
  let ?c0 = "\<lambda>_. NotMade" and ?j0 = "\<lambda>_ :: nat. None" and ?R = "at_rest [] [] [] []"
  let ?c1 = "?c0(0 := Registered ping_call ping_pr)" and ?c2 = "?c0(0 := Awaiting ping_call ping_pr)"
  let ?c3 = "?c0(0 := Returned ping_call (Inr ping_returned))" and ?job = "?j0(0 \<mapsto> MRequest ping_arrived)"
  obtain f where f: "marshal_message (MRequest ping_call) = Inr f"
      "receive_package 0 \<lparr>dp_Data = wire_of_json f, dp_ReceivedAt = 7\<rparr> = Ret (Some (MRequest ping_arrived))"
    using ping_call_frame by blast
  let ?mf = "text_message (wire_of_json f)" let ?pf = "package_of ?mf 7" let ?T = "at_rest [] [?mf] [?pf] []"
  obtain g where g: "handleRequest ping_env (Some (NewHandler None ping_args)) ping_arrived (nd_sess (ping_node ?T no_pendings ?c0 ?job))
       = (Ret (), nd_sess (ping_node (?T\<lparr>w_accepted := [] @ [text_message (wire_of_json g)],
            w_out := (make_chan 16)\<lparr>ch_buf := [text_message (wire_of_json g)]\<rparr>\<rparr>) no_pendings ?c0 ?job))"
      "receive_package 0 \<lparr>dp_Data = wire_of_json g, dp_ReceivedAt = 8\<rparr> = Ret (Some (MResponse ping_returned))"
    using ping_call_handled [OF rest_write, of "[]" "[?mf]" "[?pf]" "[]" no_pendings ?c0 ?job] by blast
  let ?mg = "text_message (wire_of_json g)" let ?pg = "package_of ?mg 8"
  have start: "rpc_start ws_start (both (ping_node ?R no_pendings ?c0 ?j0) (ping_node ?R no_pendings ?c0 ?j0))"
    by (auto simp: rpc_start_def both_def ws_start_def at_rest_def ws_new_def split: side.split intro!: exI [of _ True])
  have 1: "ping_step b (ping_node ?R no_pendings ?c0 ?j0) (ping_node ?R (ping_table [] True) ?c1 ?j0)" for b
    using nd_register [of "ping_node ?R no_pendings ?c0 ?j0" 0 sample_ids ping_pr "ping_table [] True" ping_env _ _ _ _ "''ping''" "any_PingRequest ping_payload"]
    by (simp add: ping_register peer_eqI) (simp add: ping_call_def sample_ids_def)
  have 2: "ping_step b (ping_node ?R (ping_table [] True) ?c1 ?j0)
      (ping_node (?R\<lparr>w_accepted := [] @ [?mf], w_out := (make_chan 16)\<lparr>ch_buf := [?mf]\<rparr>\<rparr>) (ping_table [] True) ?c2 ?j0)" for b
    using nd_send [of "ping_node ?R (ping_table [] True) ?c1 ?j0" 0 ping_call ping_pr ping_env None,
        OF _ ping_call_sent [OF f(1) rest_write]]
    by (simp add: peer_eqI)
  have 3: "ping_step b (ping_node (at_rest [] [?mf] [] [?pf]) no_pendings ?c0 ?j0) (ping_node ?T no_pendings ?c0 ?job)" for b
    using peer_read [of "wire_of_json f" 7 "MRequest ping_arrived" ?j0 b "[]" "[?mf]" "[]"] f(2) by simp
  have 4: "ping_step b (ping_node ?T no_pendings ?c0 ?job) (ping_node (?T\<lparr>w_accepted := [] @ [?mg],
      w_out := (make_chan 16)\<lparr>ch_buf := [?mg]\<rparr>\<rparr>) no_pendings ?c0 ?j0)" for b
    using peer_job [of "MRequest ping_arrived" ?T no_pendings ?c0 ?job _ no_pendings ?c0 ?job b] g(1) by simp
  have 5: "ping_step b (ping_node (at_rest [?mf] [?mg] [] [?pg]) (ping_table [] True) ?c2 ?j0)
      (ping_node (at_rest [?mf] [?mg] [?pg] []) (ping_table [] True) ?c2 (?j0(0 \<mapsto> MResponse ping_returned)))" for b
    using peer_read [of "wire_of_json g" 8 "MResponse ping_returned" ?j0 b "[?mf]" "[?mg]" "[]"] g(2) by simp
  have 6: "ping_step b (ping_node t (ping_table [] True) ?c2 (?j0(0 \<mapsto> MResponse ping_returned)))
      (ping_node t (ping_table [ping_returned] False) ?c2 ?j0)" for b t
    using peer_job [OF ping_resolve, of "?j0(0 \<mapsto> MResponse ping_returned)" b] by simp
  have 7: "ping_step b (ping_node t (ping_table [ping_returned] False) ?c2 ?j0) (ping_node t (ping_table [] False) ?c3 ?j0)" for b t
    using nd_await [of "ping_node t (ping_table [ping_returned] False) ?c2 ?j0" 0 ping_call ping_pr None ping_env, OF _ ping_await]
    by (simp add: peer_eqI)
  note tr = rpc_peer_simps(1)
  have cf: "carried (at_rest [] ([] @ [?mf]) [] []) (at_rest [?mf] [] [] [])"
    and cf': "carried (at_rest [] [?mf] [?pf] []) (at_rest [?mf] [] [] [])"
    and cg: "carried (at_rest [?mf] ([] @ [?mg]) [] []) (at_rest [?mg] [?mf] [?pf] [])"
    and c0: "carried ?R b" for b
    by (simp_all add: carried_def at_rest_def frames_of_def data_frames_def text_message_def)
  note out1 = rest_send [OF c0, simplified append_Nil] and out2 = rest_send [OF cf', simplified append_Nil]
  note in1 = rest_receive [OF cf, simplified append_Nil] and in2 = rest_receive [OF cg, simplified append_Nil]
  from start have "ping_reach (both (ping_node ?R no_pendings ?c0 ?j0) (ping_node ?R no_pendings ?c0 ?j0))"
    by (rule reach.reach_init [where init = "rpc_start ws_start"])
  from peers_step(1) [OF peers_step(1) [OF this tr 1] tr 2]
  have "ping_reach (both (ping_node (at_rest [?mf] [] [] []) (ping_table [] True) ?c2 ?j0) (ping_node ?R no_pendings ?c0 ?j0))"
    by (rule peers_move1 [rotated]) (rule tr, simp only: append_Nil, rule out1)
  from peers_step(2) [OF peers_step(2) [OF peers_move2 [OF in1 this tr] tr 3] tr 4]
  have "ping_reach (both (ping_node (at_rest [?mf] [] [] []) (ping_table [] True) ?c2 ?j0) (ping_node (at_rest [?mg] [?mf] [?pf] []) no_pendings ?c0 ?j0))"
    by (rule peers_move2 [rotated]) (rule tr, simp only: append_Nil, rule out2)
  from peers_step(1) [OF peers_step(1) [OF peers_step(1) [OF peers_move1 [OF in2 this tr] tr 5] tr 6] tr 7]
  have "ping_reach (both (ping_node (at_rest [?mf] [?mg] [?pg] []) (ping_table [] False) ?c3 ?j0)
      (ping_node (at_rest [?mg] [?mf] [?pf] []) no_pendings ?c0 ?j0))" .
  then show ?thesis
    by (intro exI [of _ "both (ping_node (at_rest [?mf] [?mg] [?pg] []) (ping_table [] False) ?c3 ?j0)
      (ping_node (at_rest [?mg] [?mf] [?pf] []) no_pendings ?c0 ?j0)"]) (simp add: both_def)
qed

theorem rpc_over_websocket_witness:
  "\<exists>S q y. ping_reach S \<and> nd_calls (S T1) 0 = Returned ping_call (Inr ping_returned)
     \<and> arrived_as ping_call q \<and> ping_results q y \<and> Result ping_returned = received_any y"
proof -
  obtain S where S: "ping_reach S" "nd_calls (S T1) 0 = Returned ping_call (Inr ping_returned)"
    using ping_run by blast
  have "tr_Write ping_env = ws_Write" by (simp add: ping_env_def)
  from rpc_over_websocket [of "\<lambda>_. sample_ids" "\<lambda>_. ping_env" "\<lambda>_. ping_results" "\<lambda>_. ping_args" "\<lambda>_. None" S T1 0
      ping_call ping_returned, OF sample_ids_inj this ping_args_answer S(1) [unfolded ping_net_def] S(2)] S
  show ?thesis by blast
qed

end
