(* ===== verification/Flags.thy ===== *)
theory Flags
  imports Prelude
begin

section \<open>Command line flags\<close>

text \<open>
  What the programs of the repository use of Go's packages \<open>flag\<close> and \<open>strconv\<close>: string,
  integer and boolean variables bound to names, and \<open>flag.Parse\<close>, which takes one flag
  after the other off the arguments until the first argument that is none. The variables
  are a record of type \<open>'a\<close>; a flag says how a text is stored in it.
\<close>

subsection \<open>Values\<close>

definition ParseBool :: "string \<Rightarrow> bool option" where
  "ParseBool s =
     (if s \<in> {''1'', ''t'', ''T'', ''true'', ''TRUE'', ''True''} then Some True
      else if s \<in> {''0'', ''f'', ''F'', ''false'', ''FALSE'', ''False''} then Some False
      else None)"

definition lower_code :: "char \<Rightarrow> nat" where
  "lower_code c = (let n = of_char c in if 65 \<le> n \<and> n \<le> 90 then n + 32 else n)"

definition digit_value :: "char \<Rightarrow> nat option" where
  "digit_value c =
     (let n = lower_code c
      in if 48 \<le> n \<and> n \<le> 57 then Some (n - 48)
         else if 97 \<le> n \<and> n \<le> 122 then Some (n - 97 + 10)
         else None)"

text \<open>The digits of a number with base 0: underscores are passed over and checked later.\<close>

fun parse_digits :: "nat \<Rightarrow> string \<Rightarrow> nat \<Rightarrow> nat option" where
  "parse_digits base [] n = Some n"
| "parse_digits base (c # cs) n =
     (if c = CHR ''_'' then parse_digits base cs n
      else case digit_value c of
          None \<Rightarrow> None
        | Some d \<Rightarrow> if d \<ge> base then None else parse_digits base cs (n * base + d))"

text \<open>\<open>underscoreOK\<close>: an underscore stands between digits, or a prefix and a digit.\<close>

datatype seen = AtStart | AfterDigit | AfterUnderscore | AfterOther

fun underscores_ok :: "bool \<Rightarrow> seen \<Rightarrow> string \<Rightarrow> bool" where
  "underscores_ok hex sn [] = (sn \<noteq> AfterUnderscore)"
| "underscores_ok hex sn (c # cs) =
     (if (48 \<le> lower_code c \<and> lower_code c \<le> 57) \<or> (hex \<and> 97 \<le> lower_code c \<and> lower_code c \<le> 102)
      then underscores_ok hex AfterDigit cs
      else if c = CHR ''_'' then sn = AfterDigit \<and> underscores_ok hex AfterUnderscore cs
      else sn \<noteq> AfterUnderscore \<and> underscores_ok hex AfterOther cs)"

definition underscoreOK :: "string \<Rightarrow> bool" where
  "underscoreOK s = (case s of
      z # b # cs \<Rightarrow>
        (if z = CHR ''0'' \<and> lower_code b \<in> {98, 111, 120}
         then underscores_ok (lower_code b = 120) AfterDigit cs else underscores_ok False AtStart s)
    | _ \<Rightarrow> underscores_ok False AtStart s)"

text \<open>The base and the digits: prefixes \<open>0b\<close>, \<open>0o\<close>, \<open>0x\<close> and \<open>0\<close>.\<close>

definition number_base :: "string \<Rightarrow> nat \<times> string" where
  "number_base s = (case s of
      z # cs \<Rightarrow>
        (if z \<noteq> CHR ''0'' then (10, s)
         else (case cs of
            b # d # ds \<Rightarrow>
              (if lower_code b = 98 then (2, d # ds)
               else if lower_code b = 111 then (8, d # ds)
               else if lower_code b = 120 then (16, d # ds)
               else (8, cs))
          | _ \<Rightarrow> (8, cs)))
    | [] \<Rightarrow> (10, []))"

definition ParseUint :: "string \<Rightarrow> nat option" where
  "ParseUint s =
     (if s = [] then None
      else case number_base s of (base, ds) \<Rightarrow>
        (case parse_digits base ds 0 of
           None \<Rightarrow> None
         | Some n \<Rightarrow> if CHR ''_'' \<in> set ds \<and> \<not> underscoreOK s then None
             else if n < 2 ^ 64 then Some n else None))"

text \<open>
  \<open>strconv.ParseInt(s, 0, 64)\<close>, which sets an \<open>int\<close> variable; its syntax and range errors
  both make the flag invalid, so they are not told apart.
\<close>

definition ParseInt :: "string \<Rightarrow> int option" where
  "ParseInt s = (case s of
      [] \<Rightarrow> None
    | c # cs \<Rightarrow>
        (let neg = (c = CHR ''-''); ds = (if c = CHR ''-'' \<or> c = CHR ''+'' then cs else s) in
         case ParseUint ds of
           None \<Rightarrow> None
         | Some n \<Rightarrow>
             if \<not> neg \<and> n \<ge> 2 ^ 63 then None
             else if neg \<and> n > 2 ^ 63 then None
             else Some (if neg then - int n else int n)))"

subsection \<open>Flags\<close>

datatype 'a flag_var =
    StringVar "string \<Rightarrow> 'a \<Rightarrow> 'a"
  | IntVar "int \<Rightarrow> 'a \<Rightarrow> 'a"
  | BoolVar "bool \<Rightarrow> 'a \<Rightarrow> 'a"

type_synonym 'a flag_set = "(string \<times> 'a flag_var) list"

datatype flag_error =
    ErrHelp
  | BadSyntax string
  | NotDefined string
  | InvalidBoolean string string
  | NeedsArgument string
  | InvalidValue string string

text \<open>\<open>Value.Set\<close>.\<close>

fun set_flag :: "'a flag_var \<Rightarrow> string \<Rightarrow> 'a \<Rightarrow> 'a option" where
  "set_flag (StringVar f) v a = Some (f v a)"
| "set_flag (IntVar f) v a = (case ParseInt v of None \<Rightarrow> None | Some n \<Rightarrow> Some (f n a))"
| "set_flag (BoolVar f) v a = (case ParseBool v of None \<Rightarrow> None | Some b \<Rightarrow> Some (f b a))"

fun is_bool_flag :: "'a flag_var \<Rightarrow> bool" where
  "is_bool_flag (BoolVar f) = True"
| "is_bool_flag _ = False"

text \<open>A flag's name and its value after the first \<open>=\<close>, which cannot come first.\<close>

definition split_flag :: "string \<Rightarrow> string \<times> string option" where
  "split_flag s = (case s of
      [] \<Rightarrow> ([], None)
    | c # cs \<Rightarrow> (c # takeWhile (\<lambda>x. x \<noteq> CHR ''='') cs,
        (case dropWhile (\<lambda>x. x \<noteq> CHR ''='') cs of [] \<Rightarrow> None | _ # v \<Rightarrow> Some v)))"

datatype 'a parsed_one =
    NoMoreFlags "string list"
  | FlagSet 'a "string list"
  | FlagError flag_error

definition take_flag ::
    "'a flag_set \<Rightarrow> string \<Rightarrow> string list \<Rightarrow> 'a \<Rightarrow> 'a parsed_one" where
  "take_flag fs s args a =
     (case split_flag s of (name, given) \<Rightarrow>
     (case map_of fs name of
        None \<Rightarrow> FlagError (if name = ''help'' \<or> name = ''h'' then ErrHelp else NotDefined name)
      | Some var \<Rightarrow>
          if is_bool_flag var
          then (case given of
              Some v \<Rightarrow> (case set_flag var v a of
                  None \<Rightarrow> FlagError (InvalidBoolean v name) | Some a' \<Rightarrow> FlagSet a' args)
            | None \<Rightarrow> (case set_flag var ''true'' a of
                  None \<Rightarrow> FlagError (InvalidBoolean ''true'' name) | Some a' \<Rightarrow> FlagSet a' args))
          else (case (given, args) of
              (Some v, rest) \<Rightarrow> (case set_flag var v a of
                  None \<Rightarrow> FlagError (InvalidValue v name) | Some a' \<Rightarrow> FlagSet a' rest)
            | (None, v # rest) \<Rightarrow> (case set_flag var v a of
                  None \<Rightarrow> FlagError (InvalidValue v name) | Some a' \<Rightarrow> FlagSet a' rest)
            | (None, []) \<Rightarrow> FlagError (NeedsArgument name))))"

definition parseOne :: "'a flag_set \<Rightarrow> string list \<Rightarrow> 'a \<Rightarrow> 'a parsed_one" where
  "parseOne fs args a = (case args of
      [] \<Rightarrow> NoMoreFlags []
    | s # rest \<Rightarrow>
        (if length s < 2 \<or> hd s \<noteq> CHR ''-'' then NoMoreFlags args
         else if s = ''--'' then NoMoreFlags rest
         else (let name = (if s ! 1 = CHR ''-'' then drop 2 s else drop 1 s) in
           if name = [] \<or> hd name = CHR ''-'' \<or> hd name = CHR ''='' then FlagError (BadSyntax s)
           else take_flag fs name rest a)))"

lemma take_flag_shorter: "take_flag fs s args a = FlagSet a' args' \<Longrightarrow> length args' \<le> length args"
  by (auto simp: take_flag_def split: prod.splits option.splits if_splits list.splits)

lemma parseOne_shorter: "parseOne fs args a = FlagSet a' args' \<Longrightarrow> length args' < length args"
  using take_flag_shorter by (fastforce simp: parseOne_def Let_def split: list.splits if_splits)

text \<open>\<open>FlagSet.Parse\<close>: the variables and the arguments left, or the error it stops at.\<close>

function Parse :: "'a flag_set \<Rightarrow> string list \<Rightarrow> 'a \<Rightarrow> flag_error + 'a \<times> string list" where
  "Parse fs args a = (case parseOne fs args a of
      NoMoreFlags rest \<Rightarrow> Inr (a, rest)
    | FlagError e \<Rightarrow> Inl e
    | FlagSet a' rest \<Rightarrow> Parse fs rest a')"
  by auto
termination
  by (relation "measure (\<lambda>(fs, args, a). length args)") (auto dest: parseOne_shorter)

declare Parse.simps [simp del]

text \<open>\<open>flag.Parse()\<close> of a program: an error prints the usage and ends the process.\<close>

datatype 'a program_start = Started 'a | Exited nat

definition flag_Parse :: "'a flag_set \<Rightarrow> string list \<Rightarrow> 'a \<Rightarrow> 'a program_start" where
  "flag_Parse fs args a = (case Parse fs args a of
      Inr (a', rest) \<Rightarrow> Started a'
    | Inl e \<Rightarrow> Exited (if e = ErrHelp then 0 else 2))"

subsection \<open>Printed numbers parse\<close>

lemma digit_char_codes: "d < 10 \<Longrightarrow> (of_char (digit_char d) :: nat) = 48 + d"
  by (simp add: digit_char_def)

lemma digit_char_0: "digit_char 0 = CHR ''0''"
  unfolding digit_char_def by code_simp

lemma digit_char_facts:
  assumes "d < 10"
  shows "digit_value (digit_char d) = Some d" "digit_char d \<noteq> CHR ''_''" "digit_char d = CHR ''0'' \<longleftrightarrow> d = 0"
    "digit_char d \<noteq> CHR ''-''" "digit_char d \<noteq> CHR ''+''"
proof -
  have c: "(of_char (digit_char d) :: nat) = 48 + d" using assms by (rule digit_char_codes)
  then show "digit_value (digit_char d) = Some d"
    using assms by (simp add: digit_value_def lower_code_def)
  have ne: "digit_char d = x \<Longrightarrow> (of_char x :: nat) = 48 + d" for x using c by simp
  show "digit_char d \<noteq> CHR ''_''" "digit_char d \<noteq> CHR ''-''" "digit_char d \<noteq> CHR ''+''"
    using ne assms by fastforce+
  show "digit_char d = CHR ''0'' \<longleftrightarrow> d = 0"
    using ne [of "CHR ''0''"] digit_char_0 by auto
qed

lemma parse_digits_append:
  "parse_digits b (xs @ ys) n = (case parse_digits b xs n of None \<Rightarrow> None | Some m \<Rightarrow> parse_digits b ys m)"
  by (induction xs arbitrary: n) (auto split: option.split)

lemma show_nat_digits: "\<exists>ds. show_nat n = map digit_char ds \<and> list_all (\<lambda>d. d < 10) ds \<and> (n \<noteq> 0 \<longrightarrow> hd ds \<noteq> 0)
    \<and> (n = 0 \<longrightarrow> ds = [0]) \<and> parse_digits 10 (show_nat n) 0 = Some n"
proof (induction n rule: show_nat.induct)
  case (1 n)
  show ?case
  proof (cases "n < 10")
    case True
    then show ?thesis
      by (subst (1 2) show_nat.simps) (auto simp: digit_char_facts intro!: exI [of _ "[n]"])
  next
    case False
    obtain ds where ds: "show_nat (n div 10) = map digit_char ds" "list_all (\<lambda>d. d < 10) ds" "hd ds \<noteq> 0"
        "parse_digits 10 (show_nat (n div 10)) 0 = Some (n div 10)"
      using 1 [OF False] False by auto
    then have "ds \<noteq> []" by (metis list.map_disc_iff show_nat_nonempty)
    with ds False show ?thesis
      by (subst (1 2) show_nat.simps)
        (auto simp: digit_char_facts parse_digits_append intro!: exI [of _ "ds @ [n mod 10]"])
  qed
qed

lemma ParseUint_show_nat: "n < 2 ^ 64 \<Longrightarrow> ParseUint (show_nat n) = Some n"
proof -
  assume n: "n < 2 ^ 64"
  obtain ds where ds: "show_nat n = map digit_char ds" "list_all (\<lambda>d. d < 10) ds" "n \<noteq> 0 \<longrightarrow> hd ds \<noteq> 0"
      "n = 0 \<longrightarrow> ds = [0]" "parse_digits 10 (show_nat n) 0 = Some n"
    using show_nat_digits [of n] by blast
  have us: "CHR ''_'' \<notin> set (show_nat n)"
    unfolding ds(1) using ds(2) digit_char_facts(2) by (fastforce simp: list_all_iff)
  show ?thesis
  proof (cases "n = 0")
    case True
    with ds have "show_nat n = ''0''" by (simp add: digit_char_facts(3) [of 0, simplified])
    with True show ?thesis by (simp add: ParseUint_def number_base_def)
  next
    case False
    then obtain d ds' where d: "ds = d # ds'" "d \<noteq> 0" "d < 10"
      using ds(1-3) by (cases ds) auto
    have "number_base (show_nat n) = (10, show_nat n)"
      using d by (simp add: ds(1) number_base_def digit_char_facts(3))
    with n us ds(5) show ?thesis by (simp add: ParseUint_def)
  qed
qed

lemma show_nat_hd: "hd (show_nat n) \<noteq> CHR ''-''" "hd (show_nat n) \<noteq> CHR ''+''"
proof -
  obtain ds where ds: "show_nat n = map digit_char ds" "list_all (\<lambda>d. d < 10) ds"
    using show_nat_digits [of n] by blast
  then show "hd (show_nat n) \<noteq> CHR ''-''" "hd (show_nat n) \<noteq> CHR ''+''"
    using show_nat_nonempty [of n] digit_char_facts(4,5) by (cases ds; force)+
qed

lemma ParseInt_nat: "n < 2 ^ 63 \<Longrightarrow> ParseInt (show_nat n) = Some (int n)"
proof -
  assume n: "n < 2 ^ 63"
  obtain c cs where s: "show_nat n = c # cs" "c \<noteq> CHR ''-''" "c \<noteq> CHR ''+''"
    using show_nat_nonempty [of n] show_nat_hd [of n] by (cases "show_nat n") auto
  have "ParseUint (c # cs) = Some n" using ParseUint_show_nat [of n] n s(1) by simp
  with s n show ?thesis by (simp add: ParseInt_def)
qed

lemma ParseInt_show_int: "in_i64 n \<Longrightarrow> ParseInt (show_int n) = Some n"
proof (cases "n < 0")
  case True
  assume "in_i64 n"
  then have "nat (- n) \<le> 2 ^ 63" using True by (simp add: in_i64_def)
  with True ParseUint_show_nat [of "nat (- n)"] show ?thesis
    by (simp add: ParseInt_def show_int_def)
next
  case False
  assume "in_i64 n"
  then have "nat n < 2 ^ 63" using False by (simp add: in_i64_def)
  with False ParseInt_nat [of "nat n"] show ?thesis by (simp add: show_int_def)
qed

subsection \<open>Flags one by one\<close>

text \<open>A name a program can define: not empty, and the parts of the syntax are not in it.\<close>

definition flag_name :: "string \<Rightarrow> bool" where
  "flag_name n \<longleftrightarrow> n \<noteq> [] \<and> CHR ''='' \<notin> set n \<and> hd n \<noteq> CHR ''-''"

definition given_as :: "string \<Rightarrow> string \<Rightarrow> string" where
  "given_as n v = ''-'' @ n @ ''='' @ v"

lemma split_flag_given: "flag_name n \<Longrightarrow> split_flag (n @ CHR ''='' # v) = (n, Some v)"
  by (cases n) (auto simp: flag_name_def split_flag_def takeWhile_append dropWhile_append)

lemma split_flag_name: "flag_name n \<Longrightarrow> split_flag n = (n, None)"
proof (cases n)
  case (Cons c cs)
  assume "flag_name n"
  then have "takeWhile (\<lambda>x. x \<noteq> CHR ''='') cs = cs" "dropWhile (\<lambda>x. x \<noteq> CHR ''='') cs = []"
    unfolding takeWhile_eq_all_conv dropWhile_eq_Nil_conv by (auto simp: flag_name_def Cons)
  then show ?thesis by (simp only: Cons split_flag_def list.case)
qed (simp add: flag_name_def)

lemma parseOne_dash:
  "b \<noteq> [] \<Longrightarrow> hd b \<noteq> CHR ''-'' \<Longrightarrow> hd b \<noteq> CHR ''='' \<Longrightarrow> parseOne fs ((CHR ''-'' # b) # args) a = take_flag fs b args a"
  by (cases b) (auto simp: parseOne_def Let_def)

lemma parseOne_name:
  "flag_name n \<Longrightarrow> parseOne fs ((CHR ''-'' # n) # args) a = take_flag fs n args a"
  "flag_name n \<Longrightarrow> parseOne fs (given_as n v # args) a = take_flag fs (n @ CHR ''='' # v) args a"
proof -
  assume "flag_name n"
  then have n: "n \<noteq> [] \<and> hd n \<noteq> CHR ''-'' \<and> hd n \<noteq> CHR ''=''" by (cases n) (auto simp: flag_name_def)
  then show "parseOne fs ((CHR ''-'' # n) # args) a = take_flag fs n args a" by (intro parseOne_dash) simp_all
  have "given_as n v = CHR ''-'' # (n @ CHR ''='' # v)" by (simp add: given_as_def)
  with n show "parseOne fs (given_as n v # args) a = take_flag fs (n @ CHR ''='' # v) args a"
    using parseOne_dash [of "n @ CHR ''='' # v"] by simp
qed

lemma Parse_given:
  assumes "flag_name n" and "map_of fs n = Some var" and "set_flag var v a = Some a'"
  shows "Parse fs (given_as n v # args) a = Parse fs args a'"
  by (subst Parse.simps) (simp add: parseOne_name assms take_flag_def split_flag_given)

text \<open>A flag with the value in the next argument; a boolean flag does not take it.\<close>

lemma Parse_separate:
  assumes "flag_name n" and "map_of fs n = Some var" and "\<not> is_bool_flag var" and "set_flag var v a = Some a'"
  shows "Parse fs ((CHR ''-'' # n) # v # args) a = Parse fs args a'"
  by (subst Parse.simps) (simp add: parseOne_name assms take_flag_def split_flag_name)

lemma Parse_switch:
  assumes "flag_name n" and "map_of fs n = Some (BoolVar f)"
  shows "Parse fs ((CHR ''-'' # n) # args) a = Parse fs args (f True a)"
  by (subst Parse.simps) (simp add: parseOne_name assms take_flag_def split_flag_name ParseBool_def)

lemma Parse_stops:
  "length s < 2 \<or> hd s \<noteq> CHR ''-'' \<Longrightarrow> Parse fs (s # args) a = Inr (a, s # args)"
  "Parse fs (''--'' # args) a = Inr (a, args)"
  "Parse fs [] a = Inr (a, [])"
  by (subst Parse.simps, simp add: parseOne_def)+

lemma Parse_undefined:
  assumes "flag_name n" and "map_of fs n = None"
  shows "Parse fs ((CHR ''-'' # n) # args) a = Inl (if n = ''help'' \<or> n = ''h'' then ErrHelp else NotDefined n)"
  by (subst Parse.simps) (simp add: parseOne_name assms take_flag_def split_flag_name)

definition show_bool :: "bool \<Rightarrow> string" where
  "show_bool b = (if b then ''true'' else ''false'')"

lemma set_flag_shown [simp]:
  "set_flag (BoolVar f) (show_bool b) a = Some (f b a)"
  "in_i64 i \<Longrightarrow> set_flag (IntVar g) (show_int i) a = Some (g i a)"
  by (simp_all add: ParseInt_show_int) (simp add: show_bool_def ParseBool_def)

end
