(* ===== verification/Programs.thy ===== *)
theory Programs
  imports Flags DemoClient DemoServer
begin

section \<open>The example programs from their arguments on (examples/)\<close>

text \<open>
  Flags and start of the demo client (cli.go, main.go) and the demo server (main.go), and
  the load test (loadtest/main.go). What the operating system, the audio library, the
  dialer and the listener return are arguments.
\<close>

subsection \<open>The demo client's flags\<close>

definition client_flags :: "cliArgs flag_set" where
  "client_flags =
     [(''url'', StringVar (\<lambda>v a. a\<lparr>cli_url := v\<rparr>)),
      (''log-level'', StringVar (\<lambda>v a. a\<lparr>cli_logLevel := v\<rparr>)),
      (''auth-token'', StringVar (\<lambda>v a. a\<lparr>cli_authToken := v\<rparr>)),
      (''auth-jwt'', BoolVar (\<lambda>v a. a\<lparr>cli_authJWT := v\<rparr>)),
      (''proxy-token'', StringVar (\<lambda>v a. a\<lparr>cli_proxyToken := v\<rparr>)),
      (''proxy-url'', StringVar (\<lambda>v a. a\<lparr>cli_proxyURL := v\<rparr>)),
      (''dtmf'', StringVar (\<lambda>v a. a\<lparr>cli_dtmf := v\<rparr>)),
      (''dtmf-delay'', IntVar (\<lambda>v a. a\<lparr>cli_dtmfDelaySeconds := v\<rparr>)),
      (''sample-rate'', IntVar (\<lambda>v a. a\<lparr>cli_sampleRate := v\<rparr>)),
      (''hangup'', IntVar (\<lambda>v a. a\<lparr>cli_hangupAfterSeconds := v\<rparr>)),
      (''audio'', BoolVar (\<lambda>v a. a\<lparr>cli_audio := v\<rparr>)),
      (''phone'', BoolVar (\<lambda>v a. a\<lparr>cli_phone := v\<rparr>)),
      (''debug'', BoolVar (\<lambda>v a. a\<lparr>cli_debug := v\<rparr>))]"

text \<open>\<open>initCLI\<close>: parse, then the log level, whose error is a panic. \<open>unmarshal\<close> is slog's.\<close>

definition parse_client_args ::
    "(string \<Rightarrow> goerr + int) \<Rightarrow> string list \<Rightarrow> (cliArgs \<times> int) program_start go" where
  "parse_client_args unmarshal argv = (case flag_Parse client_flags argv initCLI of
      Exited c \<Rightarrow> Ret (Exited c)
    | Started a \<Rightarrow> bind_go (cli_LogLevel unmarshal a) (\<lambda>lvl. Ret (Started (a, lvl))))"

text \<open>The arguments that set every field.\<close>

definition client_argv :: "cliArgs \<Rightarrow> string list" where
  "client_argv a =
     [given_as ''url'' (cli_url a), given_as ''log-level'' (cli_logLevel a),
      given_as ''auth-token'' (cli_authToken a), given_as ''auth-jwt'' (show_bool (cli_authJWT a)),
      given_as ''proxy-token'' (cli_proxyToken a), given_as ''proxy-url'' (cli_proxyURL a),
      given_as ''dtmf'' (cli_dtmf a), given_as ''dtmf-delay'' (show_int (cli_dtmfDelaySeconds a)),
      given_as ''sample-rate'' (show_int (cli_sampleRate a)),
      given_as ''hangup'' (show_int (cli_hangupAfterSeconds a)), given_as ''audio'' (show_bool (cli_audio a)),
      given_as ''phone'' (show_bool (cli_phone a)), given_as ''debug'' (show_bool (cli_debug a))]"

lemma client_flag_names:
  "flag_name ''url''" "flag_name ''log-level''" "flag_name ''auth-token''" "flag_name ''auth-jwt''"
  "flag_name ''proxy-token''" "flag_name ''proxy-url''" "flag_name ''dtmf''" "flag_name ''dtmf-delay''"
  "flag_name ''sample-rate''" "flag_name ''hangup''" "flag_name ''audio''" "flag_name ''phone''" "flag_name ''debug''"
  by (simp_all add: flag_name_def)

text \<open>One flag of the client: what is stored in its variable.\<close>

lemma client_flag_lookup:
  "map_of client_flags ''url'' = Some (StringVar (\<lambda>v a. a\<lparr>cli_url := v\<rparr>))"
  "map_of client_flags ''log-level'' = Some (StringVar (\<lambda>v a. a\<lparr>cli_logLevel := v\<rparr>))"
  "map_of client_flags ''auth-token'' = Some (StringVar (\<lambda>v a. a\<lparr>cli_authToken := v\<rparr>))"
  "map_of client_flags ''auth-jwt'' = Some (BoolVar (\<lambda>v a. a\<lparr>cli_authJWT := v\<rparr>))"
  "map_of client_flags ''proxy-token'' = Some (StringVar (\<lambda>v a. a\<lparr>cli_proxyToken := v\<rparr>))"
  "map_of client_flags ''proxy-url'' = Some (StringVar (\<lambda>v a. a\<lparr>cli_proxyURL := v\<rparr>))"
  "map_of client_flags ''dtmf'' = Some (StringVar (\<lambda>v a. a\<lparr>cli_dtmf := v\<rparr>))"
  "map_of client_flags ''dtmf-delay'' = Some (IntVar (\<lambda>v a. a\<lparr>cli_dtmfDelaySeconds := v\<rparr>))"
  "map_of client_flags ''sample-rate'' = Some (IntVar (\<lambda>v a. a\<lparr>cli_sampleRate := v\<rparr>))"
  "map_of client_flags ''hangup'' = Some (IntVar (\<lambda>v a. a\<lparr>cli_hangupAfterSeconds := v\<rparr>))"
  "map_of client_flags ''audio'' = Some (BoolVar (\<lambda>v a. a\<lparr>cli_audio := v\<rparr>))"
  "map_of client_flags ''phone'' = Some (BoolVar (\<lambda>v a. a\<lparr>cli_phone := v\<rparr>))"
  "map_of client_flags ''debug'' = Some (BoolVar (\<lambda>v a. a\<lparr>cli_debug := v\<rparr>))"
  by (simp_all add: client_flags_def)

lemmas client_given = Parse_given [OF client_flag_names(1) client_flag_lookup(1)]
  Parse_given [OF client_flag_names(2) client_flag_lookup(2)] Parse_given [OF client_flag_names(3) client_flag_lookup(3)]
  Parse_given [OF client_flag_names(4) client_flag_lookup(4)] Parse_given [OF client_flag_names(5) client_flag_lookup(5)]
  Parse_given [OF client_flag_names(6) client_flag_lookup(6)] Parse_given [OF client_flag_names(7) client_flag_lookup(7)]
  Parse_given [OF client_flag_names(8) client_flag_lookup(8)] Parse_given [OF client_flag_names(9) client_flag_lookup(9)]
  Parse_given [OF client_flag_names(10) client_flag_lookup(10)] Parse_given [OF client_flag_names(11) client_flag_lookup(11)]
  Parse_given [OF client_flag_names(12) client_flag_lookup(12)] Parse_given [OF client_flag_names(13) client_flag_lookup(13)]

text \<open>
  C31. The command line loses nothing: printing any setting of the demo client's variables as
  flags and parsing it back, from whatever defaults, gives exactly that setting, whatever
  bytes the texts contain, provided the numbers fit an \<open>int\<close>.
\<close>

theorem client_flags_roundtrip:
  assumes "in_i64 (cli_sampleRate a)" and "in_i64 (cli_hangupAfterSeconds a)" and "in_i64 (cli_dtmfDelaySeconds a)"
  shows "Parse client_flags (client_argv a) b = Inr (a, [])"
  unfolding client_argv_def
  by (simp only: client_given set_flag.simps(1) set_flag_shown assms Parse_stops(3)) simp

theorem client_flags_roundtrip_witness:
  "Parse client_flags (client_argv (proxied\<lparr>cli_dtmf := ''-=#'', cli_sampleRate := - 5\<rparr>)) initCLI
   = Inr (proxied\<lparr>cli_dtmf := ''-=#'', cli_sampleRate := - 5\<rparr>, [])"
  by (rule client_flags_roundtrip) (simp_all add: proxied_def initCLI_def in_i64_def)

subsection \<open>The demo client up to its final loop\<close>

definition must :: "goerr option \<Rightarrow> unit go" where
  "must err = (case err of None \<Rightarrow> Ret () | Some e \<Rightarrow> Panic (err_text e))"

record ('d, 'c, 'h) client_program =
  cp_args :: cliArgs
  cp_level :: int
  cp_sink :: "'d option"
  cp_phone :: "('c, 'h) PhoneSystem"
  cp_handler :: ClientHandlerConfig
  cp_config :: ClientConfig
  cp_options :: "unit session_option list"
  cp_timers :: "phone_timer list"

text \<open>
  \<open>pa_init\<close> and \<open>device\<close> are the audio library's; \<open>args.config()\<close> is evaluated twice, for the
  log and for the session, and signs a token each time: \<open>jwt1\<close>, \<open>jwt2\<close>. The observer of the
  session is the unit value here.
\<close>

definition client_main ::
    "(string \<Rightarrow> goerr + int) \<Rightarrow> goerr option \<Rightarrow> (int \<Rightarrow> goerr + 'd) \<Rightarrow> goerr + string \<Rightarrow> goerr + string
       \<Rightarrow> string \<Rightarrow> string \<Rightarrow> string list \<Rightarrow> ('d, 'c, 'h) client_program program_start go" where
  "client_main unmarshal pa_init device jwt1 jwt2 uuid1 uuid2 argv =
     bind_go (parse_client_args unmarshal argv) (\<lambda>st.
     (case st of
        Exited c \<Rightarrow> Ret (Exited c)
      | Started (a, lvl) \<Rightarrow>
          bind_go (if cli_audio a then must pa_init else Ret ()) (\<lambda>_.
          bind_go (if cli_audio a
                   then (case device (demo_sampleRate a) of Inl err \<Rightarrow> Panic (err_text err) | Inr d \<Rightarrow> Ret (Some d))
                   else Ret None) (\<lambda>sink.
          bind_go (cli_config jwt1 a) (\<lambda>_.
          bind_go (cli_config jwt2 a) (\<lambda>cfg. Ret (Started
            \<lparr>cp_args = a, cp_level = lvl, cp_sink = sink, cp_phone = phone_New,
             cp_handler = demo_ClientHandlerConfig a uuid1 uuid2, cp_config = cfg,
             cp_options = demo_session_options a (), cp_timers = demo_timers a\<rparr>)))))))"

text \<open>The process ends with status 0, whether the session failed or not.\<close>

definition client_exit :: "main_event list \<Rightarrow> ('d, 'h) PhoneSystem \<Rightarrow> nat option" where
  "client_exit es p = map_option (\<lambda>err. 0) (fst (main_loop es p))"

lemma parse_client_args_Started:
  assumes "Parse client_flags argv initCLI = Inr (a, rest)"
  shows "parse_client_args unmarshal argv =
    (case unmarshal (cli_logLevel a) of
       Inl err \<Rightarrow> Panic (''invalid log level ['' @ cli_logLevel a @ '']: '' @ err_text err)
     | Inr lvl \<Rightarrow> Ret (Started (a, lvl)))"
  using assms by (simp add: parse_client_args_def flag_Parse_def cli_LogLevel_def split: sum.split)

text \<open>
  The start of the demo client: when it comes to run the session, the variables are what
  the flags say, audio has a device exactly if it is enabled, opened at the rate the
  session announces, the request to the server is built from the flags, and the rate it
  connects with is the flag's even with \<open>-phone\<close>.
\<close>

theorem client_main_started:
  assumes "client_main unmarshal pa_init device jwt1 jwt2 uuid1 uuid2 argv = Ret (Started p)"
  shows "(\<exists>rest. Parse client_flags argv initCLI = Inr (cp_args p, rest))
    \<and> cli_config jwt2 (cp_args p) = Ret (cp_config p)
    \<and> (cp_sink p \<noteq> None \<longleftrightarrow> cli_audio (cp_args p))
    \<and> (cli_audio (cp_args p) \<longrightarrow> pa_init = None \<and> device (cfg_SampleRate (cp_handler p)) = Inr (the (cp_sink p)))
    \<and> cc_SampleRate (cp_config p) = cli_sampleRate (cp_args p)"
proof -
  obtain a lvl where st: "parse_client_args unmarshal argv = Ret (Started (a, lvl))"
  proof -
    obtain st where "parse_client_args unmarshal argv = Ret st"
      using assms by (auto simp: client_main_def bind_go_eq_Ret)
    with assms that show ?thesis by (cases st) (auto simp: client_main_def)
  qed
  obtain sink cfg where p: "p = \<lparr>cp_args = a, cp_level = lvl, cp_sink = sink, cp_phone = phone_New,
      cp_handler = demo_ClientHandlerConfig a uuid1 uuid2, cp_config = cfg,
      cp_options = demo_session_options a (), cp_timers = demo_timers a\<rparr>"
    and cfg: "cli_config jwt2 a = Ret cfg" and pa: "(if cli_audio a then must pa_init else Ret ()) = Ret ()"
    and sink: "(if cli_audio a then (case device (demo_sampleRate a) of Inl err \<Rightarrow> Panic (err_text err) | Inr d \<Rightarrow> Ret (Some d))
        else Ret None) = Ret sink"
    using assms by (auto simp: client_main_def st bind_go_eq_Ret)
  have "\<exists>rest. Parse client_flags argv initCLI = Inr (a, rest)"
    using st by (auto simp: parse_client_args_def flag_Parse_def bind_go_eq_Ret split: program_start.splits sum.splits)
  moreover have "sink \<noteq> None \<longleftrightarrow> cli_audio a"
    and "cli_audio a \<longrightarrow> pa_init = None \<and> device (demo_sampleRate a) = Inr (the sink)"
    using sink pa by (auto simp: must_def split: if_splits sum.splits option.splits)
  moreover have "cc_SampleRate cfg = cli_sampleRate a" using cfg by (auto simp: cli_config_def bind_go_eq_Ret)
  ultimately show ?thesis by (simp add: p cfg demo_ClientHandlerConfig_def)
qed

text \<open>
  With \<open>-phone\<close> and a sample rate that is not positive the client cannot connect, although
  it announces 8000.
\<close>

lemma phone_rejected_by_flag_rate:
  assumes "cli_config jwt a = Ret cfg" and "cli_phone a" and "cli_sampleRate a \<le> 0"
  shows "Connect parse_url dial cfg = Inl (Errorf (''invalid sample rate: '' @ show_int (cli_sampleRate a)))
    \<and> cfg_SampleRate (demo_ClientHandlerConfig a u1 u2) = 8000"
proof -
  have "cc_SampleRate cfg = cli_sampleRate a" using assms(1) by (auto simp: cli_config_def bind_go_eq_Ret)
  then show ?thesis
    using assms(2,3)
    by (simp add: Connect_def ClientConfig_Defaults_def ClientConfig_Validate_def Let_def
        demo_ClientHandlerConfig_def demo_sampleRate_def)
qed

text \<open>A boolean flag does not take the next argument: \<open>-audio false\<close> leaves audio on and drops the rest.\<close>

lemma audio_false_as_argument:
  "Parse client_flags (''-audio'' # ''false'' # rest) a = Inr (a\<lparr>cli_audio := True\<rparr>, ''false'' # rest)"
  by (simp add: Parse_switch [OF client_flag_names(11) client_flag_lookup(11)] Parse_stops)

subsection \<open>The demo server\<close>

definition server_flags :: "serverCLI flag_set" where
  "server_flags =
     [(''move'', IntVar (\<lambda>v a. a\<lparr>sv_move := v\<rparr>)),
      (''hangup'', IntVar (\<lambda>v a. a\<lparr>sv_hangup := v\<rparr>)),
      (''terminate'', IntVar (\<lambda>v a. a\<lparr>sv_terminate := v\<rparr>)),
      (''debug'', BoolVar (\<lambda>v a. a\<lparr>sv_debug := v\<rparr>)),
      (''log-level'', StringVar (\<lambda>v a. a\<lparr>sv_logLevel := v\<rparr>))]"

definition zero_serverCLI :: serverCLI where
  "zero_serverCLI = \<lparr>sv_move = 0, sv_hangup = 0, sv_terminate = 0, sv_debug = False, sv_logLevel = []\<rparr>"

text \<open>
  \<open>Listen\<close> runs in a goroutine that drops its error, so the program waits for the
  interrupt in any case; then it shuts the server down and drops that error too. The
  outcomes: variables, log level, server, and what \<open>Shutdown\<close> returns and closes. \<open>order\<close> is
  the order of the map's iteration.
\<close>

record server_program =
  sp_args :: serverCLI
  sp_level :: int
  sp_listen :: "goerr option"
  sp_server :: server
  sp_shutdown :: "goerr option \<times> nat list"

definition server_main ::
    "goerr + string \<times> int \<Rightarrow> goerr option \<Rightarrow> (server \<Rightarrow> server) \<Rightarrow> string list \<Rightarrow> goerr option \<Rightarrow> string list
       \<Rightarrow> server_program list program_start" where
  "server_main lis serve serving order http_err argv = (case flag_Parse server_flags argv zero_serverCLI of
      Exited c \<Rightarrow> Exited c
    | Started a \<Rightarrow> Started (map (\<lambda>(err, s).
        \<lparr>sp_args = a, sp_level = server_level a, sp_listen = err, sp_server = s,
         sp_shutdown = Shutdown order http_err (serving s)\<rparr>)
        (Listen_outcomes lis serve (NewServer (demo_ServerConfig a)))))"

definition server_argv :: "serverCLI \<Rightarrow> string list" where
  "server_argv a =
     [given_as ''move'' (show_int (sv_move a)), given_as ''hangup'' (show_int (sv_hangup a)),
      given_as ''terminate'' (show_int (sv_terminate a)), given_as ''debug'' (show_bool (sv_debug a)),
      given_as ''log-level'' (sv_logLevel a)]"

lemma server_flag_names:
  "flag_name ''move''" "flag_name ''hangup''" "flag_name ''terminate''" "flag_name ''debug''" "flag_name ''log-level''"
  by (simp_all add: flag_name_def)

lemma server_flag_lookup:
  "map_of server_flags ''move'' = Some (IntVar (\<lambda>v a. a\<lparr>sv_move := v\<rparr>))"
  "map_of server_flags ''hangup'' = Some (IntVar (\<lambda>v a. a\<lparr>sv_hangup := v\<rparr>))"
  "map_of server_flags ''terminate'' = Some (IntVar (\<lambda>v a. a\<lparr>sv_terminate := v\<rparr>))"
  "map_of server_flags ''debug'' = Some (BoolVar (\<lambda>v a. a\<lparr>sv_debug := v\<rparr>))"
  "map_of server_flags ''log-level'' = Some (StringVar (\<lambda>v a. a\<lparr>sv_logLevel := v\<rparr>))"
  by (simp_all add: server_flags_def)

lemmas server_given = Parse_given [OF server_flag_names(1) server_flag_lookup(1)]
  Parse_given [OF server_flag_names(2) server_flag_lookup(2)] Parse_given [OF server_flag_names(3) server_flag_lookup(3)]
  Parse_given [OF server_flag_names(4) server_flag_lookup(4)] Parse_given [OF server_flag_names(5) server_flag_lookup(5)]

lemma server_flags_roundtrip:
  assumes "in_i64 (sv_move a)" and "in_i64 (sv_hangup a)" and "in_i64 (sv_terminate a)"
  shows "Parse server_flags (server_argv a) b = Inr (a, [])"
  unfolding server_argv_def
  by (simp only: server_given set_flag.simps(1) set_flag_shown assms Parse_stops(3)) simp

text \<open>
  A server that cannot listen does not stop: with a port that is taken the program goes on
  to wait for the interrupt, with no listener and no session to close.
\<close>

theorem server_ignores_listen_error:
  assumes "Parse server_flags argv zero_serverCLI = Inr (a, rest)"
  shows "server_main (Inl err) serve id order http_err argv = Started
    [\<lparr>sp_args = a, sp_level = server_level a, sp_listen = Some err, sp_server = NewServer (demo_ServerConfig a),
      sp_shutdown = (http_err, [])\<rparr>]"
proof -
  have "List.map_filter (\<lambda>x. None) order = []" by (induction order) (simp_all add: List.map_filter_simps)
  then show ?thesis
    using assms by (simp add: server_main_def flag_Parse_def Listen_outcomes_def Shutdown_def NewServer_def)
qed

subsection \<open>The load test\<close>

text \<open>
  \<open>runTest\<close>: connect with a silent audio source, run a session for five seconds and wait
  for its end, whose error \<open>done\<close> is received and dropped; the source is closed in any case.
\<close>

definition runTest ::
    "(string \<Rightarrow> goerr + string) \<Rightarrow> (string \<Rightarrow> header \<Rightarrow> i64 \<Rightarrow> goerr + int) \<Rightarrow> goerr option \<Rightarrow> ClientConfig
       \<Rightarrow> goerr option \<times> dummyAudio" where
  "runTest parse_url dial run_err cc =
     (let bb = snd (dummy_Close \<lparr>da_n = 0, da_closed = False\<rparr>) in
      case Connect parse_url dial cc of
        Inl err \<Rightarrow> (Some err, bb)
      | Inr conn \<Rightarrow> (None, bb))"

definition load_session_options :: "'o session_option list" where
  "load_session_options = [WithTransport, WithHandler]"

definition load_ServerConfig :: ServerConfig where
  "load_ServerConfig = \<lparr>sc_Addr = ''127.0.0.1:0'', sc_Path = [], sc_ChunkSize = 0, sc_Debug = False\<rparr>"

definition load_client_handler :: "'w SessionHandler" where
  "load_client_handler = NewHandler (Some (\<lambda>h. return_io None)) []"

text \<open>\<open>main\<close>: an error of \<open>Listen\<close> or of the test is a panic, \<open>Shutdown\<close>'s is dropped.\<close>

definition load_main ::
    "goerr + string \<times> int \<Rightarrow> goerr option \<Rightarrow> (string \<Rightarrow> goerr + string) \<Rightarrow> (string \<Rightarrow> header \<Rightarrow> i64 \<Rightarrow> goerr + int)
       \<Rightarrow> goerr option \<Rightarrow> unit go list" where
  "load_main lis serve parse_url dial run_err = map (\<lambda>(err, srv).
     bind_go (must err) (\<lambda>_. must (fst (runTest parse_url dial run_err (GetClientConfig srv)))))
     (Listen_outcomes lis serve (NewServer load_ServerConfig))"

text \<open>
  What the load test tests: it passes exactly if listening worked and the dialer accepts the
  URL of the address it listens on with the default timeout and the library's header;
  whether the session it runs fails plays no role.
\<close>

theorem load_test_passes:
  "load_main (Inr (ip, port)) None parse_url dial run_err = [Ret ()] \<longleftrightarrow>
     (let url = ''ws://'' @ ip @ '':'' @ show_int port @ ''/'' in
      \<exists>u. parse_url url = Inr u \<and> dial u [(''User-Agent'', ''babelforce/rtvbp-go'')] 10000000000 = Inr 101)"
proof -
  let ?c = "GetClientConfig ((NewServer load_ServerConfig)\<lparr>sv_ip := ip, sv_port := port\<rparr>)"
  let ?url = "''ws://'' @ ip @ '':'' @ show_int port @ ''/''"
  have c: "dc_URL (cc_Dial (ClientConfig_Defaults ?c)) = ?url" "ClientConfig_Validate (ClientConfig_Defaults ?c) = None"
    "doDial_request (cc_Dial (ClientConfig_Defaults ?c)) = Inr ([(''User-Agent'', ''babelforce/rtvbp-go'')], 10000000000)"
    by (simp_all add: GetClientConfig_def ClientConfig_Defaults_def DialConfig_Defaults_def ClientConfig_Validate_def
        NewServer_def load_ServerConfig_def ServerConfig_Defaults_def server_URL_def Let_def doDial_request_def
        header_Add_def)
  show ?thesis
    unfolding load_main_def Listen_outcomes_def runTest_def Connect_def
    by (auto simp: c Let_def must_def bind_res_eq_Inr split: option.splits sum.splits if_splits)
qed

end
