(* ===== verification/Support.thy ===== *)
theory Support
  imports Replies Direct WsServer
begin

section \<open>Debug output, message IDs and helpers\<close>

text \<open>
  debug.go with the two places that print (session.go), internal/idgen, the unused end hook
  of handler.go, the callbacks for control frames, \<open>OnClose\<close>, and the helpers that make
  sessions: \<open>Client\<close>, \<open>NewClientSession\<close> and \<open>NewTestSessions\<close>.
\<close>

subsection \<open>Debug output (debug.go)\<close>

text \<open>
  \<open>indent\<close> is the standard library's indentation of a JSON value, \<open>fmt\<close> its \<open>%+v\<close> of a message;
  both belong to the printer. The text ends in the line feed that \<open>Println\<close> adds.
\<close>

record printer =
  pr_indent :: "json \<Rightarrow> string"
  pr_fmt :: "message \<Rightarrow> string"

definition debugMessage :: "printer \<Rightarrow> string \<Rightarrow> message \<Rightarrow> string \<Rightarrow> string" where
  "debugMessage pr sessionID m direction =
     (let buf = ''MSG('' @ sessionID @ ''|'' @ direction @ '')'';
          buf = buf @ (if direction = ''in'' then '' <-- '' else '' --> '');
          nl = [char_of (10 :: nat)] in
      case marshal_message m of
        Inl err \<Rightarrow> buf @ ''failed to marshal message: '' @ pr_fmt pr m @ '' '' @ err_text (JsonErr err) @ nl @ nl
      | Inr j \<Rightarrow> buf @ nl @ pr_indent pr j @ nl @ nl)"

text \<open>\<open>sendMessage\<close> of a session with its output; \<open>debug\<close> is the session's flag.\<close>

definition sendMessage_out ::
    "('tr, ('tr, 'u) session_scheme) env \<Rightarrow> printer \<Rightarrow> bool \<Rightarrow> message
       \<Rightarrow> (goerr option, ('tr, 'u) session_scheme \<times> string list) io" where
  "sendMessage_out env pr debug msg = (\<lambda>(s, out).
     (case Validate msg of
        Ret (Some e) \<Rightarrow> (Ret (Some (Wrap2 ErrRequestValidationFailed e)), (s, out))
      | Ret None \<Rightarrow>
          (case marshal_message msg of
             Inl e \<Rightarrow> (Ret (Some (Wrapf ''sending message failed'' (JsonErr e))), (s, out))
           | Inr j \<Rightarrow>
               (let out' = (if debug then out @ [debugMessage pr (s_id s) msg ''out''] else out) in
                case write_transport env (wire_of_json j) s of (r, s') \<Rightarrow> (r, (s', out'))))
      | Panic p \<Rightarrow> (Panic p, (s, out))
      | Block \<Rightarrow> (Block, (s, out))))"

text \<open>The reader's treatment of a package with its output.\<close>

definition receive_out ::
    "printer \<Rightarrow> bool \<Rightarrow> string \<Rightarrow> i64 \<Rightarrow> DataPackage \<Rightarrow> string list \<Rightarrow> message option go \<times> string list" where
  "receive_out pr debug sid now p out =
     (case receive_package now p of
        Ret (Some m) \<Rightarrow> (Ret (Some m), if debug then out @ [debugMessage pr sid m ''in''] else out)
      | r \<Rightarrow> (r, out))"

text \<open>
  Debugging changes nothing but the output: with the flag set a session sends exactly what
  it sends without, returns the same errors and ends in the same state, and it prints one
  text for each message it hands to the transport and none for a message it refuses.
\<close>

theorem debug_only_prints:
  "sendMessage_out env pr debug msg (s, out) =
     (let (r, s') = sendMessage env msg s
      in (r, (s', if debug \<and> (\<exists>j. Validate msg = Ret None \<and> marshal_message msg = Inr j)
                  then out @ [debugMessage pr (s_id s) msg ''out''] else out)))"
  by (simp add: sendMessage_out_def sendMessage_def bind_io_apply Let_def split: go.split option.split sum.split prod.split)

text \<open>A message a session prints marshals, so its debug text is its JSON.\<close>

lemma debugMessage_sent:
  "marshal_message m = Inr j \<Longrightarrow> debugMessage pr sid m ''out'' =
     ''MSG('' @ sid @ ''|out) --> '' @ [char_of (10 :: nat)] @ pr_indent pr j @ [char_of (10 :: nat), char_of (10 :: nat)]"
  by (simp add: debugMessage_def Let_def)

subsection \<open>IDs (internal/idgen)\<close>

text \<open>The third-party generator may fail, when the system has no randomness; its error is dropped.\<close>

definition idgen_ID :: "goerr + string \<Rightarrow> string" where
  "idgen_ID gen = (case gen of Inl err \<Rightarrow> [] | Inr i \<Rightarrow> i)"

lemma empty_ID_invalid:
  "\<exists>e. Request_Validate (NewRequest [] n x) = Ret (Some e)" "\<exists>e. Event_Validate (NewEvent [] n x) = Ret (Some e)"
  by (simp_all add: Request_Validate_def Event_Validate_def constructor_defs validateBase_def)

lemma empty_ID_not_sent:
  "Request_Validate req = Ret (Some e) \<Longrightarrow>
   sendMessage env (MRequest req) s = (Ret (Some (Wrap2 ErrRequestValidationFailed e)), s)"
  by (simp add: sendMessage_invalid)

text \<open>A response that arrives never has the empty ID.\<close>

lemma arrived_response_ID:
  assumes "receive_package now p = Ret (Some (MResponse r))"
  shows "Response_ID r \<noteq> []"
proof -
  obtain x where x: "ParseValidMessage (dp_Data p) = Ret x"
    using assms by (auto simp: receive_package_def bind_go_eq_Ret)
  obtain m0 t where m0: "x = Inr m0" "SetReceivedAt t m0 = MResponse r"
    using assms x by (cases x) (auto simp: receive_package_def)
  then obtain r0 where r0: "m0 = MResponse r0" "Response_ID r = Response_ID r0" by (cases m0) auto
  have "Validate (MResponse r0) = Ret None"
    using x m0(1) r0(1) by (auto simp: ParseValidMessage_def bind_go_eq_Ret split: sum.splits option.splits)
  then show ?thesis using r0(2) by (auto simp: Response_Validate_def split: option.splits if_splits)
qed

text \<open>
  C33. Without randomness nothing is requested: when the ID generator fails, its dropped error
  surfaces only as a request without an ID; \<open>Request\<close> sends nothing and fails its own
  validation, and the entry it registered under the empty ID stays for good, because no
  response that a peer can send resolves it.
\<close>

theorem failed_ID_blocks_requests:
  assumes "fresh_ID env s = idgen_ID (Inl err)"
    and "receive_package now p = Ret (Some (MResponse r))"
  shows "\<exists>e s'. Session_Request env n payload s
      = (Ret (Inl (Wrap2 ErrRequestFailed (Wrap2 ErrRequestValidationFailed e))), s')
    \<and> s_transport s' = s_transport s
    \<and> pendingRequests (s_pending s') [] = Some \<lparr>pr_id = [], pr_ch = pr_next (s_pending s)\<rparr>
    \<and> (\<forall>w t. resolvePending r s' = (Ret (), w) \<longrightarrow> pendingRequests (s_pending w) [] = pendingRequests (s_pending s') [])"
proof -
  obtain e where e: "Request_Validate (NewRequest [] n payload) = Ret (Some e)" using empty_ID_invalid(1) by blast
  have id: "req_ID (NewRequest [] n payload) = []" by (simp add: constructor_defs)
  have gen: "fresh_ID env s = []" using assms(1) by (simp add: idgen_ID_def)
  obtain pr q where new: "newPendingRequest [] (s_pending s) = (pr, q)" by fastforce
  have q: "pendingRequests q [] = Some \<lparr>pr_id = [], pr_ch = pr_next (s_pending s)\<rparr>"
    using new by (auto simp: newPendingRequest_def Let_def)
  have "Response_ID r \<noteq> []" using assms(2) by (rule arrived_response_ID)
  then have "resolvePendingRequest r q = Ret q' \<Longrightarrow> pendingRequests q' [] = pendingRequests q []" for q'
    by (auto simp: resolvePendingRequest_def bind_go_eq_Ret split: option.splits)
  with q show ?thesis
    by (intro exI [of _ e] exI [of _ "s\<lparr>s_pending := q\<rparr>"])
      (auto simp: Session_Request_def gen id new empty_ID_not_sent [OF e] resolvePending_def split: go.splits)
qed

theorem failed_ID_blocks_requests_witness:
  "\<exists>e s'. Session_Request (sample_env\<lparr>fresh_ID := (\<lambda>_. idgen_ID (Inl (Errorf ''no randomness'')))\<rparr>) ''ping'' ANil sample_session
      = (Ret (Inl (Wrap2 ErrRequestFailed (Wrap2 ErrRequestValidationFailed e))), s')
    \<and> pendingRequests (s_pending s') [] = Some \<lparr>pr_id = [], pr_ch = 0\<rparr>"
proof -
  let ?j = "JObj [(''version'', JStr ''1''), (''response'', JStr ''a'')]"
  have "ParseValidMessage (wire_of_json ?j) = Ret (Inr (MResponse (newResponseWithVersion ''1'' ''a'' ANil None)))"
    by (simp add: ParseValidMessage_def parseMessage_def decode_raw_simps Response_Validate_def validateBase_def
        constructor_defs Version_def wrap_verdict_def)
  then have "receive_package 1 \<lparr>dp_Data = wire_of_json ?j, dp_ReceivedAt = 0\<rparr>
      = Ret (Some (MResponse ((newResponseWithVersion ''1'' ''a'' ANil None)\<lparr>receivedAt := 1\<rparr>)))"
    by (simp add: receive_package_def)
  from failed_ID_blocks_requests [where env = "sample_env\<lparr>fresh_ID := (\<lambda>_. idgen_ID (Inl (Errorf ''no randomness'')))\<rparr>"
      and s = sample_session and err = "Errorf ''no randomness''" and n = "''ping''" and payload = ANil, OF _ this]
  show ?thesis by (auto simp: sample_session_def no_pendings_def)
qed

subsection \<open>The end hook of the default handler (handler.go)\<close>

text \<open>
  \<open>onEnd\<close> is a field that \<open>NewHandler\<close> leaves nil; \<open>OnEnd\<close> is no part of the handler
  interface, and no session calls it.
\<close>

definition default_OnEnd ::
    "('w SHC \<Rightarrow> (goerr option, 'w) io) option \<Rightarrow> 'w SHC \<Rightarrow> (goerr option, 'w) io" where
  "default_OnEnd onEnd hc = (case onEnd of Some f \<Rightarrow> f hc | None \<Rightarrow> return_io None)"

subsection \<open>The control frame callbacks (transport/ws/transport.go)\<close>

text \<open>
  What a read of the connection returns for a ping or pong from the peer. \<open>WriteControl\<close>, the
  package's \<open>ErrCloseSent\<close> and the \<open>Temporary\<close> of a \<open>net.Error\<close> are arguments; \<open>None\<close> stands
  for an error that is no \<open>net.Error\<close>.
\<close>

definition ws_onPing ::
    "(string \<Rightarrow> (goerr option, 'w) io) \<Rightarrow> goerr \<Rightarrow> (goerr \<Rightarrow> bool option) \<Rightarrow> string \<Rightarrow> (goerr option, 'w) io" where
  "ws_onPing writePong errCloseSent temporary msg =
     bind_io (writePong msg) (\<lambda>err. return_io (case err of
         None \<Rightarrow> None
       | Some e \<Rightarrow>
           if errors_Is e errCloseSent then None
           else if temporary e = Some True then None
           else Some e))"

definition ws_onPong :: "string \<Rightarrow> (goerr option, 'w) io" where
  "ws_onPong msg = return_io None"

text \<open>Only a lasting failure to answer a ping ends the reader, and it ends it with that failure.\<close>

lemma ping_fails_read_iff:
  assumes "writePong msg w = (Ret err, w')"
  shows "ws_onPing writePong closeSent temporary msg w = (Ret (Some e), w') \<longleftrightarrow>
    err = Some e \<and> \<not> errors_Is e closeSent \<and> temporary e \<noteq> Some True"
  using assms by (auto simp: ws_onPing_def bind_io_def return_io_def split: option.split)

subsection \<open>Sessions made for a purpose\<close>

text \<open>\<open>OnClose\<close>: handlers run in the order they were registered.\<close>

definition Session_OnClose ::
    "(goerr option, 'w) io \<Rightarrow> (goerr option, 'w) io list \<Rightarrow> (goerr option, 'w) io list" where
  "Session_OnClose cb onCloseHandlers = onCloseHandlers @ [cb]"

text \<open>
  \<open>Client\<close>: an option whose transport is made by \<open>Connect\<close> when the session runs, and
  \<open>NewClientSession\<close>, a session that connects back to the server.
\<close>

definition ws_Client ::
    "(string \<Rightarrow> goerr + string) \<Rightarrow> (string \<Rightarrow> header \<Rightarrow> i64 \<Rightarrow> goerr + int) \<Rightarrow> ClientConfig
       \<Rightarrow> unit session_option \<times> (goerr + ws)" where
  "ws_Client parse_url dial config = (WithTransport, Connect parse_url dial config)"

definition NewClientSession ::
    "(string \<Rightarrow> goerr + string) \<Rightarrow> (string \<Rightarrow> header \<Rightarrow> i64 \<Rightarrow> goerr + int) \<Rightarrow> string \<Rightarrow> server
       \<Rightarrow> 'tr session \<times> (goerr + ws)" where
  "NewClientSession parse_url dial new_id srv =
     (case ws_Client parse_url dial (GetClientConfig srv) of
        (opt, transport) \<Rightarrow> (NewSession new_id [opt, WithHandler], transport))"

definition NewTestSessions :: "string \<Rightarrow> string \<Rightarrow> direct \<times> 'tr session \<times> 'tr session" where
  "NewTestSessions id1 id2 =
     (direct_New, NewSession id1 [WithTransport, WithHandler :: unit session_option],
      NewSession id2 [WithTransport, WithHandler :: unit session_option])"

text \<open>The client session of a server dials the server's own URL with the library's defaults.\<close>

lemma client_session_connects_back:
  assumes "sv_ip srv = ip" and "sv_port srv = port"
  shows "snd (NewClientSession parse_url dial i srv) =
    (let url = ''ws://'' @ ip @ '':'' @ show_int port @ sc_Path (sv_config srv) in
     bind_res (parse_url url) (\<lambda>u.
     bind_res (dial u [(''User-Agent'', ''babelforce/rtvbp-go'')] 10000000000) (\<lambda>status.
         if status \<noteq> 101 then Inl (Errorf (''unexpected status code: '' @ show_int status)) else Inr (ws_new True))))"
  using assms
  by (simp add: NewClientSession_def ws_Client_def Connect_def GetClientConfig_def ClientConfig_Defaults_def
      ClientConfig_Validate_def DialConfig_Defaults_def doDial_request_def server_URL_def header_Add_def Let_def
      split: option.split)

end
