(* ===== verification/Spec2Isabelle.thy ===== *)
theory Spec2Isabelle
  imports DemoSystem AudioInfo ServerRun LifeSpec RpcWs Programs Support
begin

text \<open>
  Verification of rtvbp-go, the Go library for the Real Time Voice Bridging Protocol.

  \<^bold>\<open>The program.\<close> A \<open>Session\<close> (session.go) exchanges JSON messages (proto/) with its peer over a
  \<open>Transport\<close> (transport/ws, transport/direct) and audio bytes over a duplex channel
  (audio.go). Messages are events, requests and responses. A \<open>SessionHandler\<close> (handler.go)
  gets requests and events; the typed handlers of request.go and event.go decode, validate,
  run user code, and reply. \<open>Session.Request\<close> registers an entry in a table of pending
  requests and waits for the response that resolves it (session_request.go). Package
  protov1 gives the payload types, the ping, the audio tracker, the telephony adapter and
  the client's handler. The examples are a client, a server and a load test over all that.

  \<^bold>\<open>Modelling.\<close> A Go call is a function from a world to its outcome and the new world; the
  outcome is \<open>Ret\<close>, \<open>Panic\<close> or \<open>Block\<close> (type \<open>go\<close> in \<open>Prelude\<close>), so a nil dereference or a close of
  a closed channel is a value that theorems speak about. A struct is a record, an embedded
  struct or a handler's own state a record extension, a nil pointer \<open>None\<close>, a nil \<open>error\<close>
  \<open>None\<close>. Integers that are computed with are 64-bit words; JSON numbers pass through a
  float64 and are exact up to magnitude \<open>2 ^ 53\<close>. Goroutines are step relations over program
  counters, one step per atomic operation, with ghost fields that record what happened.

  \<^bold>\<open>Theories and code.\<close>
  \<^item> \<open>Prelude\<close>, \<open>GoChan\<close>, \<open>GoJson\<close>, \<open>GoErrors\<close>, \<open>Refinement\<close>: outcomes, channels, \<open>sync.Once\<close>, what
    the code uses of encoding/json, error values with \<open>errors.Is\<close> and \<open>errors.As\<close>, the
    contract of a refinement (locale \<open>simulation\<close>).
  \<^item> \<open>Proto\<close>: proto/message.go, request.go, response.go, event.go, error.go. Round trip of every
    valid message, totality of the parser, which error responses are valid.
  \<^item> \<open>Handlers\<close>: handler.go, request.go, event.go, request_middleware.go, handler_testing.go.
    Dispatch and all branches of a typed handler.
  \<^item> \<open>Pending\<close>, \<open>Session\<close>, \<open>Replies\<close>: session_request.go, session.go, session_state.go,
    transport.go. The table of pending requests as the locale \<open>request_table\<close>; sending,
    requests, responses, closing, finalising; one reply per request over any transport with
    the contract \<open>transport_write\<close>; each caller gets its own response.
  \<^item> \<open>Lifecycle\<close>, \<open>LifeSpec\<close>: option.go, \<open>NewSession\<close>, \<open>Run\<close>, \<open>Close\<close>. The goroutines of a session
    and its closers; that they run the close handlers once and in order; and that they refine
    the contract \<open>promise\<close> (start once, stop once with all handlers run, nil only after that).
  \<^item> \<open>WsControl\<close>, \<open>WsTransport\<close>, \<open>WsSpec\<close>: transport/ws/control.go, msg.go, transport.go. The five
    goroutines of the transport with any number of writers and closers: no panic, order in
    both directions, no message lost or duplicated; refinement of an at-most-once outbox.
  \<^item> \<open>Rpc\<close>, \<open>RpcSafe\<close>, \<open>RpcCalls\<close>: two sessions with any number of concurrent calls, one goroutine
    per message, over any transports with the contract \<open>network\<close>; a call that returns a
    response returns the answer of the peer's handler to that call's own request.
  \<^item> \<open>WsLink\<close>, \<open>RpcWs\<close>: two websocket transports with their connection, which deliver in order
    what was written; and the sessions' calls over them, all goroutines and queues included.
  \<^item> \<open>WsServer\<close>, \<open>ServerRun\<close>: transport/ws/client.go, server.go. Configuration, headers, dialling,
    listening; concurrent upgrade requests against one \<open>Shutdown\<close>.
  \<^item> \<open>Direct\<close>: transport/direct/channel.go.
  \<^item> \<open>Payloads\<close>, \<open>Ping\<close>, \<open>Telephony\<close>, \<open>Client\<close>, \<open>AudioInfo\<close>: proto/protov1 and the dummy phone. Every
    payload type is an interpretation of \<open>payload_codec\<close>; both adapters interpret
    \<open>callback_slot\<close>, the fake one \<open>variable_store\<close>.
  \<^item> \<open>Audio\<close>, \<open>Duplex\<close>: audio.go, audio_observe.go, audio/, the load test's echo loop and audio.
    \<open>CopyWithBuf\<close> as a partial function and, call by call, as steps, with a lemma that a
    returning loop is a run of the steps; \<open>DuplexCopy\<close> as two interleaved loops.
  \<^item> \<open>WellFormed\<close>: the typing discipline of the wire; whatever a handler built from its session
    context does, the frames written are encodings of valid messages.
  \<^item> \<open>Hops\<close>, \<open>DemoServer\<close>, \<open>DemoClient\<close>, \<open>DemoSystem\<close>: requests across all layers; the demo programs
    (examples/rtvbp-demo-server, examples/rtvbp-demo-client), and both connected: while the
    client waits, its frames reach the server's session and the answers come back.
  \<^item> \<open>Flags\<close>, \<open>Programs\<close>: package flag and strconv as far as used, the flags and main functions of
    the demo programs, examples/loadtest/main.go.
  \<^item> \<open>Support\<close>: debug.go, internal/idgen, \<open>OnEnd\<close>, \<open>OnClose\<close> and the functions that make sessions;
    that debug output changes nothing else, and what an empty ID does to later requests.
  \<^item> This theory: a ping across all layers, and how many responses a request gets.

  \<^bold>\<open>Contracts.\<close> A locale states what one part relies on in another, and is interpreted on the
  models that provide it: \<open>fifo\<close> on Go channels, loopback, direct transport and the control
  channel's input; \<open>transport_write\<close> on both transports; \<open>network\<close> on two
  linked websocket transports; \<open>request_table\<close> on the table of
  pending requests; \<open>simulation\<close> on the session and on the websocket transport.

  \<^bold>\<open>Bounds and loops.\<close> Channel capacities are the code's: 16 for the queues of a websocket, 1
  for a pending request and for each direction of the direct transport. No fuel is used:
  loops that may not end are \<open>partial_function (option)\<close>, and that they return is proved where
  it is claimed; ticker loops take the list of their ticks.

  \<^bold>\<open>Parameters.\<close> Third-party code and the world outside are arguments: the ring buffer (a
  record of operations), the websocket connection (its results are left open), the dialer,
  the URL parser and the listener (their results), the random source of IDs, clocks, key
  parsing and signing (\<open>keylib\<close>), JSON indentation and \<open>%+v\<close> (\<open>printer\<close>), slog's level parser, what other goroutines do while a call waits (\<open>others\<close> of the record \<open>env\<close>).

  \<^bold>\<open>Not modelled.\<close> Logging and the logger options, which print only; contexts beyond whether
  they have ended; signals and delays of the examples; floating point (the audio rate, the
  buffer size of the demo client); when the websocket package runs the ping and pong callbacks.

  \<^bold>\<open>Plan.\<close> Next: the closing of a session while its calls run over two linked transports; the
  pings of both peers over the connected programs; the latency bounds of the audio buffers.
\<close>

section \<open>A ping across all layers\<close>

lemma ping_request_valid:
  assumes "pq_T0 q \<noteq> 0" and "i \<noteq> []"
  shows "Request_Validate (NewRequest i ''ping'' (any_PingRequest q)) = Ret None"
  using assms
  by (simp add: constructor_defs Request_Validate_def validateBase_def Version_def wrap_verdict_def
      any_PingRequest_def PingRequest_Validate_def)

text \<open>
  C6. A ping over a websocket, end to end: a valid ping frame from the peer makes the
  client, initialised or not, queue exactly one text frame, and that frame parses as a
  valid response with the ping's ID that decodes to the answer with the ping's own \<open>T0\<close>
  and data, the receive time, the clock and their difference.
\<close>

theorem ping_answered_over_websocket:
  fixes s :: "(controlChannel, 'tel, 'z) client_scheme"
  assumes "ok_PingRequest q" and "pq_T0 q \<noteq> 0" and "i \<noteq> []" and "t \<noteq> 0" and "now s \<noteq> 0"
    and "marshal_message (MRequest (NewRequest i ''ping'' (any_PingRequest q))) = Inr j"
    and "ok_PingResponse (ping_answer_of q t (now s))"
    and "tr_Write env = writeOut" and "s_transport s = Some cc"
    and "\<not> cc_closed cc" and "has_room (cc_output cc)"
  shows "\<exists>req cc' frame resp.
      receive_package now1 \<lparr>dp_Data = wire_of_json j, dp_ReceivedAt = t\<rparr> = Ret (Some (MRequest req))
    \<and> handleRequest env (Some (NewClientHandler now tel config onAudio)) req s
        = (Ret (), s\<lparr>s_transport := Some cc'\<rparr>)
    \<and> cc_written cc' = cc_written cc @ [frame]
    \<and> ParseValidMessage frame = Ret (Inr (MResponse resp)) \<and> Response_ID resp = i
    \<and> As (dec_struct set_PingResponse) zero_PingResponse (Result resp) = Inr (ping_answer_of q t (now s))"
proof -
  let ?req = "arrived i ''ping'' (any_PingRequest q) t" and ?ans = "any_PingResponse (ping_answer_of q t (now s))"
  have run: "handler_result (ping_handler now) (session_SHC env) ?req s = (Ret (Inr (Some q, ?ans)), s)"
    using ping_handler_result [of q ?req now s "session_SHC env"] assms(1,2,4,5) by simp
  have v: "validate_any ?ans = Ret None"
    using assms(2,4,5) by (simp add: any_PingResponse_def PingResponse_Validate_def ping_answer_of_def)
  have m: "\<exists>k. marshal_any ?ans = Inr k" by (simp add: any_PingResponse_def)
  have disp: "OnRequest (NewClientHandler now tel config onAudio) (session_SHC env) ?req
      = Handle (ping_handler now) (session_SHC env) ?req"
    by (simp add: client_dispatch NewPingHandler_def)
  have hook: "rt_OnAfterReply (th_type (ping_handler now)) = None"
    by (simp add: ping_handler_def PingRequest_type_def)
  have dec: "As (dec_struct set_PingResponse) zero_PingResponse (received_any ?ans) = Inr (ping_answer_of q t (now s))"
    unfolding any_PingResponse_def by (rule PingResponse.As_received) (rule assms(7))
  from m obtain k where k: "marshal_any ?ans = Inr k" by blast
  have "''ping'' \<noteq> []" by simp
  from answered_over_websocket [OF assms(3) this disp hook run k v assms(8-11)] dec
    request_arrives [OF ping_request_valid [OF assms(2,3)] assms(4,6), of now1]
  show ?thesis by metis
qed

theorem ping_answered_over_websocket_witness:
  "\<exists>req cc' frame resp.
      receive_package 0 \<lparr>dp_Data = wire_of_json (JObj [(''version'', JStr ''1''), (''id'', JStr ''p1''),
        (''method'', JStr ''ping''), (''params'', JObj [(''t0'', JInt 1000), (''data'', JStr ''x'')])]),
        dp_ReceivedAt = 1003\<rparr> = Ret (Some (MRequest req))
    \<and> handleRequest (recording_env TYPE((client_callback, client_callback) FakeTelephonyAdapter))
        (Some (NewClientHandler (\<lambda>w. 1004) (fake_telephony (\<lambda>f. ''r'')) sample_config (\<lambda>h. return_io None))) req ws_client
        = (Ret (), ws_client\<lparr>s_transport := Some cc'\<rparr>)
    \<and> cc_written cc' = cc_written (newControlChannel (make_chan 16)) @ [frame]
    \<and> ParseValidMessage frame = Ret (Inr (MResponse resp)) \<and> Response_ID resp = ''p1''
    \<and> As (dec_struct set_PingResponse) zero_PingResponse (Result resp) = Inr (ping_answer_of sample_ping 1003 1004)"
proof -
  have j: "marshal_message (MRequest (NewRequest ''p1'' ''ping'' (any_PingRequest sample_ping))) = Inr (JObj
      [(''version'', JStr ''1''), (''id'', JStr ''p1''), (''method'', JStr ''ping''),
       (''params'', JObj [(''t0'', JInt 1000), (''data'', JStr ''x'')])])"
    by (simp add: sample_ping_def any_PingRequest_def enc_PingRequest_def payload_simps constructor_defs
        marshal_Request_def any_field_def Version_def any_struct_def)
  have ok: "ok_PingRequest sample_ping" "pq_T0 sample_ping \<noteq> 0" "ok_PingResponse (ping_answer_of sample_ping 1003 1004)"
    by (simp_all add: sample_ping_def ok_PingRequest_def ok_PingResponse_def ping_answer_of_def exact_i64_def)
  show ?thesis
    using ping_answered_over_websocket [of sample_ping "''p1''" 1003 "\<lambda>w. 1004" ws_client _
        "recording_env TYPE((client_callback, client_callback) FakeTelephonyAdapter)"
        "newControlChannel (make_chan 16)" 0 "fake_telephony (\<lambda>f. ''r'')" sample_config "\<lambda>h. return_io None",
        OF ok(1,2) _ _ _ j ok(3)]
    by (simp add: recording_env_def ws_client_def newControlChannel_def)
qed

section \<open>How many responses a request gets\<close>

text \<open>What a handler computed can be sent: a marshalling result, or an error with a code and a text.\<close>

definition answerable :: "goerr + 'p \<times> any \<Rightarrow> bool" where
  "answerable r = (case r of
      Inl err \<Rightarrow> (case errors_As as_ResponseError err of
          Some re \<Rightarrow> Code re \<noteq> 0 \<and> Message re \<noteq> [] | None \<Rightarrow> err_text err \<noteq> [])
    | Inr (p, x) \<Rightarrow> (\<exists>j. marshal_any x = Inr j) \<and> validate_any x = Ret None)"

lemma answerable_sendable:
  assumes "Request_Validate req = Ret None" and "answerable r"
  shows "\<exists>j. sendable (reply_for req r) j"
proof (cases r)
  case (Inl err)
  with assms show ?thesis
    using sendable_error [OF assms(1), of err] by (simp add: answerable_def reply_for_def)
next
  case (Inr px)
  with assms show ?thesis
    using sendable_Ok [OF assms(1)] by (cases px) (auto simp: answerable_def reply_for_def)
qed

lemma typed_dispatch:
  "map_of (rev (concat (map request_entry args))) (Method req) = Some (HandleRequest th) \<Longrightarrow>
   OnRequest (NewHandler b args) hc req = Handle th hc req"
  by (simp add: NewHandler_simps)

text \<open>
  C5. Exactly one response: a valid request whose method has a typed handler without an
  \<open>OnAfterReply\<close> hook is answered with exactly one frame, whether the handler succeeds or
  fails: the result, or the error, under the request's ID; provided there is room in the
  queue and the result marshals or the error has a code and a text.
\<close>

theorem request_answered_exactly_once:
  assumes "Request_Validate req = Ret None" and "tr_Write env = writeOut"
    and "map_of (rev (concat (map request_entry args))) (Method req) = Some (HandleRequest th)"
    and "rt_OnAfterReply (th_type th) = None"
    and "handler_result th (session_SHC env) req s = (Ret r, s1)" and "answerable r"
    and "s_transport s1 = Some cc" and "\<not> cc_closed cc" and "has_room (cc_output cc)"
  shows "\<exists>cc' j. handleRequest env (Some (NewHandler b args)) req s = (Ret (), s1\<lparr>s_transport := Some cc'\<rparr>)
    \<and> cc_written cc' = cc_written cc @ [wire_of_json j]
    \<and> marshal_Response (reply_for req r) = Inr j \<and> Response_ID (reply_for req r) = req_ID req"
proof -
  obtain j where j: "sendable (reply_for req r) j" using answerable_sendable [OF assms(1,6)] by blast
  obtain cc' where acc: "writeOut (wire_of_json j) cc = (Ret None, cc')"
    using assms(8,9) by (simp add: writeOut_def send_chan_def has_room_def)
  have "Response_ID (reply_for req r) = req_ID req"
    by (cases r) (auto simp: reply_for_def split: prod.split)
  with ws_tr.handleRequest_one_reply [OF assms(2) typed_dispatch [OF assms(3)] assms(4,5,7) j acc, of b] j
  show ?thesis by (auto simp: sendable_def)
qed

text \<open>
  C35. A failing \<open>OnAfterReply\<close> hook sends a second response: after the successful reply the
  hook's error is answered too, with an error response under the same ID.
\<close>

theorem hook_error_sends_second_response:
  assumes "Request_Validate req = Ret None" and "tr_Write env = writeOut"
    and "map_of (rev (concat (map request_entry args))) (Method req) = Some (HandleRequest th)"
    and "rt_OnAfterReply (th_type th) = Some hook"
    and "handler_result th (session_SHC env) req s = (Ret (Inr (params, x)), s1)"
    and "answerable (Inr (params, x))"
    and "\<forall>v. hook params (session_SHC env) v = (Ret (Some err), v)"
    and "answerable (Inl err :: goerr + 'p \<times> any)"
    and "s_transport s1 = Some cc" and "\<not> cc_closed cc" and "\<not> ch_closed (cc_output cc)"
    and "length (ch_buf (cc_output cc)) + 2 \<le> ch_cap (cc_output cc)"
  shows "\<exists>cc' j1 j2. handleRequest env (Some (NewHandler b args)) req s = (Ret (), s1\<lparr>s_transport := Some cc'\<rparr>)
    \<and> cc_written cc' = cc_written cc @ [wire_of_json j1, wire_of_json j2]
    \<and> marshal_Response (Ok req x) = Inr j1
    \<and> marshal_Response (NotOk req (ToResponseError err)) = Inr j2"
proof -
  obtain j1 where j1: "sendable (Ok req x) j1"
    using answerable_sendable [OF assms(1,6)] by (auto simp: reply_for_def)
  obtain j2 where j2: "sendable (NotOk req (ToResponseError err)) j2"
    using answerable_sendable [OF assms(1,8)] by (auto simp: reply_for_def)
  define cc1 where "cc1 = cc\<lparr>cc_output := (cc_output cc)\<lparr>ch_buf := ch_buf (cc_output cc)
    @ [text_message (wire_of_json j1)]\<rparr>\<rparr>"
  have acc1: "writeOut (wire_of_json j1) cc = (Ret None, cc1)"
    using assms(10-12) by (simp add: writeOut_def send_chan_def cc1_def)
  obtain cc2 where acc2: "writeOut (wire_of_json j2) cc1 = (Ret None, cc2)"
    using assms(10-12) by (simp add: writeOut_def send_chan_def cc1_def)
  from ws_tr.handleRequest_hook_error_two_replies [OF assms(2) typed_dispatch [OF assms(3)] assms(5,9) j1 acc1
      assms(4) assms(7) [THEN spec] _ j2 acc2, of b]
  show ?thesis using j1 j2 by (intro exI [of _ cc2] exI [of _ j1] exI [of _ j2]) (simp add: sendable_def)
qed

text \<open>A handler that always succeeds, with and without a failing hook, for the witnesses.\<close>

definition done_handler ::
    "(AudioBufferClearRequest option \<Rightarrow> 'w SHC \<Rightarrow> (goerr option, 'w) io) option
       \<Rightarrow> (AudioBufferClearRequest, unit, 'w) typedRequestHandler" where
  "done_handler hook =
     \<lparr>th_type = (plain_type ''do'' (dec_struct set_no_fields) AudioBufferClearRequest)\<lparr>rt_OnAfterReply := hook\<rparr>,
      th_res = (\<lambda>_. any_EmptyResponse), th_h = (\<lambda>r hc req. return_io (Inr ()))\<rparr>"

lemma done_handler_result:
  "handler_result (done_handler hook) h (NewRequest ''r1'' ''do'' ANil) w
     = (Ret (Inr (None, any_EmptyResponse)), w)"
  by (simp add: done_handler_def handler_result_def plain_type_def constructor_defs validate_params_def
      any_EmptyResponse_def)

lemma done_request_valid: "Request_Validate (NewRequest ''r1'' ''do'' ANil) = Ret None"
  by (simp add: constructor_defs Request_Validate_def validateBase_def Version_def wrap_verdict_def)

lemma answerable_done: "answerable (Inr (p, any_EmptyResponse))"
  by (simp add: answerable_def any_EmptyResponse_def)

theorem request_answered_exactly_once_witness:
  "\<exists>cc' j. handleRequest (recording_env TYPE((client_callback, client_callback) FakeTelephonyAdapter))
        (Some (NewHandler None [ArgRequest (HandleRequest (done_handler None))]))
        (NewRequest ''r1'' ''do'' ANil) ws_client = (Ret (), ws_client\<lparr>s_transport := Some cc'\<rparr>)
    \<and> cc_written cc' = [wire_of_json j]"
  using request_answered_exactly_once [of "NewRequest ''r1'' ''do'' ANil"
      "recording_env TYPE((client_callback, client_callback) FakeTelephonyAdapter)"
      "[ArgRequest (HandleRequest (done_handler None))]" "done_handler None" ws_client
      "Inr (None, any_EmptyResponse)" ws_client "newControlChannel (make_chan 16)" None,
      OF done_request_valid _ _ _ done_handler_result answerable_done]
  by (auto simp: recording_env_def ws_client_def newControlChannel_def done_handler_def plain_type_def
      constructor_defs cc_written_def)

theorem hook_error_sends_second_response_witness:
  "\<exists>cc' j1 j2. handleRequest (recording_env TYPE((client_callback, client_callback) FakeTelephonyAdapter))
        (Some (NewHandler None [ArgRequest (HandleRequest (done_handler
          (Some (\<lambda>p h. return_io (Some (Errorf ''hook'')))))) ]))
        (NewRequest ''r1'' ''do'' ANil) ws_client = (Ret (), ws_client\<lparr>s_transport := Some cc'\<rparr>)
    \<and> cc_written cc' = [wire_of_json j1, wire_of_json j2]"
proof -
  have err: "answerable (Inl (Errorf ''hook'') :: goerr + AudioBufferClearRequest option \<times> any)"
    by (simp add: answerable_def errors_As.simps)
  show ?thesis
    using hook_error_sends_second_response [of "NewRequest ''r1'' ''do'' ANil"
      "recording_env TYPE((client_callback, client_callback) FakeTelephonyAdapter)"
      "[ArgRequest (HandleRequest (done_handler (Some (\<lambda>p h. return_io (Some (Errorf ''hook''))))))]"
      "done_handler (Some (\<lambda>p h. return_io (Some (Errorf ''hook''))))"
      "\<lambda>p h. return_io (Some (Errorf ''hook''))" ws_client None any_EmptyResponse ws_client
      "Errorf ''hook''" "newControlChannel (make_chan 16)" None,
      OF done_request_valid _ _ _ done_handler_result answerable_done _ err]
    by (auto simp: recording_env_def ws_client_def newControlChannel_def done_handler_def plain_type_def
        constructor_defs cc_written_def)
qed

end
